(* ===== verification/Prelude.thy ===== *)
theory Prelude
  imports Main "HOL-Library.Word" "HOL-Library.AList" "HOL-Library.Signed_Division"
begin

text \<open>
  What the components of the development share.

  \<^item> Go's fixed-width integers: \<open>int32\<close> and \<open>int64\<close> are words, read by \<open>sint\<close>;
    Go's \<open>+\<close>, \<open>-\<close>, \<open>*\<close> are the wrapping operations of words, and its
    comparisons are the signed ones (\<open><s\<close>, \<open>\<le>s\<close>).
  \<^item> Go's \<open>time.Time\<close> and \<open>time.Duration\<close> as integers counting nanoseconds.
  \<^item> Go's \<open>error\<close> values (\<open>errors.New\<close>, \<open>fmt.Errorf\<close> with \<open>%w\<close>, \<open>errors.Is\<close>), and
    the errors of the API server.
  \<^item> The sequencing of calls that may fail and change a state, and its weakest preconditions.
  \<^item> Decimal printing (\<open>%d\<close>), with its round trip.
  \<^item> A Go map is an association list: the order of the list is the (unspecified) order of
    a \<open>range\<close> loop over the map, insertion is \<open>AList.update\<close>, \<open>delete\<close> is \<open>AList.delete\<close>
    and a lookup is \<open>map_of\<close>.
\<close>

named_theorems int32_simps "reading of 32-bit operations as integers"
named_theorems step_simps "unfolding of the sequencing of fallible calls"

section \<open>Fixed-width integers\<close>

type_synonym int32 = "32 word"
type_synonym int64 = "64 word"

abbreviation MaxInt32 :: int32 where
  "MaxInt32 \<equiv> 2147483647"

abbreviation MaxInt64 :: int64 where
  "MaxInt64 \<equiv> 9223372036854775807"

text \<open>The conversion \<open>int64(x)\<close> of an \<open>int32\<close>, the truncation \<open>int32(x)\<close> of an
  \<open>int64\<close>, and Go's division, which truncates towards zero.\<close>

definition to_int64 :: "int32 \<Rightarrow> int64" where
  "to_int64 x = scast x"

definition to_int32 :: "int64 \<Rightarrow> int32" where
  "to_int32 x = scast x"

definition div_int64 :: "int64 \<Rightarrow> int64 \<Rightarrow> int64" where
  "div_int64 x y = word_of_int (sint x sdiv sint y)"

lemma sint32_bounds: "- 2147483648 \<le> sint (x :: int32)" "sint (x :: int32) \<le> 2147483647"
  using sint_ge [of x] sint_lt [of x] by simp_all

lemma sint64_bounds:
  "- 9223372036854775808 \<le> sint (x :: int64)" "sint (x :: int64) \<le> 9223372036854775807"
  using sint_ge [of x] sint_lt [of x] by simp_all

lemma signed_take_bit_in_range:
  "- (2 ^ n) \<le> k \<Longrightarrow> k < 2 ^ n \<Longrightarrow> signed_take_bit n k = (k :: int)"
  by (rule signed_take_bit_int_eq_self)

lemma sint32_of_int: "- 2147483648 \<le> k \<Longrightarrow> k \<le> 2147483647 \<Longrightarrow> sint (word_of_int k :: int32) = k"
  by (simp add: sint_sbintrunc' signed_take_bit_int_eq_self)

lemma sint64_of_int:
  "- 9223372036854775808 \<le> k \<Longrightarrow> k \<le> 9223372036854775807 \<Longrightarrow> sint (word_of_int k :: int64) = k"
  by (simp add: sint_sbintrunc' signed_take_bit_int_eq_self)

lemma sint32_add:
  assumes "- 2147483648 \<le> sint x + sint y" and "sint x + sint y \<le> 2147483647"
  shows "sint (x + y :: int32) = sint x + sint y"
  using assms by (simp add: sint_word_ariths signed_take_bit_int_eq_self)

lemma sint32_sub:
  assumes "- 2147483648 \<le> sint x - sint y" and "sint x - sint y \<le> 2147483647"
  shows "sint (x - y :: int32) = sint x - sint y"
  using assms by (simp add: sint_word_ariths signed_take_bit_int_eq_self)

lemma sint64_add:
  assumes "- 9223372036854775808 \<le> sint x + sint y" and "sint x + sint y \<le> 9223372036854775807"
  shows "sint (x + y :: int64) = sint x + sint y"
  using assms by (simp add: sint_word_ariths signed_take_bit_int_eq_self)

lemma sint64_mult:
  assumes "- 9223372036854775808 \<le> sint x * sint y" and "sint x * sint y \<le> 9223372036854775807"
  shows "sint (x * y :: int64) = sint x * sint y"
  using assms by (simp add: sint_word_ariths signed_take_bit_int_eq_self)

lemma sint_to_int64 [simp, int32_simps]: "sint (to_int64 x) = sint x"
  by (simp add: to_int64_def sint_up_scast is_up)

lemma to_int64_numeral [simp]:
  "to_int64 0 = 0" "to_int64 1 = 1"
  by (simp_all add: to_int64_def)

lemma sint_eq_MaxInt32: "sint (x :: int32) = 2147483647 \<longleftrightarrow> x = MaxInt32"
  using signed_word_eqI [of x MaxInt32] by auto

lemma sint_to_int32:
  assumes "- 2147483648 \<le> sint x" and "sint x \<le> 2147483647"
  shows "sint (to_int32 x) = sint x"
  unfolding to_int32_def scast_eq using assms by (rule sint32_of_int)

text \<open>The sum of three \<open>int32\<close> values never leaves the range of an \<open>int64\<close>: this is
  what the quota projections rely on.\<close>

lemma sint_add3_int64 [int32_simps]:
  "sint (to_int64 x + to_int64 y + to_int64 z) = sint x + sint y + sint z"
proof -
  have xy: "sint (to_int64 x + to_int64 y) = sint x + sint y"
    using sint32_bounds [of x] sint32_bounds [of y] by (subst sint64_add) simp_all
  show ?thesis
    using xy sint32_bounds [of x] sint32_bounds [of y] sint32_bounds [of z]
    by (subst sint64_add) simp_all
qed

text \<open>A sum of non-negative \<open>int32\<close> values that fits does not wrap around.\<close>

lemma sint32_sum_list:
  "\<forall>x \<in> set xs. 0 \<le> sint x \<Longrightarrow> sum_list (map sint xs) \<le> 2147483647 \<Longrightarrow>
   sint (sum_list (xs :: int32 list)) = sum_list (map sint xs)"
proof (induction xs)
  case Nil
  then show ?case by simp
next
  case (Cons x xs)
  have "0 \<le> sum_list (map sint xs)"
    using Cons.prems(1) by (intro sum_list_nonneg) auto
  with Cons have "sint (sum_list xs) = sum_list (map sint xs)" by simp
  with Cons.prems \<open>0 \<le> sum_list (map sint xs)\<close> show ?case
    by (simp add: sint32_add)
qed

lemmas signed_less [int32_simps] = word_sless_alt
lemmas signed_le [int32_simps] = word_sle_eq

section \<open>Time\<close>

type_synonym time = int
type_synonym duration = int

abbreviation Millisecond :: duration where
  "Millisecond \<equiv> 1000000"

abbreviation Second :: duration where
  "Second \<equiv> 1000000000"

abbreviation Minute :: duration where
  "Minute \<equiv> 60000000000"

abbreviation Hour :: duration where
  "Hour \<equiv> 3600000000000"

text \<open>\<open>now.After(t)\<close>, \<open>t.Add(d)\<close>, and \<open>t.Sub(u)\<close>, which saturates at the bounds of an
  \<open>int64\<close>; the product and the difference of two durations wrap around; \<open>%\<close> has the sign of its first operand.\<close>

definition time_after :: "time \<Rightarrow> time \<Rightarrow> bool" where
  "time_after t u \<longleftrightarrow> u < t"

definition time_add :: "time \<Rightarrow> duration \<Rightarrow> time" where
  "time_add t d = t + d"

definition time_sub :: "time \<Rightarrow> time \<Rightarrow> duration" where
  "time_sub t u = max (- (2 ^ 63)) (min (2 ^ 63 - 1) (t - u))"

definition dur_mult :: "duration \<Rightarrow> duration \<Rightarrow> duration" where
  "dur_mult d e = signed_take_bit 63 (d * e)"

definition dur_sub :: "duration \<Rightarrow> duration \<Rightarrow> duration" where
  "dur_sub d e = signed_take_bit 63 (d - e)"

definition dur_rem :: "duration \<Rightarrow> duration \<Rightarrow> duration" where
  "dur_rem d e = d smod e"

section \<open>Errors\<close>

datatype api_reason = NotFound | AlreadyExists | Conflict | Invalid | Forbidden | OtherReason

datatype goerr =
    ErrNew string
  | Errorf string "goerr list"
  | APIStatus api_reason string
  | RuntimePanic string

text \<open>\<open>err.Error()\<close>: the text of the format, then the texts of the wrapped errors.\<close>

fun err_text :: "goerr \<Rightarrow> string" where
  "err_text (ErrNew m) = m"
| "err_text (Errorf m es) = m @ concat (map err_text es)"
| "err_text (APIStatus r m) = m"
| "err_text (RuntimePanic m) = m"

text \<open>\<open>errors.Is(err, target)\<close> walks the tree of wrapped errors;
  \<open>apierrors.IsNotFound\<close> finds the API status in that tree.\<close>

fun err_is :: "goerr \<Rightarrow> goerr \<Rightarrow> bool" where
  "err_is (Errorf m es) t \<longleftrightarrow> Errorf m es = t \<or> list_ex (\<lambda>e. err_is e t) es"
| "err_is e t \<longleftrightarrow> e = t"

fun IsNotFound :: "goerr \<Rightarrow> bool" where
  "IsNotFound (APIStatus r m) \<longleftrightarrow> r = NotFound"
| "IsNotFound (Errorf m es) \<longleftrightarrow> list_ex IsNotFound es"
| "IsNotFound _ \<longleftrightarrow> False"

fun IsConflict :: "goerr \<Rightarrow> bool" where
  "IsConflict (APIStatus r m) \<longleftrightarrow> r = Conflict"
| "IsConflict (Errorf m es) \<longleftrightarrow> list_ex IsConflict es"
| "IsConflict _ \<longleftrightarrow> False"

lemma err_is_refl [simp]: "err_is e e"
  by (cases e) simp_all

section \<open>Calls that may fail and change the state\<close>

type_synonym ('s, 'a) act = "'s \<Rightarrow> (goerr + 'a) \<times> 's"

definition ret :: "'a \<Rightarrow> ('s, 'a) act" where
  "ret x s = (Inr x, s)"

definition fail :: "goerr \<Rightarrow> ('s, 'a) act" where
  "fail e s = (Inl e, s)"

text \<open>\<open>x, err := m; if err != nil { return err }; ...\<close>\<close>

definition andThen :: "('s, 'a) act \<Rightarrow> ('a \<Rightarrow> ('s, 'b) act) \<Rightarrow> ('s, 'b) act" where
  "andThen m f s = (case m s of (Inl e, s') \<Rightarrow> (Inl e, s') | (Inr x, s') \<Rightarrow> f x s')"

text \<open>\<open>if err := m; err != nil { return fmt.Errorf("...: %w", err) }\<close>\<close>

definition wrapErr :: "string \<Rightarrow> ('s, 'a) act \<Rightarrow> ('s, 'a) act" where
  "wrapErr msg m s = (case m s of (Inl e, s') \<Rightarrow> (Inl (Errorf msg [e]), s') | (Inr x, s') \<Rightarrow> (Inr x, s'))"

text \<open>\<open>x, err := m\<close>, with both outcomes inspected by what follows.\<close>

definition catchErr :: "('s, 'a) act \<Rightarrow> (goerr \<Rightarrow> ('s, 'b) act) \<Rightarrow> ('a \<Rightarrow> ('s, 'b) act) \<Rightarrow> ('s, 'b) act" where
  "catchErr m h f s = (case m s of (Inl e, s') \<Rightarrow> h e s' | (Inr x, s') \<Rightarrow> f x s')"

lemma ret_eq [simp, step_simps]: "ret x s = (Inr x, s)"
  by (simp add: ret_def)

lemma fail_eq [simp, step_simps]: "fail e s = (Inl e, s)"
  by (simp add: fail_def)

lemma andThen_Inr [simp]: "m s = (Inr x, s') \<Longrightarrow> andThen m f s = f x s'"
  by (simp add: andThen_def)

lemma andThen_Inl [simp]: "m s = (Inl e, s') \<Longrightarrow> andThen m f s = (Inl e, s')"
  by (simp add: andThen_def)

lemma wrapErr_Inr [simp]: "m s = (Inr x, s') \<Longrightarrow> wrapErr msg m s = (Inr x, s')"
  by (simp add: wrapErr_def)

lemma wrapErr_Inl [simp]: "m s = (Inl e, s') \<Longrightarrow> wrapErr msg m s = (Inl (Errorf msg [e]), s')"
  by (simp add: wrapErr_def)

lemma catchErr_Inr [simp]: "m s = (Inr x, s') \<Longrightarrow> catchErr m h f s = f x s'"
  by (simp add: catchErr_def)

lemma catchErr_Inl [simp]: "m s = (Inl e, s') \<Longrightarrow> catchErr m h f s = h e s'"
  by (simp add: catchErr_def)

text \<open>A call that succeeded went through each of its parts.\<close>

lemma andThen_InrE:
  assumes "andThen m f s = (Inr y, t)"
  obtains x s' where "m s = (Inr x, s')" and "f x s' = (Inr y, t)"
  using assms by (auto simp: andThen_def split: prod.splits sum.splits)

lemma wrapErr_InrE:
  assumes "wrapErr msg m s = (Inr y, t)"
  shows "m s = (Inr y, t)"
  using assms by (auto simp: wrapErr_def split: prod.splits sum.splits)

section \<open>Weakest preconditions\<close>

text \<open>\<open>wp m E Q s\<close>: run in \<open>s\<close>, the call \<open>m\<close> ends with an error and a state in \<open>E\<close>, or with a
  result and a state in \<open>Q\<close>. The equations in \<open>wp_simps\<close> push it through the sequencing.\<close>

named_theorems wp_simps "weakest preconditions of the sequencing of calls"

definition wp :: "('s, 'a) act \<Rightarrow> (goerr \<Rightarrow> 's \<Rightarrow> bool) \<Rightarrow> ('a \<Rightarrow> 's \<Rightarrow> bool) \<Rightarrow> 's \<Rightarrow> bool" where
  "wp m E Q s = (case m s of (Inl e, s') \<Rightarrow> E e s' | (Inr x, s') \<Rightarrow> Q x s')"

lemma wp_ret [wp_simps]: "wp (ret x) E Q = Q x"
  by (simp add: wp_def fun_eq_iff)

lemma wp_fail [wp_simps]: "wp (fail e) E Q = E e"
  by (simp add: wp_def fun_eq_iff)

lemma wp_andThen [wp_simps]: "wp (andThen m f) E Q = wp m E (\<lambda>x. wp (f x) E Q)"
  by (simp add: fun_eq_iff wp_def andThen_def split: prod.splits sum.splits)

lemma wp_wrapErr [wp_simps]: "wp (wrapErr msg m) E Q = wp m (\<lambda>e. E (Errorf msg [e])) Q"
  by (simp add: fun_eq_iff wp_def wrapErr_def split: prod.splits sum.splits)

lemma wp_catchErr [wp_simps]: "wp (catchErr m h f) E Q = wp m (\<lambda>e. wp (h e) E Q) (\<lambda>x. wp (f x) E Q)"
  by (simp add: fun_eq_iff wp_def catchErr_def split: prod.splits sum.splits)

lemma wp_if [wp_simps]: "wp (if b then m else n) E Q s = (if b then wp m E Q s else wp n E Q s)"
  by simp

lemma wp_case_option [wp_simps]:
  "wp (case x of None \<Rightarrow> m | Some y \<Rightarrow> f y) E Q s = (case x of None \<Rightarrow> wp m E Q s | Some y \<Rightarrow> wp (f y) E Q s)"
  by (cases x) simp_all

lemma wp_case_sum [wp_simps]:
  "wp (case x of Inl y \<Rightarrow> f y | Inr z \<Rightarrow> g z) E Q s = (case x of Inl y \<Rightarrow> wp (f y) E Q s | Inr z \<Rightarrow> wp (g z) E Q s)"
  by (cases x) simp_all

lemma wp_case_prod [wp_simps]: "wp (case p of (x, y) \<Rightarrow> f x y) E Q s = (case p of (x, y) \<Rightarrow> wp (f x y) E Q s)"
  by (cases p) simp

lemma wpI:
  "(\<And>e s'. m s = (Inl e, s') \<Longrightarrow> E e s') \<Longrightarrow> (\<And>x s'. m s = (Inr x, s') \<Longrightarrow> Q x s') \<Longrightarrow> wp m E Q s"
  by (simp add: wp_def split: prod.splits sum.splits)

lemma wp_Inr: "wp m E Q s \<Longrightarrow> m s = (Inr x, s') \<Longrightarrow> Q x s'"
  by (simp add: wp_def)

lemma wp_Inl: "wp m E Q s \<Longrightarrow> m s = (Inl e, s') \<Longrightarrow> E e s'"
  by (simp add: wp_def)

lemma wp_mono:
  "wp m E Q s \<Longrightarrow> (\<And>e s'. E e s' \<Longrightarrow> E' e s') \<Longrightarrow> (\<And>x s'. Q x s' \<Longrightarrow> Q' x s') \<Longrightarrow> wp m E' Q' s"
  by (simp add: wp_def split: prod.splits sum.splits)

section \<open>Decimal printing\<close>

fun show_nat :: "nat \<Rightarrow> string" where
  "show_nat n = (if n < 10 then [char_of (48 + n)] else show_nat (n div 10) @ [char_of (48 + n mod 10)])"

declare show_nat.simps [simp del]

definition show_int :: "int \<Rightarrow> string" where
  "show_int i = (if i < 0 then CHR ''-'' # show_nat (nat (- i)) else show_nat (nat i))"

definition show_int32 :: "int32 \<Rightarrow> string" where
  "show_int32 x = show_int (sint x)"

text \<open>\<open>%t\<close> is not used by the sources; \<open>%q\<close> surrounds a string by quotes (the names the
  sources print with it hold no character that needs an escape).\<close>

definition show_quoted :: "string \<Rightarrow> string" where
  "show_quoted s = CHR 0x22 # s @ [CHR 0x22]"

definition digit_value :: "char \<Rightarrow> nat" where
  "digit_value c = of_char c - 48"

definition is_digit :: "char \<Rightarrow> bool" where
  "is_digit c \<longleftrightarrow> 48 \<le> (of_char c :: nat) \<and> (of_char c :: nat) \<le> 57"

definition read_nat :: "string \<Rightarrow> nat" where
  "read_nat s = foldl (\<lambda>n c. 10 * n + digit_value c) 0 s"

lemma show_nat_small [simp]: "n < 10 \<Longrightarrow> show_nat n = [char_of (48 + n)]"
  by (simp add: show_nat.simps)

lemma show_nat_step: "\<not> n < 10 \<Longrightarrow> show_nat n = show_nat (n div 10) @ [char_of (48 + n mod 10)]"
  by (simp add: show_nat.simps)

lemma show_nat_nonempty [simp]: "show_nat n \<noteq> []"
  by (cases "n < 10") (simp_all add: show_nat_step [of n])

lemma digit_value_char_of [simp]: "d < 10 \<Longrightarrow> digit_value (char_of (48 + d)) = d"
  by (simp add: digit_value_def of_char_of)

lemma is_digit_char_of [simp]: "(d :: nat) < 10 \<Longrightarrow> is_digit (char_of (48 + d))"
  by (simp add: is_digit_def of_char_of)

lemma show_nat_digits: "\<forall>c \<in> set (show_nat n). is_digit c"
proof (induction n rule: show_nat.induct)
  case (1 n)
  then show ?case
    by (cases "n < 10") (auto simp: show_nat_step [of n])
qed

lemma read_nat_snoc: "read_nat (s @ [c]) = 10 * read_nat s + digit_value c"
  by (simp add: read_nat_def)

lemma read_show_nat [simp]: "read_nat (show_nat n) = n"
proof (induction n rule: show_nat.induct)
  case (1 n)
  show ?case
  proof (cases "n < 10")
    case True
    then show ?thesis by (simp add: read_nat_def)
  next
    case False
    with 1 show ?thesis by (simp add: show_nat_step [of n] read_nat_snoc)
  qed
qed

lemma show_nat_inject [simp]: "show_nat m = show_nat n \<longleftrightarrow> m = n"
  by (metis read_show_nat)

text \<open>Printing without unary numbers, for evaluation.\<close>

function show_pos :: "int \<Rightarrow> string" where
  "show_pos i = (if i < 10 then [char_of (48 + i)] else show_pos (i div 10) @ [char_of (48 + i mod 10)])"
  by pat_completeness auto
termination
  by (relation "measure nat") auto

declare show_pos.simps [simp del]

lemma char_of_int: "0 \<le> i \<Longrightarrow> char_of (i :: int) = char_of (nat i)"
  by (metis char_of_nat nat_0_le)

lemma show_pos_nat: "0 \<le> i \<Longrightarrow> show_pos i = show_nat (nat i)"
proof (induction i rule: show_pos.induct)
  case (1 i)
  then show ?case
    by (cases "i < 10")
      (simp_all add: show_pos.simps [of i] show_nat.simps [of "nat i"] char_of_int nat_add_distrib nat_div_distrib nat_mod_distrib)
qed

lemma show_int_code [code]:
  "show_int i = (if i < 0 then CHR ''-'' # show_pos (- i) else show_pos i)"
  by (simp add: show_int_def show_pos_nat)

text \<open>\<open>Duration.String\<close>: hours, minutes and seconds with a fraction, or one smaller unit.\<close>

definition strip_zeros :: "string \<Rightarrow> string" where
  "strip_zeros s = rev (dropWhile (\<lambda>c. c = CHR ''0'') (rev s))"

definition show_frac :: "int \<Rightarrow> nat \<Rightarrow> string" where
  "show_frac u prec =
    (let f = strip_zeros (tl (show_int (10 ^ prec + u mod 10 ^ prec)))
     in if f = [] then [] else CHR ''.'' # f)"

definition show_duration :: "duration \<Rightarrow> string" where
  "show_duration d =
    (let u = \<bar>d\<bar>; secs = u div Second; mins = secs div 60; hours = mins div 60
     in if u = 0 then ''0s''
        else (if d < 0 then ''-'' else []) @
          (if u < 1000 then show_int u @ ''ns''
           else if u < Millisecond then show_int (u div 1000) @ show_frac u 3 @ [CHR 0xC2, CHR 0xB5, CHR ''s'']
           else if u < Second then show_int (u div Millisecond) @ show_frac u 6 @ ''ms''
           else (if 0 < hours then show_int hours @ ''h'' else []) @
                (if 0 < mins then show_int (mins mod 60) @ ''m'' else []) @
                show_int (secs mod 60) @ show_frac u 9 @ ''s''))"

section \<open>Association lists as Go maps\<close>

lemma delete_eq_filter: "AList.delete k m = filter (\<lambda>(k', v). k' \<noteq> k) m"
  unfolding AList.delete_eq by (rule filter_cong) auto

lemma map_of_filter_keys:
  "distinct (map fst m) \<Longrightarrow>
   map_of (filter (\<lambda>(k, v). P k v) m) k =
     (case map_of m k of None \<Rightarrow> None | Some v \<Rightarrow> if P k v then Some v else None)"
proof (induction m)
  case Nil
  then show ?case by simp
next
  case (Cons kv m)
  obtain k' v' where kv: "kv = (k', v')" by (cases kv)
  have "k = k' \<Longrightarrow> map_of m k = None"
    using Cons.prems kv by (auto simp: map_of_eq_None_iff)
  with Cons kv show ?case by auto
qed

lemma distinct_filter_keys: "distinct (map fst m) \<Longrightarrow> distinct (map fst (filter P m))"
  by (induction m) auto

text \<open>The sum over a Go map of an integer reading of its entries.\<close>

definition map_sum :: "('k \<Rightarrow> 'v \<Rightarrow> int) \<Rightarrow> ('k \<times> 'v) list \<Rightarrow> int" where
  "map_sum f m = sum_list (map (\<lambda>(k, v). f k v) m)"

lemma map_sum_Nil [simp]: "map_sum f [] = 0"
  by (simp add: map_sum_def)

lemma map_sum_Cons [simp]: "map_sum f ((k, v) # m) = f k v + map_sum f m"
  by (simp add: map_sum_def)

lemma map_sum_nonneg: "(\<And>k v. (k, v) \<in> set m \<Longrightarrow> 0 \<le> f k v) \<Longrightarrow> 0 \<le> map_sum f m"
  unfolding map_sum_def by (rule sum_list_nonneg) auto

lemma map_sum_cong:
  "(\<And>k v. (k, v) \<in> set m \<Longrightarrow> f k v = g k v) \<Longrightarrow> map_sum f m = map_sum g m"
  unfolding map_sum_def by (rule arg_cong [where f = sum_list]) auto

lemma map_sum_update:
  "distinct (map fst m) \<Longrightarrow>
   map_sum f (AList.update k v m) = map_sum (\<lambda>k' v'. if k' = k then 0 else f k' v') m + f k v"
proof (induction m)
  case Nil
  then show ?case by simp
next
  case (Cons kv m)
  obtain k' v' where kv: "kv = (k', v')" by (cases kv)
  have "k' = k \<Longrightarrow> map_sum (\<lambda>k' v'. if k' = k then 0 else f k' v') m = map_sum f m"
    using Cons.prems kv by (intro map_sum_cong) force
  with Cons kv show ?case by simp
qed

lemma map_sum_filter:
  "map_sum f (filter (\<lambda>(k, v). P k v) m) = map_sum (\<lambda>k v. if P k v then f k v else 0) m"
  by (induction m) auto

lemma map_sum_mono:
  "(\<And>k v. (k, v) \<in> set m \<Longrightarrow> f k v \<le> g k v) \<Longrightarrow> map_sum f m \<le> map_sum g m"
  unfolding map_sum_def by (rule sum_list_mono) auto

end
