(* ===== verification/Api_Types.thy ===== *)
theory Api_Types
  imports Prelude
begin

text \<open>
  The custom resources of \<^verbatim>\<open>api/v1alpha1\<close>: the structs of \<^verbatim>\<open>agentdeployment_types.go\<close> and
  \<^verbatim>\<open>tenantquota_types.go\<close> as records, field by field. A field is named after the
  source's field, prefixed by a tag of its struct (\<open>spec_Image\<close> is \<open>AgentDeploymentSpec.Image\<close>).
  A pointer field is an option; a Go map is an association list; a nil slice and an empty
  slice are both the empty list, which no code of the sources tells apart.
  \<open>Quantity\<close> (of apimachinery) is the text of a resource quantity; \<open>EnvVar\<close> and \<open>Args\<close> are
  passed through.
\<close>

section \<open>Object metadata and status conditions\<close>

type_synonym labels = "(string \<times> string) list"

record NamespacedName =
  nn_Namespace :: string
  nn_Name :: string

record ObjectMeta =
  om_Name :: string
  om_Namespace :: string
  om_Labels :: labels
  om_ResourceVersion :: string
  om_Generation :: int
  om_DeletionTimestamp :: "time option"
  om_Finalizers :: "string list"
  om_OwnerReferences :: "string list"

datatype ConditionStatus = ConditionTrue | ConditionFalse | ConditionUnknown

record Condition =
  cond_Type :: string
  cond_Status :: ConditionStatus
  cond_Reason :: string
  cond_Message :: string
  cond_ObservedGeneration :: int

section \<open>AgentDeployment\<close>

type_synonym Quantity = string

record ResourceRequirements =
  res_Requests :: "(string \<times> Quantity) list"
  res_Limits :: "(string \<times> Quantity) list"

type_synonym EnvVar = "string \<times> string"

record ScalingPolicy =
  sp_Min :: int32
  sp_Max :: int32
  sp_Metric :: string
  sp_Target :: int32

record CanaryStep =
  cs_SetWeight :: "int32 option"
  cs_Pause :: "duration option"

record RollbackPolicy =
  rb_MaxErrorRate :: string
  rb_MaxP99LatencyMs :: int32
  rb_MinRequestSample :: int32

record RolloutPolicy =
  ro_Strategy :: string
  ro_Steps :: "CanaryStep list"
  ro_Rollback :: RollbackPolicy
  ro_Abort :: bool

record MCPConfig =
  mcp_Expose :: bool
  mcp_Tools :: "string list"

record AgentDeploymentSpec =
  spec_Image :: string
  spec_Port :: int32
  spec_TenantRef :: string
  spec_Replicas :: ScalingPolicy
  spec_Rollout :: RolloutPolicy
  spec_MCP :: MCPConfig
  spec_Resources :: ResourceRequirements
  spec_Env :: "EnvVar list"
  spec_Args :: "string list"

text \<open>The phases; \<open>PhaseUnset\<close> is the empty string of a status never written.\<close>

datatype Phase =
    PhaseUnset
  | PhasePending
  | PhaseRunning
  | PhaseRolloutInProgress
  | PhaseRolloutFailed
  | PhaseDegraded

record AgentDeploymentStatus =
  status_Phase :: Phase
  status_CurrentReplicas :: int32
  status_StableVersion :: string
  status_CanaryVersion :: string
  status_CanaryWeight :: int32
  status_CanaryStepIndex :: int
  status_PauseStartedAt :: "time option"
  status_PromUnreachableSince :: "time option"
  status_Registered :: bool
  status_Conditions :: "Condition list"

record AgentDeployment =
  ad_Meta :: ObjectMeta
  ad_Spec :: AgentDeploymentSpec
  ad_Status :: AgentDeploymentStatus

abbreviation ConditionReady :: string where
  "ConditionReady \<equiv> ''Ready''"

abbreviation ConditionReconciled :: string where
  "ConditionReconciled \<equiv> ''Reconciled''"

abbreviation ConditionImagePullFailed :: string where
  "ConditionImagePullFailed \<equiv> ''ImagePullFailed''"

abbreviation ConditionQuotaLimited :: string where
  "ConditionQuotaLimited \<equiv> ''QuotaLimited''"

abbreviation ConditionMCPHandshakeFailed :: string where
  "ConditionMCPHandshakeFailed \<equiv> ''MCPHandshakeFailed''"

abbreviation ConditionSampleInsufficient :: string where
  "ConditionSampleInsufficient \<equiv> ''SampleInsufficient''"

abbreviation AgentDeploymentFinalizer :: string where
  "AgentDeploymentFinalizer \<equiv> ''agentrax.io/mcp-deregister''"

abbreviation ad_Name :: "AgentDeployment \<Rightarrow> string" where
  "ad_Name ad \<equiv> om_Name (ad_Meta ad)"

abbreviation ad_Namespace :: "AgentDeployment \<Rightarrow> string" where
  "ad_Namespace ad \<equiv> om_Namespace (ad_Meta ad)"

abbreviation ad_Key :: "AgentDeployment \<Rightarrow> NamespacedName" where
  "ad_Key ad \<equiv> \<lparr>nn_Namespace = om_Namespace (ad_Meta ad), nn_Name = om_Name (ad_Meta ad)\<rparr>"

section \<open>TenantQuota\<close>

record TenantQuotaSpec =
  tq_MaxAgents :: int32
  tq_MaxGPUs :: int32
  tq_MaxTotalReplicas :: int32
  tq_MaxReplicasPerAgent :: int32

record TenantQuotaStatus =
  tq_UsedAgents :: int32
  tq_UsedGPUs :: int32
  tq_UsedTotalReplicas :: int32
  tq_Conditions :: "Condition list"

record TenantQuota =
  tq_Meta :: ObjectMeta
  tq_Spec :: TenantQuotaSpec
  tq_Status :: TenantQuotaStatus

abbreviation ConditionOverQuota :: string where
  "ConditionOverQuota \<equiv> ''OverQuota''"

section \<open>Zero values\<close>

text \<open>The zero values Go gives to a variable that is declared and not assigned.\<close>

definition zero_ObjectMeta :: ObjectMeta where
  "zero_ObjectMeta = \<lparr>om_Name = [], om_Namespace = [], om_Labels = [], om_ResourceVersion = [],
     om_Generation = 0, om_DeletionTimestamp = None, om_Finalizers = [], om_OwnerReferences = []\<rparr>"

definition zero_TenantQuotaStatus :: TenantQuotaStatus where
  "zero_TenantQuotaStatus = \<lparr>tq_UsedAgents = 0, tq_UsedGPUs = 0, tq_UsedTotalReplicas = 0, tq_Conditions = []\<rparr>"

definition zero_AgentDeploymentSpec :: AgentDeploymentSpec where
  "zero_AgentDeploymentSpec =
    \<lparr>spec_Image = [], spec_Port = 0, spec_TenantRef = [],
     spec_Replicas = \<lparr>sp_Min = 0, sp_Max = 0, sp_Metric = [], sp_Target = 0\<rparr>,
     spec_Rollout = \<lparr>ro_Strategy = [], ro_Steps = [],
       ro_Rollback = \<lparr>rb_MaxErrorRate = [], rb_MaxP99LatencyMs = 0, rb_MinRequestSample = 0\<rparr>, ro_Abort = False\<rparr>,
     spec_MCP = \<lparr>mcp_Expose = False, mcp_Tools = []\<rparr>,
     spec_Resources = \<lparr>res_Requests = [], res_Limits = []\<rparr>, spec_Env = [], spec_Args = []\<rparr>"

definition zero_AgentDeploymentStatus :: AgentDeploymentStatus where
  "zero_AgentDeploymentStatus =
    \<lparr>status_Phase = PhaseUnset, status_CurrentReplicas = 0, status_StableVersion = [],
     status_CanaryVersion = [], status_CanaryWeight = 0, status_CanaryStepIndex = 0,
     status_PauseStartedAt = None, status_PromUnreachableSince = None,
     status_Registered = False, status_Conditions = []\<rparr>"

section \<open>Sample objects\<close>

text \<open>Concrete objects on which the theorems of the development are evaluated. \<open>sample_value\<close>
  reads a quantity written as a plain decimal number.\<close>

definition sample_spec :: "string \<Rightarrow> string \<Rightarrow> int32 \<Rightarrow> AgentDeploymentSpec" where
  "sample_spec tenant gpus maxReplicas = zero_AgentDeploymentSpec\<lparr>spec_Image := ''img:v1'', spec_TenantRef := tenant,
     spec_Replicas := \<lparr>sp_Min = 1, sp_Max = maxReplicas, sp_Metric = ''queueDepth'', sp_Target = 10\<rparr>,
     spec_Resources := \<lparr>res_Requests = [], res_Limits = [(''nvidia.com/gpu'', gpus)]\<rparr>\<rparr>"

definition sample_quota :: "int32 \<Rightarrow> int32 \<Rightarrow> int32 \<Rightarrow> TenantQuotaSpec" where
  "sample_quota agents gpus replicas = \<lparr>tq_MaxAgents = agents, tq_MaxGPUs = gpus,
     tq_MaxTotalReplicas = replicas, tq_MaxReplicasPerAgent = 10\<rparr>"

definition sample_usage :: "int32 \<Rightarrow> int32 \<Rightarrow> int32 \<Rightarrow> TenantQuotaStatus" where
  "sample_usage agents gpus replicas = \<lparr>tq_UsedAgents = agents, tq_UsedGPUs = gpus,
     tq_UsedTotalReplicas = replicas, tq_Conditions = []\<rparr>"

definition sample_value :: "Quantity \<Rightarrow> int64" where
  "sample_value s = word_of_int (foldl (\<lambda>n c. 10 * n + (of_char c - 48)) 0 s)"

end
