(* ===== verification/Json.thy ===== *)
theory Json
  imports Prelude
begin

text \<open>
  The values of \<^verbatim>\<open>encoding/json\<close> as the program uses them. A text is represented by the value
  it denotes (\<open>JText\<close>), or is empty, or is no JSON at all; \<open>JTime\<close> is the string that holds
  an instant in RFC 3339 form, \<open>JNum\<close> an integer literal and \<open>JFloat\<close> a literal that is no
  integer. The fields of a struct are matched the way the decoder matches them: without regard
  to case, a later field overwriting an earlier one, unknown fields ignored.
\<close>

datatype json =
    JNull
  | JBool bool
  | JNum int
  | JFloat string
  | JStr string
  | JTime time
  | JArr "json list"
  | JObj "(string \<times> json) list"

datatype jtext = JEmpty | JMalformed | JText json

definition fold_case :: "string \<Rightarrow> string" where
  "fold_case s = map (\<lambda>c. if 65 \<le> (of_char c :: nat) \<and> (of_char c :: nat) \<le> 90
                          then char_of ((of_char c :: nat) + 32) else c) s"

text \<open>What a function that cannot fail does to a result.\<close>

definition mapRight :: "('a \<Rightarrow> 'b) \<Rightarrow> 'e + 'a \<Rightarrow> 'e + 'b" where
  "mapRight f r = (case r of Inl e \<Rightarrow> Inl e | Inr x \<Rightarrow> Inr (f x))"

definition typeError :: "string \<Rightarrow> goerr" where
  "typeError what = ErrNew (''json: cannot unmarshal into Go value of type '' @ what)"

text \<open>Decoding into a variable of a basic type; \<open>null\<close> leaves the variable as it is.\<close>

fun decodeString :: "string \<Rightarrow> json \<Rightarrow> goerr + string" where
  "decodeString old JNull = Inr old"
| "decodeString old (JStr s) = Inr s"
| "decodeString old v = Inl (typeError ''string'')"

fun decodeTime :: "time \<Rightarrow> json \<Rightarrow> goerr + time" where
  "decodeTime old JNull = Inr old"
| "decodeTime old (JTime t) = Inr t"
| "decodeTime old v = Inl (typeError ''time.Time'')"

fun decodeInt64 :: "int \<Rightarrow> json \<Rightarrow> goerr + int" where
  "decodeInt64 old JNull = Inr old"
| "decodeInt64 old (JNum n) = (if - (2 ^ 63) \<le> n \<and> n < 2 ^ 63 then Inr n else Inl (typeError ''int64''))"
| "decodeInt64 old v = Inl (typeError ''int64'')"

text \<open>Decoding every element of an array, up to the first that fails.\<close>

fun traverse :: "('a \<Rightarrow> goerr + 'b) \<Rightarrow> 'a list \<Rightarrow> goerr + 'b list" where
  "traverse f [] = Inr []"
| "traverse f (x # xs) =
    (case f x of Inl e \<Rightarrow> Inl e | Inr y \<Rightarrow>
      (case traverse f xs of Inl e \<Rightarrow> Inl e | Inr ys \<Rightarrow> Inr (y # ys)))"

fun decodeStrings :: "string list \<Rightarrow> json \<Rightarrow> goerr + string list" where
  "decodeStrings old JNull = Inr []"
| "decodeStrings old (JArr vs) = traverse (decodeString []) vs"
| "decodeStrings old v = Inl (typeError ''[]string'')"

text \<open>Decoding an object into a struct: \<open>setField\<close> assigns the field a name stands for.\<close>

fun decodeFields :: "(string \<Rightarrow> json \<Rightarrow> 'a \<Rightarrow> goerr + 'a) \<Rightarrow> (string \<times> json) list \<Rightarrow> 'a \<Rightarrow> goerr + 'a" where
  "decodeFields setField [] x = Inr x"
| "decodeFields setField ((k, v) # kvs) x =
    (case setField (fold_case k) v x of Inl e \<Rightarrow> Inl e | Inr x' \<Rightarrow> decodeFields setField kvs x')"

fun decodeStruct :: "string \<Rightarrow> (string \<Rightarrow> json \<Rightarrow> 'a \<Rightarrow> goerr + 'a) \<Rightarrow> json \<Rightarrow> 'a \<Rightarrow> goerr + 'a" where
  "decodeStruct ty setField JNull x = Inr x"
| "decodeStruct ty setField (JObj kvs) x = decodeFields setField kvs x"
| "decodeStruct ty setField v x = Inl (typeError ty)"

lemma mapRight_simps [simp]: "mapRight f (Inl e) = Inl e" "mapRight f (Inr x) = Inr (f x)"
  by (simp_all add: mapRight_def)

lemma mapRight_eq_Inr: "mapRight f r = Inr y \<longleftrightarrow> (\<exists>x. r = Inr x \<and> y = f x)"
  by (cases r) auto

lemma traverse_map: "(\<And>x. x \<in> set xs \<Longrightarrow> f (g x) = Inr (h x)) \<Longrightarrow> traverse f (map g xs) = Inr (map h xs)"
  by (induction xs) auto

end
