(* ===== verification/Kube.thy ===== *)
theory Kube
  imports Api_Types Json
begin

text \<open>
  The Kubernetes side of the operator: the objects the controllers build and read (the fields
  of \<open>Deployment\<close>, \<open>Service\<close>, \<open>HorizontalPodAutoscaler\<close>, \<open>HTTPRoute\<close>, \<open>ServiceMonitor\<close>,
  \<open>Pod\<close> and \<open>ConfigMap\<close> that the sources touch), and the interface of the libraries they call.

  client-go, controller-runtime and apimachinery are not part of the sources. What the sources
  call of them is one record of functions, \<open>kube\<close>, over a state \<open>'s\<close> that is left abstract
  (the API server, the caches, the clock); every definition that calls them takes that record
  as its argument. A call may fail at any moment, and may change \<open>'s\<close>.
\<close>

section \<open>Objects\<close>

record ContainerPort =
  cp_Name :: string
  cp_ContainerPort :: int32
  cp_Protocol :: string

record Container =
  ct_Name :: string
  ct_Image :: string
  ct_Ports :: "ContainerPort list"
  ct_Resources :: ResourceRequirements
  ct_Env :: "EnvVar list"
  ct_Args :: "string list"

record DeploymentStatus =
  dst_ObservedGeneration :: int
  dst_ReadyReplicas :: int32
  dst_UpdatedReplicas :: int32
  dst_AvailableReplicas :: int32

record Deployment =
  dep_Meta :: ObjectMeta
  dep_Replicas :: "int32 option"
  dep_Selector :: labels
  dep_TemplateLabels :: labels
  dep_Containers :: "Container list"
  dep_Status :: DeploymentStatus

record ServicePort =
  svp_Name :: string
  svp_Port :: int32
  svp_TargetPort :: int32
  svp_Protocol :: string

record Service =
  svc_Meta :: ObjectMeta
  svc_Selector :: labels
  svc_Ports :: "ServicePort list"
  svc_Type :: string

record ServiceMonitor =
  sm_Meta :: ObjectMeta
  sm_Selector :: labels
  sm_TargetLabels :: "string list"
  sm_Endpoints :: "(string \<times> string) list"

record CrossVersionObjectReference =
  ref_APIVersion :: string
  ref_Kind :: string
  ref_Name :: string

text \<open>An external metric with an average-value target, in thousandths.\<close>

record MetricSpec =
  ms_Name :: string
  ms_Selector :: labels
  ms_AverageValueMilli :: int64

record HPAScalingRules =
  sr_StabilizationWindowSeconds :: int32
  sr_SelectPolicy :: string
  sr_Policies :: "(string \<times> int32 \<times> int32) list"

record HorizontalPodAutoscaler =
  hpa_Meta :: ObjectMeta
  hpa_ScaleTargetRef :: CrossVersionObjectReference
  hpa_MinReplicas :: int32
  hpa_MaxReplicas :: int32
  hpa_Metrics :: "MetricSpec list"
  hpa_ScaleUp :: HPAScalingRules
  hpa_ScaleDown :: HPAScalingRules

record HTTPBackendRef =
  be_Kind :: string
  be_Group :: string
  be_Name :: string
  be_Port :: int32
  be_Weight :: int32

record HTTPRouteSpec =
  hr_ParentRefs :: "(string \<times> string) list"
  hr_PathType :: string
  hr_PathValue :: string
  hr_BackendRefs :: "HTTPBackendRef list"

record HTTPRoute =
  hr_Meta :: ObjectMeta
  hr_Spec :: HTTPRouteSpec

text \<open>A container status keeps the reason and the message of its waiting state, if any.\<close>

record Pod =
  pod_Name :: string
  pod_Labels :: labels
  pod_ContainerStatuses :: "(string \<times> string) option list"
  pod_InitContainerStatuses :: "(string \<times> string) option list"

text \<open>A ConfigMap, its texts represented by the JSON values they hold.\<close>

record ConfigMap =
  cm_Meta :: ObjectMeta
  cm_Data :: "(string \<times> jtext) list"

section \<open>Zero values\<close>

definition zero_Deployment :: "NamespacedName \<Rightarrow> Deployment" where
  "zero_Deployment k =
    \<lparr>dep_Meta = zero_ObjectMeta\<lparr>om_Name := nn_Name k, om_Namespace := nn_Namespace k\<rparr>,
     dep_Replicas = None, dep_Selector = [], dep_TemplateLabels = [], dep_Containers = [],
     dep_Status = \<lparr>dst_ObservedGeneration = 0, dst_ReadyReplicas = 0, dst_UpdatedReplicas = 0, dst_AvailableReplicas = 0\<rparr>\<rparr>"

definition zero_Service :: "NamespacedName \<Rightarrow> Service" where
  "zero_Service k =
    \<lparr>svc_Meta = zero_ObjectMeta\<lparr>om_Name := nn_Name k, om_Namespace := nn_Namespace k\<rparr>,
     svc_Selector = [], svc_Ports = [], svc_Type = []\<rparr>"

definition zero_ServiceMonitor :: "NamespacedName \<Rightarrow> ServiceMonitor" where
  "zero_ServiceMonitor k =
    \<lparr>sm_Meta = zero_ObjectMeta\<lparr>om_Name := nn_Name k, om_Namespace := nn_Namespace k\<rparr>,
     sm_Selector = [], sm_TargetLabels = [], sm_Endpoints = []\<rparr>"

definition zero_HPA :: "NamespacedName \<Rightarrow> HorizontalPodAutoscaler" where
  "zero_HPA k =
    \<lparr>hpa_Meta = zero_ObjectMeta\<lparr>om_Name := nn_Name k, om_Namespace := nn_Namespace k\<rparr>,
     hpa_ScaleTargetRef = \<lparr>ref_APIVersion = [], ref_Kind = [], ref_Name = []\<rparr>,
     hpa_MinReplicas = 0, hpa_MaxReplicas = 0, hpa_Metrics = [],
     hpa_ScaleUp = \<lparr>sr_StabilizationWindowSeconds = 0, sr_SelectPolicy = [], sr_Policies = []\<rparr>,
     hpa_ScaleDown = \<lparr>sr_StabilizationWindowSeconds = 0, sr_SelectPolicy = [], sr_Policies = []\<rparr>\<rparr>"

section \<open>Label selectors\<close>

text \<open>A \<open>matchLabels\<close> selector selects the objects that carry every label of it.\<close>

definition selects :: "labels \<Rightarrow> labels \<Rightarrow> bool" where
  "selects sel lbl \<longleftrightarrow> (\<forall>(k, v) \<in> set sel. map_of lbl k = Some v)"

lemma selects_Nil [simp]: "selects [] lbl"
  by (simp add: selects_def)

lemma selects_Cons [simp]: "selects ((k, v) # sel) lbl \<longleftrightarrow> map_of lbl k = Some v \<and> selects sel lbl"
  by (auto simp: selects_def)

lemma selects_refl: "distinct (map fst lbl) \<Longrightarrow> selects lbl lbl"
  by (auto simp: selects_def)

section \<open>The libraries\<close>

text \<open>The client operations on the objects of one kind. \<open>r_StatusUpdate\<close> is
  \<open>Status().Update\<close>; a call that writes an object overwrites the caller's copy with the
  server's answer, which is what it returns here. \<open>r_CreateOrUpdate\<close> is
  \<open>controllerutil.CreateOrUpdate\<close>, called with the object's key and the mutating function,
  which sees the object that exists or a zero value of that key.\<close>

record ('s, 'o) resource =
  r_Get :: "NamespacedName \<Rightarrow> ('s, 'o) act"
  r_List :: "string \<Rightarrow> ('s, 'o list) act"
  r_Create :: "'o \<Rightarrow> ('s, 'o) act"
  r_Update :: "'o \<Rightarrow> ('s, 'o) act"
  r_StatusUpdate :: "'o \<Rightarrow> ('s, 'o) act"
  r_Delete :: "'o \<Rightarrow> ('s, unit) act"
  r_CreateOrUpdate :: "NamespacedName \<Rightarrow> ('o \<Rightarrow> goerr + 'o) \<Rightarrow> ('s, 'o) act"

record 's kube =
  k_ad :: "('s, AgentDeployment) resource"
  k_tq :: "('s, TenantQuota) resource"
  k_dep :: "('s, Deployment) resource"
  k_svc :: "('s, Service) resource"
  k_sm :: "('s, ServiceMonitor) resource"
  k_hpa :: "('s, HorizontalPodAutoscaler) resource"
  k_route :: "('s, HTTPRoute) resource"
  k_cm :: "('s, ConfigMap) resource"
  k_ListPods :: "string \<Rightarrow> labels \<Rightarrow> ('s, Pod list) act"
  k_Now :: "('s, time) act"
  k_RetryOnConflict :: "('s, unit) act \<Rightarrow> ('s, unit) act"
  k_SetStatusCondition :: "Condition list \<Rightarrow> Condition \<Rightarrow> Condition list"
  k_RemoveStatusCondition :: "Condition list \<Rightarrow> string \<Rightarrow> Condition list"
  k_FindStatusCondition :: "Condition list \<Rightarrow> string \<Rightarrow> Condition option"
  k_SetControllerReference :: "AgentDeployment \<Rightarrow> ObjectMeta \<Rightarrow> goerr + ObjectMeta"
  k_ContainsFinalizer :: "ObjectMeta \<Rightarrow> string \<Rightarrow> bool"
  k_AddFinalizer :: "ObjectMeta \<Rightarrow> string \<Rightarrow> ObjectMeta"
  k_RemoveFinalizer :: "ObjectMeta \<Rightarrow> string \<Rightarrow> ObjectMeta"
  k_EqualTQStatus :: "TenantQuotaStatus \<Rightarrow> TenantQuotaStatus \<Rightarrow> bool"
  k_EqualADStatus :: "AgentDeploymentStatus \<Rightarrow> AgentDeploymentStatus \<Rightarrow> bool"
  k_EqualRouteSpec :: "HTTPRouteSpec \<Rightarrow> HTTPRouteSpec \<Rightarrow> bool"

text \<open>\<open>SetControllerReference\<close> on an object, through its metadata.\<close>

definition withOwner :: "'s kube \<Rightarrow> string \<Rightarrow> AgentDeployment \<Rightarrow> ('o \<Rightarrow> ObjectMeta) \<Rightarrow>
    ((ObjectMeta \<Rightarrow> ObjectMeta) \<Rightarrow> 'o \<Rightarrow> 'o) \<Rightarrow> 'o \<Rightarrow> goerr + 'o" where
  "withOwner K msg ad meta setMeta obj = (case k_SetControllerReference K ad (meta obj) of
     Inl err \<Rightarrow> Inl (Errorf msg [err])
   | Inr m \<Rightarrow> Inr (setMeta (\<lambda>_. m) obj))"

text \<open>The result of a reconcile: how long until the next one; 0 is \<open>ctrl.Result{}\<close>.\<close>

record Result =
  res_RequeueAfter :: duration

abbreviation NoRequeue :: Result where
  "NoRequeue \<equiv> \<lparr>res_RequeueAfter = 0\<rparr>"

abbreviation RequeueAfter :: "duration \<Rightarrow> Result" where
  "RequeueAfter d \<equiv> \<lparr>res_RequeueAfter = d\<rparr>"

section \<open>What the API server promises\<close>

text \<open>The objects the API server holds, by kind and key.\<close>

record cluster =
  cl_ad :: "NamespacedName \<rightharpoonup> AgentDeployment"
  cl_tq :: "NamespacedName \<rightharpoonup> TenantQuota"
  cl_dep :: "NamespacedName \<rightharpoonup> Deployment"
  cl_svc :: "NamespacedName \<rightharpoonup> Service"
  cl_sm :: "NamespacedName \<rightharpoonup> ServiceMonitor"
  cl_hpa :: "NamespacedName \<rightharpoonup> HorizontalPodAutoscaler"
  cl_route :: "NamespacedName \<rightharpoonup> HTTPRoute"
  cl_cm :: "NamespacedName \<rightharpoonup> ConfigMap"

definition metaKey :: "ObjectMeta \<Rightarrow> NamespacedName" where
  "metaKey m = \<lparr>nn_Namespace = om_Namespace m, nn_Name = om_Name m\<rparr>"

text \<open>An object that is deleted is gone, or marked for deletion while a finalizer holds it.\<close>

definition deleted :: "('o \<Rightarrow> ObjectMeta) \<Rightarrow> 'o option \<Rightarrow> bool" where
  "deleted meta x = (case x of None \<Rightarrow> True | Some obj \<Rightarrow> om_DeletionTimestamp (meta obj) \<noteq> None)"

lemma deleted_simps [simp]:
  "deleted meta None" "deleted meta (Some obj) \<longleftrightarrow> om_DeletionTimestamp (meta obj) \<noteq> None"
  by (simp_all add: deleted_def)

text \<open>What an update leaves in the cluster: the object \<open>obj'\<close> that it returns, or nothing when the
  object \<open>obj\<close> sent was being deleted and holds no finalizer any more.\<close>

definition stored :: "('o \<Rightarrow> ObjectMeta) \<Rightarrow> 'o \<Rightarrow> 'o \<Rightarrow> 'o option \<Rightarrow> bool" where
  "stored meta obj obj' x \<longleftrightarrow> x = Some obj' \<or>
     x = None \<and> om_DeletionTimestamp (meta obj) \<noteq> None \<and> om_Finalizers (meta obj) = []"

text \<open>
  The laws of the operations on one kind. \<open>view\<close> reads the cluster off the state, \<open>sel\<close> and
  \<open>upd\<close> are the kind's part of it; \<open>spec\<close> is what an update of the object keeps of what was
  sent, \<open>stat\<close> what an update of the status subresource keeps. A call that fails leaves the
  objects as they were; a write succeeds with the object as stored, and touches nothing else.
\<close>

locale kube_kind =
  fixes R :: "('s, 'o) resource"
    and view :: "'s \<Rightarrow> 'c"
    and sel :: "'c \<Rightarrow> NamespacedName \<rightharpoonup> 'o"
    and upd :: "((NamespacedName \<rightharpoonup> 'o) \<Rightarrow> (NamespacedName \<rightharpoonup> 'o)) \<Rightarrow> 'c \<Rightarrow> 'c"
    and meta :: "'o \<Rightarrow> ObjectMeta"
    and spec :: "'o \<Rightarrow> 'x"
    and stat :: "'o \<Rightarrow> 'y"
    and zero :: "NamespacedName \<Rightarrow> 'o"
  assumes get_view: "r_Get R k s = (r, s') \<Longrightarrow> view s' = view s"
    and get_found: "r_Get R k s = (Inr obj, s') \<Longrightarrow> sel (view s) k = Some obj \<and> metaKey (meta obj) = k"
    and get_absent: "r_Get R k s = (Inl e, s') \<Longrightarrow> IsNotFound e \<Longrightarrow> sel (view s) k = None"
    and list_view: "r_List R ns s = (rl, s') \<Longrightarrow> view s' = view s"
    and list_found: "r_List R ns s = (Inr objs, s') \<Longrightarrow>
      distinct (map (metaKey \<circ> meta) objs) \<and>
      (\<forall>obj. obj \<in> set objs \<longleftrightarrow> om_Namespace (meta obj) = ns \<and> sel (view s) (metaKey (meta obj)) = Some obj)"
    and create_ok: "r_Create R obj s = (Inr obj', s') \<Longrightarrow>
      sel (view s) (metaKey (meta obj)) = None \<and> metaKey (meta obj') = metaKey (meta obj) \<and> spec obj' = spec obj \<and>
      view s' = upd (\<lambda>m. m(metaKey (meta obj) \<mapsto> obj')) (view s)"
    and create_fails: "r_Create R obj s = (Inl e, s') \<Longrightarrow> view s' = view s"
    and update_ok: "r_Update R obj s = (Inr obj', s') \<Longrightarrow>
      metaKey (meta obj') = metaKey (meta obj) \<and> spec obj' = spec obj \<and>
      (\<exists>old x. sel (view s) (metaKey (meta obj)) = Some old \<and> stat obj' = stat old \<and> stored meta obj obj' x \<and>
        view s' = upd (\<lambda>m. m(metaKey (meta obj) := x)) (view s))"
    and update_fails: "r_Update R obj s = (Inl e, s') \<Longrightarrow> view s' = view s"
    and status_ok: "r_StatusUpdate R obj s = (Inr obj', s') \<Longrightarrow>
      metaKey (meta obj') = metaKey (meta obj) \<and> stat obj' = stat obj \<and>
      (\<exists>old. sel (view s) (metaKey (meta obj)) = Some old \<and> spec obj' = spec old) \<and>
      view s' = upd (\<lambda>m. m(metaKey (meta obj) \<mapsto> obj')) (view s)"
    and status_fails: "r_StatusUpdate R obj s = (Inl e, s') \<Longrightarrow> view s' = view s"
    and delete_ok: "r_Delete R obj s = (Inr u, s') \<Longrightarrow>
      \<exists>x. deleted meta x \<and> view s' = upd (\<lambda>m. m(metaKey (meta obj) := x)) (view s)"
    and delete_fails: "r_Delete R obj s = (Inl e, s') \<Longrightarrow>
      view s' = view s \<and> (IsNotFound e \<longrightarrow> sel (view s) (metaKey (meta obj)) = None)"
    and apply_ok: "r_CreateOrUpdate R k f s = (Inr obj', s') \<Longrightarrow>
      \<exists>obj. f (case sel (view s) k of None \<Rightarrow> zero k | Some old \<Rightarrow> old) = Inr obj \<and>
        metaKey (meta obj') = k \<and> spec obj' = spec obj \<and>
        view s' = upd (\<lambda>m. m(k \<mapsto> obj')) (view s)"
    and apply_fails: "r_CreateOrUpdate R k f s = (Inl e, s') \<Longrightarrow> view s' = view s"
begin

text \<open>The laws as rules for weakest preconditions.\<close>

lemma wp_get:
  assumes "\<And>obj s'. view s' = view s \<Longrightarrow> sel (view s) k = Some obj \<Longrightarrow> metaKey (meta obj) = k \<Longrightarrow> Q obj s'"
    and "\<And>e s'. view s' = view s \<Longrightarrow> (IsNotFound e \<longrightarrow> sel (view s) k = None) \<Longrightarrow> E e s'"
  shows "wp (r_Get R k) E Q s"
  using assms by (intro wpI) (blast dest: get_view get_found get_absent)+

lemma wp_list:
  assumes "\<And>objs s'. view s' = view s \<Longrightarrow> distinct (map (metaKey \<circ> meta) objs) \<Longrightarrow>
      (\<And>obj. obj \<in> set objs \<longleftrightarrow> om_Namespace (meta obj) = ns \<and> sel (view s) (metaKey (meta obj)) = Some obj) \<Longrightarrow> Q objs s'"
    and "\<And>e s'. view s' = view s \<Longrightarrow> E e s'"
  shows "wp (r_List R ns) E Q s"
  using assms by (intro wpI) (blast dest: list_view list_found)+

lemma wp_create:
  assumes "\<And>obj' s'. metaKey (meta obj') = metaKey (meta obj) \<Longrightarrow> spec obj' = spec obj \<Longrightarrow>
      view s' = upd (\<lambda>m. m(metaKey (meta obj) \<mapsto> obj')) (view s) \<Longrightarrow> Q obj' s'"
    and "\<And>e s'. view s' = view s \<Longrightarrow> E e s'"
  shows "wp (r_Create R obj) E Q s"
  using assms by (intro wpI) (blast dest: create_ok create_fails)+

lemma wp_update:
  assumes "\<And>obj' old x s'. metaKey (meta obj') = metaKey (meta obj) \<Longrightarrow> spec obj' = spec obj \<Longrightarrow>
      sel (view s) (metaKey (meta obj)) = Some old \<Longrightarrow> stat obj' = stat old \<Longrightarrow> stored meta obj obj' x \<Longrightarrow>
      view s' = upd (\<lambda>m. m(metaKey (meta obj) := x)) (view s) \<Longrightarrow> Q obj' s'"
    and "\<And>e s'. view s' = view s \<Longrightarrow> E e s'"
  shows "wp (r_Update R obj) E Q s"
  using assms by (intro wpI) (blast dest: update_ok update_fails)+

lemma wp_status:
  assumes "\<And>obj' old s'. metaKey (meta obj') = metaKey (meta obj) \<Longrightarrow> stat obj' = stat obj \<Longrightarrow>
      sel (view s) (metaKey (meta obj)) = Some old \<Longrightarrow> spec obj' = spec old \<Longrightarrow>
      view s' = upd (\<lambda>m. m(metaKey (meta obj) \<mapsto> obj')) (view s) \<Longrightarrow> Q obj' s'"
    and "\<And>e s'. view s' = view s \<Longrightarrow> E e s'"
  shows "wp (r_StatusUpdate R obj) E Q s"
  using assms by (intro wpI) (blast dest: status_ok status_fails)+

lemma wp_delete:
  assumes "\<And>x s'. deleted meta x \<Longrightarrow> view s' = upd (\<lambda>m. m(metaKey (meta obj) := x)) (view s) \<Longrightarrow> Q () s'"
    and "\<And>e s'. view s' = view s \<Longrightarrow> (IsNotFound e \<longrightarrow> sel (view s) (metaKey (meta obj)) = None) \<Longrightarrow> E e s'"
  shows "wp (r_Delete R obj) E Q s"
  using assms by (intro wpI) (auto dest: delete_ok delete_fails)

lemma wp_apply:
  assumes "\<And>obj obj' s'. f (case sel (view s) k of None \<Rightarrow> zero k | Some old \<Rightarrow> old) = Inr obj \<Longrightarrow>
      metaKey (meta obj') = k \<Longrightarrow> spec obj' = spec obj \<Longrightarrow> view s' = upd (\<lambda>m. m(k \<mapsto> obj')) (view s) \<Longrightarrow> Q obj' s'"
    and "\<And>e s'. view s' = view s \<Longrightarrow> E e s'"
  shows "wp (r_CreateOrUpdate R k f) E Q s"
  using assms by (intro wpI) (blast dest: apply_ok apply_fails)+

end

text \<open>What the laws of each kind compare. A \<open>metav1.Time\<close> is stored to the second; the fields
  of a pod template that the server completes are left out.\<close>

definition to_second :: "time \<Rightarrow> time" where
  "to_second t = t div Second * Second"

definition ad_spec :: "AgentDeployment \<Rightarrow> AgentDeploymentSpec \<times> string list" where
  "ad_spec ad = (ad_Spec ad, om_Finalizers (ad_Meta ad))"

definition ad_stat :: "AgentDeployment \<Rightarrow> AgentDeploymentStatus" where
  "ad_stat ad = (ad_Status ad)
     \<lparr>status_PauseStartedAt := map_option to_second (status_PauseStartedAt (ad_Status ad)),
      status_PromUnreachableSince := map_option to_second (status_PromUnreachableSince (ad_Status ad))\<rparr>"

definition dep_spec :: "Deployment \<Rightarrow> labels \<times> int32 option \<times> labels \<times> labels \<times> string list" where
  "dep_spec d = (om_Labels (dep_Meta d), dep_Replicas d, dep_Selector d, dep_TemplateLabels d,
     map ct_Image (dep_Containers d))"

definition svc_spec :: "Service \<Rightarrow> labels \<times> ServicePort list" where
  "svc_spec v = (svc_Selector v, svc_Ports v)"

definition sm_spec :: "ServiceMonitor \<Rightarrow> labels \<times> string list \<times> (string \<times> string) list" where
  "sm_spec m = (sm_Selector m, sm_TargetLabels m, sm_Endpoints m)"

definition hpa_spec :: "HorizontalPodAutoscaler \<Rightarrow>
    CrossVersionObjectReference \<times> int32 \<times> int32 \<times> MetricSpec list \<times> HPAScalingRules \<times> HPAScalingRules" where
  "hpa_spec h = (hpa_ScaleTargetRef h, hpa_MinReplicas h, hpa_MaxReplicas h, hpa_Metrics h, hpa_ScaleUp h, hpa_ScaleDown h)"

definition no_status :: "'o \<Rightarrow> unit" where
  "no_status obj = ()"

definition zero_AgentDeployment :: "NamespacedName \<Rightarrow> AgentDeployment" where
  "zero_AgentDeployment k =
    \<lparr>ad_Meta = zero_ObjectMeta\<lparr>om_Name := nn_Name k, om_Namespace := nn_Namespace k\<rparr>,
     ad_Spec = zero_AgentDeploymentSpec, ad_Status = zero_AgentDeploymentStatus\<rparr>"

definition zero_TenantQuota :: "NamespacedName \<Rightarrow> TenantQuota" where
  "zero_TenantQuota k =
    \<lparr>tq_Meta = zero_ObjectMeta\<lparr>om_Name := nn_Name k, om_Namespace := nn_Namespace k\<rparr>,
     tq_Spec = \<lparr>tq_MaxAgents = 0, tq_MaxGPUs = 0, tq_MaxTotalReplicas = 0, tq_MaxReplicasPerAgent = 0\<rparr>,
     tq_Status = zero_TenantQuotaStatus\<rparr>"

definition zero_HTTPRoute :: "NamespacedName \<Rightarrow> HTTPRoute" where
  "zero_HTTPRoute k =
    \<lparr>hr_Meta = zero_ObjectMeta\<lparr>om_Name := nn_Name k, om_Namespace := nn_Namespace k\<rparr>,
     hr_Spec = \<lparr>hr_ParentRefs = [], hr_PathType = [], hr_PathValue = [], hr_BackendRefs = []\<rparr>\<rparr>"

definition zero_ConfigMap :: "NamespacedName \<Rightarrow> ConfigMap" where
  "zero_ConfigMap k =
    \<lparr>cm_Meta = zero_ObjectMeta\<lparr>om_Name := nn_Name k, om_Namespace := nn_Namespace k\<rparr>, cm_Data = []\<rparr>"

text \<open>The states a function that is retried on conflicts may be called in again.\<close>

inductive retries :: "('s, unit) act \<Rightarrow> 's \<Rightarrow> 's \<Rightarrow> bool" for f s where
  first: "retries f s s"
| again: "retries f s s1 \<Longrightarrow> f s1 = (Inl e, s2) \<Longrightarrow> IsConflict e \<Longrightarrow> retries f s s2"

definition findCondition :: "Condition list \<Rightarrow> string \<Rightarrow> Condition option" where
  "findCondition cs t = find (\<lambda>c. cond_Type c = t) cs"

locale kube_laws =
    ads: kube_kind "k_ad K" view cl_ad cl_ad_update ad_Meta ad_spec ad_stat zero_AgentDeployment +
    tqs: kube_kind "k_tq K" view cl_tq cl_tq_update tq_Meta tq_Spec tq_Status zero_TenantQuota +
    deps: kube_kind "k_dep K" view cl_dep cl_dep_update dep_Meta dep_spec dep_Status zero_Deployment +
    svcs: kube_kind "k_svc K" view cl_svc cl_svc_update svc_Meta svc_spec no_status zero_Service +
    sms: kube_kind "k_sm K" view cl_sm cl_sm_update sm_Meta sm_spec no_status zero_ServiceMonitor +
    hpas: kube_kind "k_hpa K" view cl_hpa cl_hpa_update hpa_Meta hpa_spec no_status zero_HPA +
    routes: kube_kind "k_route K" view cl_route cl_route_update hr_Meta hr_Spec no_status zero_HTTPRoute +
    cms: kube_kind "k_cm K" view cl_cm cl_cm_update cm_Meta cm_Data no_status zero_ConfigMap
    for K :: "'s kube" and view :: "'s \<Rightarrow> cluster" +
  assumes now_view: "k_Now K s = (r, s') \<Longrightarrow> view s' = view s"
    and retry: "k_RetryOnConflict K f s = (ru, s') \<Longrightarrow> \<exists>s0. retries f s s0 \<and> f s0 = (ru, s')"
    and pods_view: "k_ListPods K ns sel s = (rp, s') \<Longrightarrow> view s' = view s"
    and set_owner: "k_SetControllerReference K ad m = Inr m' \<Longrightarrow> \<exists>refs. m' = m\<lparr>om_OwnerReferences := refs\<rparr>"
    and set_condition: "findCondition (k_SetStatusCondition K cs c) t =
      (if t = cond_Type c then Some c else findCondition cs t)"
    and remove_condition: "findCondition (k_RemoveStatusCondition K cs t') t =
      (if t = t' then None else findCondition cs t)"
    and find_condition: "k_FindStatusCondition K cs t = findCondition cs t"
    and contains_finalizer: "k_ContainsFinalizer K m fin \<longleftrightarrow> fin \<in> set (om_Finalizers m)"
    and add_finalizer: "\<exists>fins. k_AddFinalizer K m fin = m\<lparr>om_Finalizers := fins\<rparr> \<and> set fins = insert fin (set (om_Finalizers m))"
    and remove_finalizer: "\<exists>fins. k_RemoveFinalizer K m fin = m\<lparr>om_Finalizers := fins\<rparr> \<and> set fins = set (om_Finalizers m) - {fin}"
    and equal_tq: "k_EqualTQStatus K a b \<longleftrightarrow> a = b"
    and equal_ad: "k_EqualADStatus K a' b' \<longleftrightarrow> a' = b'"
    and equal_route: "k_EqualRouteSpec K p q \<longleftrightarrow> p = q"

end
