(* ===== verification/Scaling.thy ===== *)
theory Scaling
  imports Kube
begin

text \<open>
  \<^verbatim>\<open>internal/scaling/autoscaler.go\<close>: the autoscaler object built for an agent, and the headroom
  its tenant's quota leaves it.
\<close>

section \<open>Operations\<close>

abbreviation MetricGPUUtilization :: string where
  "MetricGPUUtilization \<equiv> ''gpuUtilization''"

definition hpaLabels :: "AgentDeployment \<Rightarrow> labels" where
  "hpaLabels ad =
    [(''app.kubernetes.io/name'', ad_Name ad),
     (''app.kubernetes.io/managed-by'', ''agentrax''),
     (''agentrax.io/tenant'', spec_TenantRef (ad_Spec ad))]"

definition customMetricNameFor :: "string \<Rightarrow> string" where
  "customMetricNameFor metric =
    (if metric = MetricGPUUtilization then ''agentrax_gpu_utilization'' else ''agentrax_queue_depth'')"

definition BuildHPA :: "AgentDeployment \<Rightarrow> int32 \<Rightarrow> HorizontalPodAutoscaler" where
  "BuildHPA ad quotaHeadroom =
    (let replicas = spec_Replicas (ad_Spec ad);
         maxReplicas = (if quotaHeadroom <s sp_Max replicas then quotaHeadroom else sp_Max replicas);
         minReplicas = sp_Min replicas;
         maxReplicas' = (if maxReplicas <s minReplicas then minReplicas else maxReplicas)
     in \<lparr>hpa_Meta = zero_ObjectMeta\<lparr>om_Name := ad_Name ad, om_Namespace := ad_Namespace ad, om_Labels := hpaLabels ad\<rparr>,
         hpa_ScaleTargetRef = \<lparr>ref_APIVersion = ''apps/v1'', ref_Kind = ''Deployment'', ref_Name = ad_Name ad\<rparr>,
         hpa_MinReplicas = minReplicas,
         hpa_MaxReplicas = maxReplicas',
         hpa_Metrics =
           [\<lparr>ms_Name = customMetricNameFor (sp_Metric replicas),
             ms_Selector = [(''app_kubernetes_io_name'', ad_Name ad), (''app_kubernetes_io_managed_by'', ''agentrax'')],
             ms_AverageValueMilli = to_int64 (sp_Target replicas) * 1000\<rparr>],
         hpa_ScaleUp = \<lparr>sr_StabilizationWindowSeconds = 60, sr_SelectPolicy = ''Max'', sr_Policies = [(''Pods'', 4, 60)]\<rparr>,
         hpa_ScaleDown = \<lparr>sr_StabilizationWindowSeconds = 300, sr_SelectPolicy = ''Min'', sr_Policies = [(''Pods'', 1, 60)]\<rparr>\<rparr>)"

definition IsQuotaCapped :: "AgentDeployment \<Rightarrow> int32 \<Rightarrow> bool" where
  "IsQuotaCapped ad quotaHeadroom \<longleftrightarrow> quotaHeadroom <s sp_Max (spec_Replicas (ad_Spec ad))"

definition QuotaHeadroom :: "TenantQuotaSpec \<Rightarrow> AgentDeploymentSpec \<Rightarrow> int32 \<Rightarrow> int32" where
  "QuotaHeadroom tqSpec adSpec usedReplicasByOthers =
    (let perAgentCeiling = tq_MaxReplicasPerAgent tqSpec;
         remaining = tq_MaxTotalReplicas tqSpec - usedReplicasByOthers;
         totalBudgetRemaining = (if remaining <s 0 then 0 else remaining)
     in if totalBudgetRemaining <s perAgentCeiling then totalBudgetRemaining else perAgentCeiling)"

section \<open>What they compute\<close>

lemma BuildHPA_Min [simp]: "hpa_MinReplicas (BuildHPA ad h) = sp_Min (spec_Replicas (ad_Spec ad))"
  by (simp add: BuildHPA_def Let_def)

lemma BuildHPA_Meta [simp]:
  "metaKey (hpa_Meta (BuildHPA ad h)) = ad_Key ad"
  "om_Labels (hpa_Meta (BuildHPA ad h)) = hpaLabels ad"
  by (simp_all add: BuildHPA_def Let_def metaKey_def)

lemma sint_BuildHPA_Max:
  "sint (hpa_MaxReplicas (BuildHPA ad h)) =
   max (sint (sp_Min (spec_Replicas (ad_Spec ad)))) (min (sint (sp_Max (spec_Replicas (ad_Spec ad)))) (sint h))"
  by (simp add: BuildHPA_def Let_def int32_simps)

lemma sint_QuotaHeadroom:
  assumes "0 \<le> sint (tq_MaxTotalReplicas q)" and "0 \<le> sint used"
  shows "sint (QuotaHeadroom q spec used) =
    min (sint (tq_MaxReplicasPerAgent q)) (max 0 (sint (tq_MaxTotalReplicas q) - sint used))"
proof -
  have "sint (tq_MaxTotalReplicas q - used) = sint (tq_MaxTotalReplicas q) - sint used"
    using assms sint32_bounds [of "tq_MaxTotalReplicas q"] sint32_bounds [of used] by (intro sint32_sub) simp_all
  then show ?thesis
    by (auto simp: QuotaHeadroom_def Let_def int32_simps)
qed

end
