(* ===== verification/Kube_Store.thy ===== *)
theory Kube_Store
  imports Kube
begin

text \<open>
  A store that keeps the promises of \<open>Kube\<close>: the API server as lists of objects, with
  optimistic concurrency by resource version, finalizers, times stored to the second, and
  calls that may fail. It shows that the laws of \<open>kube_laws\<close> are consistent, and is what the
  theorems about the controllers are evaluated on.
\<close>

section \<open>Collections of objects\<close>

definition lookup :: "('o \<Rightarrow> ObjectMeta) \<Rightarrow> NamespacedName \<Rightarrow> 'o list \<Rightarrow> 'o option" where
  "lookup meta k objs = find (\<lambda>obj. metaKey (meta obj) = k) objs"

definition remove :: "('o \<Rightarrow> ObjectMeta) \<Rightarrow> NamespacedName \<Rightarrow> 'o list \<Rightarrow> 'o list" where
  "remove meta k objs = filter (\<lambda>obj. metaKey (meta obj) \<noteq> k) objs"

definition store :: "('o \<Rightarrow> ObjectMeta) \<Rightarrow> 'o \<Rightarrow> 'o list \<Rightarrow> 'o list" where
  "store meta obj objs = obj # remove meta (metaKey (meta obj)) objs"

fun firsts :: "('o \<Rightarrow> ObjectMeta) \<Rightarrow> 'o list \<Rightarrow> 'o list" where
  "firsts meta [] = []"
| "firsts meta (obj # objs) = obj # remove meta (metaKey (meta obj)) (firsts meta objs)"

definition listed :: "('o \<Rightarrow> ObjectMeta) \<Rightarrow> string \<Rightarrow> 'o list \<Rightarrow> 'o list" where
  "listed meta ns objs = filter (\<lambda>obj. om_Namespace (meta obj) = ns) (firsts meta objs)"

lemma lookup_Nil [simp]: "lookup meta k [] = None"
  by (simp add: lookup_def)

lemma lookup_Cons [simp]:
  "lookup meta k (obj # objs) = (if metaKey (meta obj) = k then Some obj else lookup meta k objs)"
  by (simp add: lookup_def)

lemma lookup_key: "lookup meta k objs = Some obj \<Longrightarrow> metaKey (meta obj) = k"
  by (induction objs) (auto split: if_splits)

lemma lookup_remove [simp]: "lookup meta k (remove meta k' objs) = (if k = k' then None else lookup meta k objs)"
  by (induction objs) (auto simp: remove_def)

lemma lookup_store [simp]:
  "lookup meta k (store meta obj objs) = (if k = metaKey (meta obj) then Some obj else lookup meta k objs)"
  by (simp add: store_def)

lemma firsts_distinct: "distinct (map (metaKey \<circ> meta) (firsts meta objs))"
  by (induction objs) (auto simp: remove_def distinct_map_filter)

lemma in_firsts: "obj \<in> set (firsts meta objs) \<longleftrightarrow> lookup meta (metaKey (meta obj)) objs = Some obj"
  by (induction objs) (auto simp: remove_def)

lemma listed_distinct: "distinct (map (metaKey \<circ> meta) (listed meta ns objs))"
  by (simp add: listed_def firsts_distinct distinct_map_filter)

lemma in_listed:
  "obj \<in> set (listed meta ns objs) \<longleftrightarrow>
   om_Namespace (meta obj) = ns \<and> lookup meta (metaKey (meta obj)) objs = Some obj"
  by (auto simp: listed_def in_firsts)

section \<open>The state and the calls\<close>

text \<open>Each call consumes the head of \<open>m_faults\<close>, and fails when it is \<open>True\<close>.\<close>

record mem =
  m_ad :: "AgentDeployment list"
  m_tq :: "TenantQuota list"
  m_dep :: "Deployment list"
  m_svc :: "Service list"
  m_sm :: "ServiceMonitor list"
  m_hpa :: "HorizontalPodAutoscaler list"
  m_route :: "HTTPRoute list"
  m_cm :: "ConfigMap list"
  m_pods :: "(string \<times> Pod) list"
  m_clock :: time
  m_faults :: "bool list"

definition mem_view :: "mem \<Rightarrow> cluster" where
  "mem_view m =
    \<lparr>cl_ad = \<lambda>k. lookup ad_Meta k (m_ad m), cl_tq = \<lambda>k. lookup tq_Meta k (m_tq m),
     cl_dep = \<lambda>k. lookup dep_Meta k (m_dep m), cl_svc = \<lambda>k. lookup svc_Meta k (m_svc m),
     cl_sm = \<lambda>k. lookup sm_Meta k (m_sm m), cl_hpa = \<lambda>k. lookup hpa_Meta k (m_hpa m),
     cl_route = \<lambda>k. lookup hr_Meta k (m_route m), cl_cm = \<lambda>k. lookup cm_Meta k (m_cm m)\<rparr>"

definition mem_call :: "(mem, 'a) act \<Rightarrow> (mem, 'a) act" where
  "mem_call f m = (case m_faults m of
     [] \<Rightarrow> f m
   | b # bs \<Rightarrow> if b then (Inl (APIStatus OtherReason ''unavailable''), m\<lparr>m_faults := bs\<rparr>) else f (m\<lparr>m_faults := bs\<rparr>))"

lemma mem_view_faults [simp]: "mem_view (m\<lparr>m_faults := bs\<rparr>) = mem_view m"
  by (simp add: mem_view_def)

lemma mem_call_cases:
  assumes "mem_call f m = (r, m')"
  obtains (fault) "r = Inl (APIStatus OtherReason ''unavailable'')" "mem_view m' = mem_view m"
  | (call) bs where "f (m\<lparr>m_faults := bs\<rparr>) = (r, m')"
proof (cases "m_faults m")
  case Nil
  then have "f (m\<lparr>m_faults := []\<rparr>) = (r, m')"
    using assms by (cases m) (simp add: mem_call_def)
  then show ?thesis by (rule call)
next
  case (Cons b bs)
  then show ?thesis
    using assms fault call [of bs] by (cases b) (auto simp: mem_call_def)
qed

text \<open>The operations on one kind: \<open>get\<close> and \<open>upd\<close> are its field of the state, \<open>setMeta\<close> the
  update of its metadata, \<open>withStatus obj old\<close> is \<open>obj\<close> with the status of \<open>old\<close>, and
  \<open>persist\<close> what storing does to an object.\<close>

definition nextVersion :: "ObjectMeta \<Rightarrow> ObjectMeta \<Rightarrow> ObjectMeta" where
  "nextVersion old m = m\<lparr>om_ResourceVersion := show_nat (Suc (read_nat (om_ResourceVersion old)))\<rparr>"

definition mem_resource ::
  "(mem \<Rightarrow> 'o list) \<Rightarrow> (('o list \<Rightarrow> 'o list) \<Rightarrow> mem \<Rightarrow> mem) \<Rightarrow> ('o \<Rightarrow> ObjectMeta) \<Rightarrow>
   ((ObjectMeta \<Rightarrow> ObjectMeta) \<Rightarrow> 'o \<Rightarrow> 'o) \<Rightarrow> ('o \<Rightarrow> 'o \<Rightarrow> 'o) \<Rightarrow> ('o \<Rightarrow> 'o) \<Rightarrow> (NamespacedName \<Rightarrow> 'o) \<Rightarrow>
   (mem, 'o) resource" where
  "mem_resource get upd meta setMeta withStatus persist zero =
    (let notFound = APIStatus NotFound ''not found'';
         conflict = APIStatus Conflict ''the object has been modified'';
         put = (\<lambda>obj m. (Inr obj, upd (store meta obj) m));
         save = (\<lambda>old obj. put (persist (setMeta (nextVersion (meta old)) obj)))
     in \<lparr>r_Get = \<lambda>k. mem_call (\<lambda>m. case lookup meta k (get m) of None \<Rightarrow> (Inl notFound, m) | Some obj \<Rightarrow> (Inr obj, m)),
         r_List = \<lambda>ns. mem_call (\<lambda>m. (Inr (listed meta ns (get m)), m)),
         r_Create = \<lambda>obj. mem_call (\<lambda>m. case lookup meta (metaKey (meta obj)) (get m) of
             None \<Rightarrow> save obj obj m
           | Some old \<Rightarrow> (Inl (APIStatus AlreadyExists ''already exists''), m)),
         r_Update = \<lambda>obj. mem_call (\<lambda>m. case lookup meta (metaKey (meta obj)) (get m) of
             None \<Rightarrow> (Inl notFound, m)
           | Some old \<Rightarrow>
               if om_ResourceVersion (meta obj) \<noteq> om_ResourceVersion (meta old) then (Inl conflict, m)
               else if om_DeletionTimestamp (meta obj) \<noteq> None \<and> om_Finalizers (meta obj) = [] then
                 (Inr (withStatus obj old), upd (remove meta (metaKey (meta obj))) m)
               else save old (withStatus obj old) m),
         r_StatusUpdate = \<lambda>obj. mem_call (\<lambda>m. case lookup meta (metaKey (meta obj)) (get m) of
             None \<Rightarrow> (Inl notFound, m)
           | Some old \<Rightarrow>
               if om_ResourceVersion (meta obj) \<noteq> om_ResourceVersion (meta old) then (Inl conflict, m)
               else save old (withStatus old obj) m),
         r_Delete = \<lambda>obj. mem_call (\<lambda>m. case lookup meta (metaKey (meta obj)) (get m) of
             None \<Rightarrow> (Inl notFound, m)
           | Some old \<Rightarrow>
               if om_Finalizers (meta old) = [] then (Inr (), upd (remove meta (metaKey (meta obj))) m)
               else (Inr (), upd (store meta (setMeta (\<lambda>mt. mt\<lparr>om_DeletionTimestamp := Some (m_clock m)\<rparr>) old)) m)),
         r_CreateOrUpdate = \<lambda>k f. mem_call (\<lambda>m. case lookup meta k (get m) of
             None \<Rightarrow> (case f (zero k) of
                 Inl e \<Rightarrow> (Inl e, m)
               | Inr obj \<Rightarrow> if metaKey (meta obj) = k then save obj obj m else (Inl (ErrNew ''key changed''), m))
           | Some old \<Rightarrow> (case f old of
                 Inl e \<Rightarrow> (Inl e, m)
               | Inr obj \<Rightarrow> if metaKey (meta obj) = k then save old (withStatus obj old) m
                           else (Inl (ErrNew ''key changed''), m)))\<rparr>)"

lemmas mem_resource_simps = mem_resource_def Let_def resource.simps

text \<open>Every kind with a field of its own in the state obeys the laws.\<close>

lemma mem_resource_laws:
  assumes sel: "\<And>m. sel (mem_view m) = (\<lambda>k. lookup meta k (get m))"
    and upd: "\<And>F H m. (\<And>k. lookup meta k (F (get m)) = H (\<lambda>k. lookup meta k (get m)) k) \<Longrightarrow>
      mem_view (upd F m) = vupd H (mem_view m)"
    and meta: "\<And>f obj. meta (setMeta f obj) = f (meta obj)" "\<And>obj. meta (persist obj) = meta obj"
      "\<And>obj old. meta (withStatus obj old) = meta obj"
    and spec: "\<And>mt obj. spec (setMeta (nextVersion mt) obj) = spec obj"
      "\<And>obj. spec (persist obj) = spec obj" "\<And>obj old. spec (withStatus obj old) = spec obj"
    and stat: "\<And>f obj. stat (setMeta f obj) = stat obj"
      "\<And>obj. stat (persist obj) = stat obj" "\<And>obj old. stat (withStatus obj old) = stat old"
  shows "kube_kind (mem_resource get upd meta setMeta withStatus persist zero) mem_view sel vupd meta spec stat zero"
    (is "kube_kind ?R _ _ _ _ _ _ _")
proof -
  have lk: "lookup meta k (get m) = sel (mem_view m) k" for k m
    by (simp add: sel)
  have put: "mem_view (upd (store meta obj) m) = vupd (\<lambda>f. f(metaKey (meta obj) \<mapsto> obj)) (mem_view m)" for obj m
    by (rule upd) auto
  have del: "mem_view (upd (remove meta k) m) = vupd (\<lambda>f. f(k := None)) (mem_view m)" for k m
    by (rule upd) auto
  have nv: "metaKey (nextVersion old mt) = metaKey mt" for old mt
    by (simp add: nextVersion_def metaKey_def)
  have dl: "metaKey (mt\<lparr>om_DeletionTimestamp := t\<rparr>) = metaKey mt" for mt t
    by (simp add: metaKey_def)
  have key: "sel (mem_view m) k = Some obj \<Longrightarrow> metaKey (meta obj) = k" for m k obj
    using lookup_key [of meta k "get m" obj] by (simp add: lk)
  note facts = lk put del nv dl meta spec stat mem_view_faults 
  show ?thesis
  proof (unfold_locales, goal_cases)
    case (2 k s obj s')
    then show ?case
      by (auto simp: mem_resource_simps facts elim!: mem_call_cases split: option.splits intro: key)
  next
    case (5 ns s objs s')
    then show ?case
      by (auto simp: mem_resource_simps facts listed_distinct in_listed elim!: mem_call_cases)
  next
    case (8 obj s obj' s')
    then show ?case
      by (auto simp: mem_resource_simps facts stored_def elim!: mem_call_cases split: option.splits if_splits)
        (rule exI [of _ None], simp)
  next
    case (10 obj s obj' s')
    then show ?case
      by (auto simp: mem_resource_simps facts elim!: mem_call_cases split: option.splits if_splits) (frule key, simp)+
  next
    case (12 obj s u s')
    then obtain bs old where old: "sel (mem_view s) (metaKey (meta obj)) = Some old"
      and s': "s' = upd (if om_Finalizers (meta old) = [] then remove meta (metaKey (meta obj))
        else store meta (setMeta (\<lambda>mt. mt\<lparr>om_DeletionTimestamp := Some (m_clock s)\<rparr>) old)) (s\<lparr>m_faults := bs\<rparr>)"
      by (auto simp: mem_resource_simps facts elim!: mem_call_cases split: option.splits if_splits)
    show ?case
    proof (cases "om_Finalizers (meta old) = []")
      case True
      then show ?thesis
        using s' by (intro exI [of _ None]) (simp add: facts)
    next
      case False
      then show ?thesis
        using s' key [OF old] by (intro exI conjI) (auto simp: facts)
    qed
  qed (auto simp: mem_resource_simps facts elim!: mem_call_cases split: option.splits sum.splits if_splits)
qed

section \<open>The store\<close>

definition persist_ad :: "AgentDeployment \<Rightarrow> AgentDeployment" where
  "persist_ad ad = ad\<lparr>ad_Status := ad_stat ad\<rparr>"

definition mem_SetStatusCondition :: "Condition list \<Rightarrow> Condition \<Rightarrow> Condition list" where
  "mem_SetStatusCondition cs c = c # filter (\<lambda>c'. cond_Type c' \<noteq> cond_Type c) cs"

fun mem_retry :: "nat \<Rightarrow> ('s, unit) act \<Rightarrow> ('s, unit) act" where
  "mem_retry 0 f s = f s"
| "mem_retry (Suc n) f s = (case f s of
     (Inl e, s') \<Rightarrow> if IsConflict e then mem_retry n f s' else (Inl e, s')
   | (Inr u, s') \<Rightarrow> (Inr u, s'))"

definition mem_kube :: "mem kube" where
  "mem_kube =
    \<lparr>k_ad = mem_resource m_ad m_ad_update ad_Meta ad_Meta_update (\<lambda>ad old. ad\<lparr>ad_Status := ad_Status old\<rparr>) persist_ad zero_AgentDeployment,
     k_tq = mem_resource m_tq m_tq_update tq_Meta tq_Meta_update (\<lambda>tq old. tq\<lparr>tq_Status := tq_Status old\<rparr>) id zero_TenantQuota,
     k_dep = mem_resource m_dep m_dep_update dep_Meta dep_Meta_update (\<lambda>d old. d\<lparr>dep_Status := dep_Status old\<rparr>) id zero_Deployment,
     k_svc = mem_resource m_svc m_svc_update svc_Meta svc_Meta_update (\<lambda>v old. v) id zero_Service,
     k_sm = mem_resource m_sm m_sm_update sm_Meta sm_Meta_update (\<lambda>v old. v) id zero_ServiceMonitor,
     k_hpa = mem_resource m_hpa m_hpa_update hpa_Meta hpa_Meta_update (\<lambda>v old. v) id zero_HPA,
     k_route = mem_resource m_route m_route_update hr_Meta hr_Meta_update (\<lambda>v old. v) id zero_HTTPRoute,
     k_cm = mem_resource m_cm m_cm_update cm_Meta cm_Meta_update (\<lambda>v old. v) id zero_ConfigMap,
     k_ListPods = \<lambda>ns lbl. mem_call (\<lambda>m. (Inr (map snd (filter (\<lambda>(n, p). n = ns \<and> selects lbl (pod_Labels p)) (m_pods m))), m)),
     k_Now = \<lambda>m. (Inr (m_clock m), m),
     k_RetryOnConflict = mem_retry 4,
     k_SetStatusCondition = mem_SetStatusCondition,
     k_RemoveStatusCondition = \<lambda>cs t. filter (\<lambda>c. cond_Type c \<noteq> t) cs,
     k_FindStatusCondition = findCondition,
     k_SetControllerReference = \<lambda>ad m. Inr (m\<lparr>om_OwnerReferences := [ad_Name ad]\<rparr>),
     k_ContainsFinalizer = \<lambda>m f. f \<in> set (om_Finalizers m),
     k_AddFinalizer = \<lambda>m f. m\<lparr>om_Finalizers := removeAll f (om_Finalizers m) @ [f]\<rparr>,
     k_RemoveFinalizer = \<lambda>m f. m\<lparr>om_Finalizers := removeAll f (om_Finalizers m)\<rparr>,
     k_EqualTQStatus = (=), k_EqualADStatus = (=), k_EqualRouteSpec = (=)\<rparr>"

lemma to_second_idem [simp]: "to_second (to_second t) = to_second t"
  by (simp add: to_second_def)

lemma mem_retry_retries:
  "mem_retry n f s = (r, s') \<Longrightarrow> retries f t s \<Longrightarrow> \<exists>s0. retries f t s0 \<and> f s0 = (r, s')"
proof (induction n arbitrary: s)
  case 0
  then show ?case by auto
next
  case (Suc n)
  then show ?case
    by (auto split: prod.splits sum.splits if_splits intro: retries.again)
qed

lemma findCondition_set: "findCondition (mem_SetStatusCondition cs c) t = (if t = cond_Type c then Some c else findCondition cs t)"
  by (induction cs) (auto simp: findCondition_def mem_SetStatusCondition_def)

lemma findCondition_remove: "findCondition (filter (\<lambda>c. cond_Type c \<noteq> t') cs) t = (if t = t' then None else findCondition cs t)"
  by (induction cs) (auto simp: findCondition_def)

interpretation mem: kube_laws mem_kube mem_view
proof (rule kube_laws.intro)
  note defs = mem_kube_def mem_view_def nextVersion_def persist_ad_def ad_spec_def ad_stat_def dep_spec_def svc_spec_def
    sm_spec_def hpa_spec_def no_status_def option.map_comp comp_def
  show "kube_kind (k_ad mem_kube) mem_view cl_ad cl_ad_update ad_Meta ad_spec ad_stat zero_AgentDeployment"
    unfolding mem_kube_def kube.simps by (rule mem_resource_laws) (auto simp: defs)
  show "kube_kind (k_tq mem_kube) mem_view cl_tq cl_tq_update tq_Meta tq_Spec tq_Status zero_TenantQuota"
    unfolding mem_kube_def kube.simps by (rule mem_resource_laws) (auto simp: defs)
  show "kube_kind (k_dep mem_kube) mem_view cl_dep cl_dep_update dep_Meta dep_spec dep_Status zero_Deployment"
    unfolding mem_kube_def kube.simps by (rule mem_resource_laws) (auto simp: defs)
  show "kube_kind (k_svc mem_kube) mem_view cl_svc cl_svc_update svc_Meta svc_spec no_status zero_Service"
    unfolding mem_kube_def kube.simps by (rule mem_resource_laws) (auto simp: defs)
  show "kube_kind (k_sm mem_kube) mem_view cl_sm cl_sm_update sm_Meta sm_spec no_status zero_ServiceMonitor"
    unfolding mem_kube_def kube.simps by (rule mem_resource_laws) (auto simp: defs)
  show "kube_kind (k_hpa mem_kube) mem_view cl_hpa cl_hpa_update hpa_Meta hpa_spec no_status zero_HPA"
    unfolding mem_kube_def kube.simps by (rule mem_resource_laws) (auto simp: defs)
  show "kube_kind (k_route mem_kube) mem_view cl_route cl_route_update hr_Meta hr_Spec no_status zero_HTTPRoute"
    unfolding mem_kube_def kube.simps by (rule mem_resource_laws) (auto simp: defs)
  show "kube_kind (k_cm mem_kube) mem_view cl_cm cl_cm_update cm_Meta cm_Data no_status zero_ConfigMap"
    unfolding mem_kube_def kube.simps by (rule mem_resource_laws) (auto simp: defs)
  show "kube_laws_axioms mem_kube mem_view"
    by unfold_locales
      (auto simp: mem_kube_def findCondition_set findCondition_remove elim!: mem_call_cases
        intro: mem_retry_retries [OF _ retries.first])
qed

text \<open>The store with no objects.\<close>

definition empty_mem :: mem where
  "empty_mem = \<lparr>m_ad = [], m_tq = [], m_dep = [], m_svc = [], m_sm = [], m_hpa = [], m_route = [], m_cm = [],
     m_pods = [], m_clock = 0, m_faults = []\<rparr>"

section \<open>A client beside other state\<close>

text \<open>The client as seen by code whose state is a pair of state of its own and the client's.\<close>

definition onKube :: "('s, 'a) act \<Rightarrow> ('r \<times> 's, 'a) act" where
  "onKube m = (\<lambda>(r, s). case m s of (res, s') \<Rightarrow> (res, r, s'))"

lemma onKube_eq: "onKube m st = (res, st') \<longleftrightarrow> m (snd st) = (res, snd st') \<and> fst st' = fst st"
  by (auto simp: onKube_def split: prod.splits)

lemma wp_onKube [wp_simps]: "wp (onKube m) E Q (r, s) = wp m (\<lambda>err s'. E err (r, s')) (\<lambda>x s'. Q x (r, s')) s"
  by (simp add: wp_def onKube_def split: prod.splits sum.splits)

definition onResource :: "('s, 'o) resource \<Rightarrow> ('r \<times> 's, 'o) resource" where
  "onResource R = \<lparr>r_Get = \<lambda>k. onKube (r_Get R k), r_List = \<lambda>ns. onKube (r_List R ns), r_Create = \<lambda>obj. onKube (r_Create R obj),
     r_Update = \<lambda>obj. onKube (r_Update R obj), r_StatusUpdate = \<lambda>obj. onKube (r_StatusUpdate R obj),
     r_Delete = \<lambda>obj. onKube (r_Delete R obj), r_CreateOrUpdate = \<lambda>k f. onKube (r_CreateOrUpdate R k f)\<rparr>"

definition sharedKube :: "'s kube \<Rightarrow> ('r \<times> 's) kube" where
  "sharedKube K =
    \<lparr>k_ad = onResource (k_ad K), k_tq = onResource (k_tq K), k_dep = onResource (k_dep K), k_svc = onResource (k_svc K),
     k_sm = onResource (k_sm K), k_hpa = onResource (k_hpa K), k_route = onResource (k_route K), k_cm = onResource (k_cm K),
     k_ListPods = \<lambda>ns sel. onKube (k_ListPods K ns sel), k_Now = onKube (k_Now K), k_RetryOnConflict = mem_retry 4,
     k_SetStatusCondition = k_SetStatusCondition K, k_RemoveStatusCondition = k_RemoveStatusCondition K,
     k_FindStatusCondition = k_FindStatusCondition K, k_SetControllerReference = k_SetControllerReference K,
     k_ContainsFinalizer = k_ContainsFinalizer K, k_AddFinalizer = k_AddFinalizer K, k_RemoveFinalizer = k_RemoveFinalizer K,
     k_EqualTQStatus = k_EqualTQStatus K, k_EqualADStatus = k_EqualADStatus K, k_EqualRouteSpec = k_EqualRouteSpec K\<rparr>"

lemma onResource_laws:
  assumes "kube_kind R view sel upd meta spec stat zero"
  shows "kube_kind (onResource R) (\<lambda>st. view (snd st)) sel upd meta spec stat zero"
  by unfold_locales (simp_all add: onResource_def onKube_eq, (blast dest: kube_kind.get_view [OF assms] kube_kind.get_found [OF assms]
      kube_kind.get_absent [OF assms] kube_kind.list_view [OF assms] kube_kind.list_found [OF assms] kube_kind.create_ok [OF assms]
      kube_kind.create_fails [OF assms] kube_kind.update_ok [OF assms] kube_kind.update_fails [OF assms] kube_kind.status_ok [OF assms]
      kube_kind.status_fails [OF assms] kube_kind.delete_ok [OF assms] kube_kind.delete_fails [OF assms] kube_kind.apply_ok [OF assms]
      kube_kind.apply_fails [OF assms])+)

lemma sharedKube_laws:
  fixes K :: "'s kube"
  assumes "kube_laws K view"
  shows "kube_laws (sharedKube K :: ('r \<times> 's) kube) (\<lambda>st. view (snd st))"
proof (rule kube_laws.intro)
  show "kube_laws_axioms (sharedKube K :: ('r \<times> 's) kube) (\<lambda>st. view (snd st))"
    by (rule kube_laws_axioms.intro)
      (simp_all add: sharedKube_def onKube_eq kube_laws.set_condition [OF assms] kube_laws.remove_condition [OF assms]
        kube_laws.find_condition [OF assms] kube_laws.contains_finalizer [OF assms] kube_laws.add_finalizer [OF assms]
        kube_laws.remove_finalizer [OF assms] kube_laws.equal_tq [OF assms] kube_laws.equal_ad [OF assms]
        kube_laws.equal_route [OF assms] kube_laws.now_view [OF assms] kube_laws.set_owner [OF assms]
        del: split_paired_Ex, auto dest: kube_laws.pods_view [OF assms] mem_retry_retries [OF _ retries.first] simp del: split_paired_Ex)
qed (use assms in \<open>simp_all add: kube_laws_def sharedKube_def onResource_laws\<close>)

end
