(* ===== verification/Registry.thy ===== *)
theory Registry
  imports Kube_Store
begin

text \<open>
  \<^verbatim>\<open>internal/registry/registry.go\<close>: the discovery registry. Its map of entries is an association
  list from keys \<open>namespace/name\<close>; the clock is an argument of the operations that read it.
  Persistence goes through the client \<open>reg_client\<close> (\<open>None\<close> is a nil client).
  The state of an operation that persists is the pair of the registry and the state of that
  client.
\<close>

section \<open>Data\<close>

record Entry =
  ent_Namespace :: string
  ent_Name :: string
  ent_Endpoint :: string
  ent_Tools :: "string list"
  ent_RegisteredAt :: time
  ent_HeartbeatAt :: time
  ent_TTL :: duration

record 's Registry =
  reg_entries :: "(string \<times> Entry option) list"
  reg_client :: "'s kube option"
  reg_namespace :: string
  reg_configMapName :: string
  reg_defaultTTL :: duration
  reg_sweepInterval :: duration

abbreviation DefaultTTL :: duration where
  "DefaultTTL \<equiv> 90 * Second"

abbreviation DefaultSweepInterval :: duration where
  "DefaultSweepInterval \<equiv> 30 * Second"

abbreviation configMapKey :: string where
  "configMapKey \<equiv> ''state''"

definition NewRegistry :: "'s kube option \<Rightarrow> string \<Rightarrow> duration \<Rightarrow> 's Registry" where
  "NewRegistry k8sClient ns defaultTTL =
    \<lparr>reg_entries = [], reg_client = k8sClient,
     reg_namespace = (if ns = [] then ''agentrax-system'' else ns),
     reg_configMapName = ''agentrax-registry'',
     reg_defaultTTL = (if defaultTTL \<le> 0 then DefaultTTL else defaultTTL),
     reg_sweepInterval = DefaultSweepInterval\<rparr>"

definition SetSweepInterval :: "duration \<Rightarrow> 's Registry \<Rightarrow> 's Registry" where
  "SetSweepInterval interval r = r\<lparr>reg_sweepInterval := interval\<rparr>"

section \<open>In-memory operations\<close>

text \<open>An entry is a pointer, and the map may hold a nil one: \<open>null\<close> in the ConfigMap is read
  as such. Going through it panics.\<close>

abbreviation nilDeref :: goerr where
  "nilDeref \<equiv> RuntimePanic ''invalid memory address or nil pointer dereference''"

definition key :: "string \<Rightarrow> string \<Rightarrow> string" where
  "key ns name = ns @ ''/'' @ name"

definition entryTTL :: "'s Registry \<Rightarrow> Entry \<Rightarrow> duration" where
  "entryTTL r e = (if ent_TTL e \<le> 0 then reg_defaultTTL r else ent_TTL e)"

definition expired :: "'s Registry \<Rightarrow> time \<Rightarrow> Entry \<Rightarrow> bool" where
  "expired r now e \<longleftrightarrow> entryTTL r e < time_sub now (ent_HeartbeatAt e)"

definition liveEntries :: "'s Registry \<Rightarrow> time \<Rightarrow> (string \<times> Entry option) list \<Rightarrow> (string \<times> Entry option) list" where
  "liveEntries r now m = filter (\<lambda>(k, e). \<not> expired r now (the e)) m"

definition sweepExpired :: "time \<Rightarrow> 's Registry \<Rightarrow> goerr + (nat \<times> 's Registry)" where
  "sweepExpired now r =
    (if None \<in> snd ` set (reg_entries r) then Inl nilDeref
     else (let live = liveEntries r now (reg_entries r)
           in Inr (length (reg_entries r) - length live, r\<lparr>reg_entries := live\<rparr>)))"

definition Get :: "time \<Rightarrow> string \<Rightarrow> string \<Rightarrow> 's Registry \<Rightarrow> goerr + Entry option" where
  "Get now ns name r =
    (case map_of (reg_entries r) (key ns name) of
       None \<Rightarrow> Inr None
     | Some None \<Rightarrow> Inl nilDeref
     | Some (Some e) \<Rightarrow> if expired r now e then Inr None else Inr (Some e))"

definition List :: "time \<Rightarrow> 's Registry \<Rightarrow> goerr + Entry list" where
  "List now r =
    (if None \<in> snd ` set (reg_entries r) then Inl nilDeref
     else Inr (map (the \<circ> snd) (liveEntries r now (reg_entries r))))"

section \<open>Persistence\<close>

definition encodeEntry :: "Entry \<Rightarrow> json" where
  "encodeEntry e = JObj
    ([(''namespace'', JStr (ent_Namespace e)), (''name'', JStr (ent_Name e)), (''endpoint'', JStr (ent_Endpoint e))] @
     (if ent_Tools e = [] then [] else [(''tools'', JArr (map JStr (ent_Tools e)))]) @
     [(''registeredAt'', JTime (ent_RegisteredAt e)), (''heartbeatAt'', JTime (ent_HeartbeatAt e)), (''ttl'', JNum (ent_TTL e))])"

definition zero_Entry :: Entry where
  "zero_Entry = \<lparr>ent_Namespace = [], ent_Name = [], ent_Endpoint = [], ent_Tools = [],
     ent_RegisteredAt = - 62135596800 * Second, ent_HeartbeatAt = - 62135596800 * Second, ent_TTL = 0\<rparr>"

definition setEntryField :: "string \<Rightarrow> json \<Rightarrow> Entry \<Rightarrow> goerr + Entry" where
  "setEntryField f v e =
    (if f = ''namespace'' then mapRight (\<lambda>x. e\<lparr>ent_Namespace := x\<rparr>) (decodeString (ent_Namespace e) v)
     else if f = ''name'' then mapRight (\<lambda>x. e\<lparr>ent_Name := x\<rparr>) (decodeString (ent_Name e) v)
     else if f = ''endpoint'' then mapRight (\<lambda>x. e\<lparr>ent_Endpoint := x\<rparr>) (decodeString (ent_Endpoint e) v)
     else if f = ''tools'' then mapRight (\<lambda>x. e\<lparr>ent_Tools := x\<rparr>) (decodeStrings (ent_Tools e) v)
     else if f = ''registeredat'' then mapRight (\<lambda>x. e\<lparr>ent_RegisteredAt := x\<rparr>) (decodeTime (ent_RegisteredAt e) v)
     else if f = ''heartbeatat'' then mapRight (\<lambda>x. e\<lparr>ent_HeartbeatAt := x\<rparr>) (decodeTime (ent_HeartbeatAt e) v)
     else if f = ''ttl'' then mapRight (\<lambda>x. e\<lparr>ent_TTL := x\<rparr>) (decodeInt64 (ent_TTL e) v)
     else Inr e)"

definition decodeEntry :: "json \<Rightarrow> goerr + Entry" where
  "decodeEntry v = decodeStruct ''registry.Entry'' setEntryField v zero_Entry"

text \<open>The map of entries; an object's value \<open>null\<close> is a nil pointer.\<close>

definition encodeEntries :: "(string \<times> Entry option) list \<Rightarrow> json" where
  "encodeEntries m = JObj (map (\<lambda>(k, e). (k, case e of None \<Rightarrow> JNull | Some e \<Rightarrow> encodeEntry e)) m)"

definition decodePointer :: "string \<times> json \<Rightarrow> goerr + string \<times> Entry option" where
  "decodePointer kv = (case kv of (k, v) \<Rightarrow>
     if v = JNull then Inr (k, None) else mapRight (\<lambda>e. (k, Some e)) (decodeEntry v))"

fun decodeEntries :: "json \<Rightarrow> goerr + (string \<times> Entry option) list" where
  "decodeEntries JNull = Inr []"
| "decodeEntries (JObj kvs) = traverse decodePointer kvs"
| "decodeEntries v = Inl (typeError ''map[string]*registry.Entry'')"

definition configMapName :: "'s Registry \<Rightarrow> NamespacedName" where
  "configMapName r = \<lparr>nn_Namespace = reg_namespace r, nn_Name = reg_configMapName r\<rparr>"

definition persistToConfigMap :: "'s kube \<Rightarrow> 's Registry \<Rightarrow> ('s, unit) act" where
  "persistToConfigMap C r =
    k_RetryOnConflict C
      (wrapErr ''persisting registry ConfigMap: ''
        (andThen
          (r_CreateOrUpdate (k_cm C) (configMapName r)
            (\<lambda>cm. Inr (cm\<lparr>cm_Data := AList.update configMapKey (JText (encodeEntries (reg_entries r))) (cm_Data cm)\<rparr>)))
          (\<lambda>cm. ret ())))"

text \<open>Assigning to the registry's map every entry of the map that was read.\<close>

definition mergeEntries :: "(string \<times> Entry option) list \<Rightarrow> 's Registry \<Rightarrow> 's Registry" where
  "mergeEntries loaded r = r\<lparr>reg_entries := fold (\<lambda>(k, e) m. AList.update k e m) loaded (reg_entries r)\<rparr>"

definition loadFromConfigMap :: "'s kube \<Rightarrow> 's Registry \<Rightarrow> ('s, 's Registry) act" where
  "loadFromConfigMap C r =
    catchErr (r_Get (k_cm C) (configMapName r))
      (\<lambda>err. if IsNotFound err then ret r else fail (Errorf ''fetching registry ConfigMap: '' [err]))
      (\<lambda>cm. case map_of (cm_Data cm) configMapKey of
         None \<Rightarrow> ret r
       | Some JEmpty \<Rightarrow> ret r
       | Some JMalformed \<Rightarrow> fail (Errorf ''unmarshaling registry state: '' [ErrNew ''invalid character''])
       | Some (JText v) \<Rightarrow> (case decodeEntries v of
             Inl err \<Rightarrow> fail (Errorf ''unmarshaling registry state: '' [err])
           | Inr loaded \<Rightarrow> ret (mergeEntries loaded r)))"

section \<open>Operations that persist\<close>

text \<open>\<open>if r.client != nil { return r.persistToConfigMap(ctx) }; return nil\<close>\<close>

definition persist :: "'s Registry \<Rightarrow> ('s, unit) act" where
  "persist r = (case reg_client r of None \<Rightarrow> ret () | Some C \<Rightarrow> persistToConfigMap C r)"

type_synonym ('s, 'a) regAct = "('s Registry \<times> 's, 'a) act"

text \<open>The registry becomes \<open>r'\<close>, and is persisted.\<close>

definition commit :: "'s Registry \<Rightarrow> ('s, unit) regAct" where
  "commit r' = (\<lambda>(r, s). case persist r' s of (res, s') \<Rightarrow> (res, r', s'))"

definition Register :: "time \<Rightarrow> Entry \<Rightarrow> ('s, unit) regAct" where
  "Register now e = (\<lambda>(r, s).
    if ent_Namespace e = [] \<or> ent_Name e = [] \<or> ent_Endpoint e = [] then
      (Inl (ErrNew ''namespace, name, and endpoint are required for registration''), r, s)
    else (let k = key (ent_Namespace e) (ent_Name e);
              put = (\<lambda>registeredAt. commit (r\<lparr>reg_entries := AList.update k
                 (Some (e\<lparr>ent_RegisteredAt := registeredAt, ent_HeartbeatAt := now,
                          ent_TTL := (if ent_TTL e \<le> 0 then reg_defaultTTL r else ent_TTL e)\<rparr>)) (reg_entries r)\<rparr>) (r, s))
          in case map_of (reg_entries r) k of
               None \<Rightarrow> put now
             | Some None \<Rightarrow> (Inl nilDeref, r, s)
             | Some (Some existing) \<Rightarrow> put (ent_RegisteredAt existing)))"

definition Deregister :: "string \<Rightarrow> string \<Rightarrow> ('s, unit) regAct" where
  "Deregister ns name = (\<lambda>(r, s).
    if map_of (reg_entries r) (key ns name) = None then (Inr (), r, s)
    else commit (r\<lparr>reg_entries := AList.delete (key ns name) (reg_entries r)\<rparr>) (r, s))"

definition Heartbeat :: "time \<Rightarrow> string \<Rightarrow> string \<Rightarrow> ('s, unit) regAct" where
  "Heartbeat now ns name = (\<lambda>(r, s).
    case map_of (reg_entries r) (key ns name) of
      None \<Rightarrow> (Inl (ErrNew (''agent '' @ key ns name @ '' not found in registry'')), r, s)
    | Some None \<Rightarrow> (Inl nilDeref, r, s)
    | Some (Some e) \<Rightarrow>
        (Inr (), r\<lparr>reg_entries := AList.update (key ns name) (Some (e\<lparr>ent_HeartbeatAt := now\<rparr>)) (reg_entries r)\<rparr>, s))"

text \<open>\<open>Start\<close> loads the state, going on without it if that fails; a tick of the sweeper removes
  what has expired and persists when it removed something. The errors are only logged.\<close>

definition Start :: "('s, unit) regAct" where
  "Start = (\<lambda>(r, s). case reg_client r of
     None \<Rightarrow> (Inr (), r, s)
   | Some C \<Rightarrow> (case loadFromConfigMap C r s of
       (Inl err, s') \<Rightarrow> (Inr (), r, s')
     | (Inr r', s') \<Rightarrow> (Inr (), r', s')))"

definition sweeperTick :: "time \<Rightarrow> ('s, unit) regAct" where
  "sweeperTick now = (\<lambda>(r, s). case sweepExpired now r of
     Inl panic \<Rightarrow> (Inl panic, r, s)
   | Inr (removed, r') \<Rightarrow>
       if 0 < removed then (case persist r' s of (res, s') \<Rightarrow> (Inr (), r', s'))
       else (Inr (), r', s))"

text \<open>\<open>runSweeper\<close>: the ticks that arrive until the context is done.\<close>

datatype sweeperEvent = Tick time | Done

fun runSweeper :: "sweeperEvent list \<Rightarrow> ('s, unit) regAct" where
  "runSweeper [] = ret ()"
| "runSweeper (Done # evs) = ret ()"
| "runSweeper (Tick now # evs) = andThen (sweeperTick now) (\<lambda>u. runSweeper evs)"

section \<open>The HTTP interface\<close>

text \<open>A response: the status code and the body, a JSON value or a plain text.\<close>

datatype httpBody = BodyText string | BodyJSON json

type_synonym httpResponse = "nat \<times> httpBody"

definition handleRegister :: "time \<Rightarrow> jtext \<Rightarrow> ('s, httpResponse) regAct" where
  "handleRegister now body =
    (case (case body of JText v \<Rightarrow> decodeEntry v | JEmpty \<Rightarrow> Inl (ErrNew ''EOF'') | JMalformed \<Rightarrow> Inl (ErrNew ''invalid character'')) of
       Inl err \<Rightarrow> ret (400, BodyText (''invalid request body: '' @ err_text err))
     | Inr entry \<Rightarrow> (\<lambda>st. case Register now entry st of
           (Inl (RuntimePanic m), st') \<Rightarrow> (Inl (RuntimePanic m), st')
         | (Inl err, st') \<Rightarrow> (Inr (400, BodyText (''registration failed: '' @ err_text err)), st')
         | (Inr u, st') \<Rightarrow> (Inr (200, BodyJSON (JObj [(''status'', JStr ''registered'')])), st')))"

definition handleDeregisterAgentPath :: "string \<Rightarrow> string \<Rightarrow> ('s, httpResponse) regAct" where
  "handleDeregisterAgentPath ns name =
    (if ns = [] \<or> name = [] then ret (400, BodyText ''namespace and name are required in URL path'')
     else catchErr (Deregister ns name)
       (\<lambda>err. ret (500, BodyText (''deregistration failed: '' @ err_text err)))
       (\<lambda>u. ret (200, BodyJSON (JObj [(''status'', JStr ''deregistered'')]))))"

definition handleListAgents :: "time \<Rightarrow> ('s, httpResponse) regAct" where
  "handleListAgents now = (\<lambda>(r, s). case List now r of
     Inl panic \<Rightarrow> (Inl panic, r, s)
   | Inr agents \<Rightarrow> (Inr (200, BodyJSON (JArr (map encodeEntry agents))), r, s))"

definition handleGetAgent :: "time \<Rightarrow> string \<Rightarrow> string \<Rightarrow> ('s, httpResponse) regAct" where
  "handleGetAgent now ns name = (\<lambda>(r, s).
    if ns = [] \<or> name = [] then (Inr (400, BodyText ''namespace and name are required''), r, s)
    else (case Get now ns name r of
       Inl panic \<Rightarrow> (Inl panic, r, s)
     | Inr None \<Rightarrow> (Inr (404, BodyText (''agent '' @ ns @ ''/'' @ name @ '' not found'')), r, s)
     | Inr (Some e) \<Rightarrow> (Inr (200, BodyJSON (encodeEntry e)), r, s)))"

text \<open>\<open>Handler\<close>: the four routes of the mux.\<close>

datatype httpRequest =
    GetAgents
  | PostAgents jtext
  | GetAgent string string
  | DeleteAgent string string

fun Handler :: "time \<Rightarrow> httpRequest \<Rightarrow> ('s, httpResponse) regAct" where
  "Handler now GetAgents = handleListAgents now"
| "Handler now (PostAgents body) = handleRegister now body"
| "Handler now (GetAgent ns name) = handleGetAgent now ns name"
| "Handler now (DeleteAgent ns name) = handleDeregisterAgentPath ns name"

section \<open>Keys and entries\<close>

lemma key_inject:
  "CHR ''/'' \<notin> set ns \<Longrightarrow> CHR ''/'' \<notin> set ns' \<Longrightarrow> key ns name = key ns' name' \<longleftrightarrow> ns = ns' \<and> name = name'"
proof (induction ns arbitrary: ns')
  case Nil
  then show ?case by (cases ns') (auto simp: key_def)
next
  case (Cons c ns)
  then show ?case by (cases ns') (auto simp: key_def)
qed

text \<open>The invariant of the registry: no nil entry, each entry under its own key, each key once.\<close>

definition entries_ok :: "(string \<times> Entry option) list \<Rightarrow> bool" where
  "entries_ok m \<longleftrightarrow> distinct (map fst m) \<and>
     (\<forall>(k, p) \<in> set m. case p of None \<Rightarrow> False | Some e \<Rightarrow> k = key (ent_Namespace e) (ent_Name e))"

abbreviation registry_ok :: "'s Registry \<Rightarrow> bool" where
  "registry_ok r \<equiv> entries_ok (reg_entries r)"

lemma entries_ok_Nil [simp]: "entries_ok []"
  by (simp add: entries_ok_def)

lemma entries_ok_no_nil: "entries_ok m \<Longrightarrow> None \<notin> snd ` set m"
  by (auto simp: entries_ok_def split: option.splits)

lemma entries_ok_lookup: "entries_ok m \<Longrightarrow> map_of m k \<noteq> Some None"
  using entries_ok_no_nil by (force dest: map_of_SomeD)

lemma entries_ok_key: "entries_ok m \<Longrightarrow> (k, Some e) \<in> set m \<Longrightarrow> k = key (ent_Namespace e) (ent_Name e)"
  by (auto simp: entries_ok_def)

lemma entries_ok_update:
  assumes "entries_ok m" and "k = key (ent_Namespace e) (ent_Name e)"
  shows "entries_ok (AList.update k (Some e) m)"
proof -
  have "set (AList.update k (Some e) m) \<subseteq> insert (k, Some e) (set m)"
    by (induction m) auto
  with assms show ?thesis
    unfolding entries_ok_def by (auto simp: distinct_update split: option.splits)
qed

lemma entries_ok_filter: "entries_ok m \<Longrightarrow> entries_ok (filter P m)"
  by (auto simp: entries_ok_def distinct_filter_keys split: option.splits)

lemma expired_entries [simp]: "expired (r\<lparr>reg_entries := m\<rparr>) = expired r"
  by (intro ext) (simp add: expired_def entryTTL_def)

lemma expired_mono: "now \<le> now' \<Longrightarrow> expired r now e \<Longrightarrow> expired r now' e"
  by (auto simp: expired_def time_sub_def)

section \<open>Effect of the operations\<close>

lemma commit_eq: "commit r' (r, s) = (fst (persist r' s), r', snd (persist r' s))"
  by (simp add: commit_def split: prod.splits)

lemma Register_effect:
  assumes "Register now e (r, s) = (res, r', s')" and "registry_ok r"
  shows "(ent_Namespace e = [] \<or> ent_Name e = [] \<or> ent_Endpoint e = []) \<and> r' = r \<and> s' = s \<and>
      res = Inl (ErrNew ''namespace, name, and endpoint are required for registration'') \<or>
    (\<exists>e'. r' = r\<lparr>reg_entries := AList.update (key (ent_Namespace e) (ent_Name e)) (Some e') (reg_entries r)\<rparr> \<and>
      ent_Namespace e' = ent_Namespace e \<and> ent_Name e' = ent_Name e \<and> ent_Endpoint e' = ent_Endpoint e \<and>
      ent_Tools e' = ent_Tools e \<and> ent_HeartbeatAt e' = now \<and> entryTTL r e' = entryTTL r e \<and>
      persist r' s = (res, s'))"
proof (cases "ent_Namespace e = [] \<or> ent_Name e = [] \<or> ent_Endpoint e = []")
  case True
  then show ?thesis using assms by (auto simp: Register_def)
next
  case False
  define e' where "e' t = e\<lparr>ent_RegisteredAt := t, ent_HeartbeatAt := now, ent_TTL := entryTTL r e\<rparr>" for t
  obtain t where t: "Register now e (r, s) =
    commit (r\<lparr>reg_entries := AList.update (key (ent_Namespace e) (ent_Name e)) (Some (e' t)) (reg_entries r)\<rparr>) (r, s)"
    using False entries_ok_lookup [OF assms(2), of "key (ent_Namespace e) (ent_Name e)"]
    by (cases "map_of (reg_entries r) (key (ent_Namespace e) (ent_Name e))")
      (auto simp: Register_def Let_def entryTTL_def e'_def)
  have "entryTTL r (e' t) = entryTTL r e"
    by (simp add: e'_def entryTTL_def)
  then show ?thesis
    using assms(1) unfolding t commit_eq by (intro disjI2 exI [of _ "e' t"]) (auto simp: e'_def)
qed

lemma Register_ok: "registry_ok r \<Longrightarrow> Register now e (r, s) = (res, r', s') \<Longrightarrow> registry_ok r'"
  by (drule Register_effect) (auto intro!: entries_ok_update)

lemma Deregister_effect:
  "Deregister ns name (r, s) = (res, r', s') \<Longrightarrow>
   reg_entries r' = AList.delete (key ns name) (reg_entries r) \<and> reg_defaultTTL r' = reg_defaultTTL r"
  by (auto simp: Deregister_def commit_eq map_of_eq_None_iff split: if_splits)

lemma Deregister_ok: "registry_ok r \<Longrightarrow> Deregister ns name (r, s) = (res, r', s') \<Longrightarrow> registry_ok r'"
  by (drule Deregister_effect) (auto simp: delete_eq_filter intro: entries_ok_filter)

lemma Heartbeat_ok:
  assumes "registry_ok r" and "Heartbeat now ns name (r, s) = (res, r', s')"
  shows "registry_ok r'"
proof (cases "map_of (reg_entries r) (key ns name)")
  case None
  then show ?thesis using assms by (simp add: Heartbeat_def)
next
  case (Some p)
  with entries_ok_lookup [OF assms(1), of "key ns name"] obtain e
    where e: "map_of (reg_entries r) (key ns name) = Some (Some e)" by (cases p) auto
  then have "key ns name = key (ent_Namespace e) (ent_Name e)"
    by (rule entries_ok_key [OF assms(1) map_of_SomeD])
  with e assms show ?thesis
    by (auto simp: Heartbeat_def intro!: entries_ok_update)
qed

lemma sweepExpired_ok: "registry_ok r \<Longrightarrow> \<exists>n. sweepExpired now r = Inr (n, r\<lparr>reg_entries := liveEntries r now (reg_entries r)\<rparr>)"
  using entries_ok_no_nil [of "reg_entries r"] by (simp add: sweepExpired_def Let_def)

lemma liveEntries_ok: "entries_ok m \<Longrightarrow> entries_ok (liveEntries r now m)"
  by (simp add: liveEntries_def entries_ok_filter)

lemma Get_ok:
  "registry_ok r \<Longrightarrow> Get now ns name r =
    Inr (case map_of (reg_entries r) (key ns name) of Some (Some e) \<Rightarrow> if expired r now e then None else Some e | _ \<Rightarrow> None)"
  using entries_ok_lookup [of "reg_entries r" "key ns name"] by (auto simp: Get_def split: option.splits)

lemma map_of_liveEntries:
  "entries_ok m \<Longrightarrow> map_of (liveEntries r now m) k =
    (case map_of m k of Some (Some e) \<Rightarrow> if expired r now e then None else Some (Some e) | _ \<Rightarrow> None)"
  using entries_ok_no_nil [of m]
  by (auto simp: liveEntries_def map_of_filter_keys entries_ok_def split: option.splits dest!: map_of_SomeD)

section \<open>Encoding lemmas\<close>

lemma fold_case_fields [simp]:
  "fold_case ''namespace'' = ''namespace''" "fold_case ''name'' = ''name''" "fold_case ''endpoint'' = ''endpoint''"
  "fold_case ''tools'' = ''tools''" "fold_case ''registeredAt'' = ''registeredat''"
  "fold_case ''heartbeatAt'' = ''heartbeatat''" "fold_case ''ttl'' = ''ttl''"
  by code_simp+

lemma decodeStrings_map: "decodeStrings old (JArr (map JStr ts)) = Inr ts"
  using traverse_map [of ts "decodeString []" JStr id] by simp

lemma decode_encode_Entry:
  assumes "- (2 ^ 63) \<le> ent_TTL e" and "ent_TTL e < 2 ^ 63"
  shows "decodeEntry (encodeEntry e) = Inr e"
proof -
  have "decodeEntry (encodeEntry e) = Inr \<lparr>ent_Namespace = ent_Namespace e, ent_Name = ent_Name e,
    ent_Endpoint = ent_Endpoint e, ent_Tools = ent_Tools e, ent_RegisteredAt = ent_RegisteredAt e,
    ent_HeartbeatAt = ent_HeartbeatAt e, ent_TTL = ent_TTL e\<rparr>"
    using assms
    by (cases "ent_Tools e = []")
      (simp_all add: decodeEntry_def encodeEntry_def setEntryField_def decodeStrings_map zero_Entry_def del: decodeStrings.simps)
  then show ?thesis by simp
qed

definition ttls_fit :: "(string \<times> Entry option) list \<Rightarrow> bool" where
  "ttls_fit m \<longleftrightarrow> (\<forall>(k, p) \<in> set m. case p of None \<Rightarrow> True | Some e \<Rightarrow> - (2 ^ 63) \<le> ent_TTL e \<and> ent_TTL e < 2 ^ 63)"

lemma encodeEntry_not_null [simp]: "encodeEntry e \<noteq> JNull"
  by (simp add: encodeEntry_def)

lemma decode_encode_Entries:
  assumes "ttls_fit m"
  shows "decodeEntries (encodeEntries m) = Inr m"
proof -
  have "decodePointer (k, case p of None \<Rightarrow> JNull | Some e \<Rightarrow> encodeEntry e) = Inr (k, p)"
    if "(k, p) \<in> set m" for k p
    using that assms by (cases p) (auto simp: decodePointer_def ttls_fit_def decode_encode_Entry)
  then have "traverse decodePointer (map (\<lambda>(k, p). (k, case p of None \<Rightarrow> JNull | Some e \<Rightarrow> encodeEntry e)) m) = Inr (map id m)"
    by (intro traverse_map) auto
  then show ?thesis
    by (simp add: encodeEntries_def)
qed

lemma map_of_merge:
  "distinct (map fst m) \<Longrightarrow>
   map_of (fold (\<lambda>(k, e) acc. AList.update k e acc) m acc) = map_of acc ++ map_of m"
proof (induction m arbitrary: acc)
  case Nil
  then show ?case by simp
next
  case (Cons kv m)
  then have "fst kv \<notin> dom (map_of m)" by (simp add: dom_map_of_conv_image_fst)
  then show ?case
    using Cons by (cases kv) (simp add: update_conv' map_add_upd_left del: fun_upd_apply)
qed

section \<open>Discovery\<close>

text \<open>C33. Registering an agent makes it discoverable, with the endpoint and the tools it
  registered, for exactly its time to live, and touches no other agent; this holds whether or
  not writing the ConfigMap failed. (A namespace holds no slash.)\<close>

theorem Register_makes_discoverable:
  assumes "registry_ok r" and "Register now e (r, s) = (res, r', s')"
    and "ent_Namespace e \<noteq> []" and "ent_Name e \<noteq> []" and "ent_Endpoint e \<noteq> []"
    and "CHR ''/'' \<notin> set (ent_Namespace e)" and "CHR ''/'' \<notin> set ns"
  shows "registry_ok r' \<and>
    (if ns = ent_Namespace e \<and> name = ent_Name e
     then \<exists>e'. Get now' ns name r' = Inr (if entryTTL r e < time_sub now' now then None else Some e') \<and>
       ent_Endpoint e' = ent_Endpoint e \<and> ent_Tools e' = ent_Tools e
     else Get now' ns name r' = Get now' ns name r)"
proof -
  from Register_effect [OF assms(2,1)] assms(3-5) obtain e'
    where r': "r' = r\<lparr>reg_entries := AList.update (key (ent_Namespace e) (ent_Name e)) (Some e') (reg_entries r)\<rparr>"
      and e': "ent_Endpoint e' = ent_Endpoint e" "ent_Tools e' = ent_Tools e" "ent_HeartbeatAt e' = now"
        "entryTTL r e' = entryTTL r e"
    by auto
  have other: "ns = ent_Namespace e \<and> name = ent_Name e \<longleftrightarrow> key ns name = key (ent_Namespace e) (ent_Name e)"
    using key_inject [OF assms(7,6)] by auto
  have "Get now' ns name r' = (if ns = ent_Namespace e \<and> name = ent_Name e
    then Inr (if expired r now' e' then None else Some e') else Get now' ns name r)"
    unfolding other by (auto simp: r' Get_def update_conv' split: option.splits)
  moreover have "expired r now' e' \<longleftrightarrow> entryTTL r e < time_sub now' now"
    by (simp add: expired_def e')
  ultimately show ?thesis
    using Register_ok [OF assms(1,2)] e' by auto
qed

theorem Register_makes_discoverable_witness:
  "let r = NewRegistry None ''sys'' 0 :: unit Registry;
       e = zero_Entry\<lparr>ent_Namespace := ''a'', ent_Name := ''bot'', ent_Endpoint := ''http://bot.a.svc:8080''\<rparr>;
       r' = fst (snd (Register 0 e (r, ())))
   in (\<exists>e'. Get (90 * Second) ''a'' ''bot'' r' = Inr (Some e') \<and> ent_Endpoint e' = ''http://bot.a.svc:8080'') \<and>
      Get (91 * Second) ''a'' ''bot'' r' = Inr None"
proof -
  define r where "r = (NewRegistry None ''sys'' 0 :: unit Registry)"
  define e where "e = zero_Entry\<lparr>ent_Namespace := ''a'', ent_Name := ''bot'', ent_Endpoint := ''http://bot.a.svc:8080''\<rparr>"
  define r' where "r' = fst (snd (Register 0 e (r, ())))"
  have reg: "Register 0 e (r, ()) = (fst (Register 0 e (r, ())), r', ())"
    by (simp add: r'_def prod_eq_iff)
  have ok: "registry_ok r" by (simp add: r_def NewRegistry_def)
  have ttl: "entryTTL r e = 90 * Second"
    by (simp add: r_def e_def NewRegistry_def entryTTL_def zero_Entry_def)
  have e: "ent_Namespace e = ''a''" "ent_Name e = ''bot''" "ent_Endpoint e = ''http://bot.a.svc:8080''"
    by (simp_all add: e_def)
  show ?thesis
    unfolding Let_def
    using Register_makes_discoverable [OF ok reg, of "''a''" "''bot''" "90 * Second"]
      Register_makes_discoverable [OF ok reg, of "''a''" "''bot''" "91 * Second"]
    by (auto simp: e ttl time_sub_def simp flip: r_def e_def r'_def)
qed



section \<open>Persistence\<close>

lemma retries_view:
  assumes "retries f s s0" and "\<And>s e s'. f s = (Inl e, s') \<Longrightarrow> view s' = view s"
  shows "view s0 = view s"
  using assms(1) by (induction rule: retries.induct) (auto dest: assms(2))

lemma wrapErr_andThen_ret_Inl:
  "wrapErr w (andThen m (\<lambda>x. ret y)) s = (Inl e, s') \<Longrightarrow> \<exists>e0. m s = (Inl e0, s') \<and> e = Errorf w [e0]"
  by (auto simp: wrapErr_def andThen_def split: prod.splits sum.splits)

lemma cl_cm_updated: "\<exists>m. cl_cm_update f c = c\<lparr>cl_cm := m\<rparr>" for c :: cluster
  by (rule exI [of _ "f (cl_cm c)"]) simp

context kube_laws
begin

text \<open>Persisting is one write that went through, after attempts that changed nothing.\<close>

lemma persist_cases:
  assumes "persistToConfigMap K r s = (res, s')"
  shows "case res of
      Inl e \<Rightarrow> view s' = view s
    | Inr u \<Rightarrow> \<exists>s0 cm. view s0 = view s \<and> r_CreateOrUpdate (k_cm K) (configMapName r)
        (\<lambda>cm. Inr (cm\<lparr>cm_Data := AList.update configMapKey (JText (encodeEntries (reg_entries r))) (cm_Data cm)\<rparr>)) s0 = (Inr cm, s')"
proof -
  define m where "m = r_CreateOrUpdate (k_cm K) (configMapName r)
      (\<lambda>cm. Inr (cm\<lparr>cm_Data := AList.update configMapKey (JText (encodeEntries (reg_entries r))) (cm_Data cm)\<rparr>))"
  define f where "f = wrapErr ''persisting registry ConfigMap: '' (andThen m (\<lambda>cm. ret ()))"
  have fails: "view s2 = view s1" if "f s1 = (Inl e', s2)" for s1 e' s2
    using wrapErr_andThen_ret_Inl [OF that [unfolded f_def]] cms.apply_fails by (auto simp: m_def)
  have "k_RetryOnConflict K f s = (res, s')"
    using assms by (simp add: persistToConfigMap_def f_def m_def)
  from retry [OF this] obtain s0 where r0: "retries f s s0" and f0: "f s0 = (res, s')" by blast
  have v: "view s0 = view s" using r0 fails by (rule retries_view)
  show ?thesis
  proof (cases res)
    case (Inl e)
    with f0 fails v show ?thesis by force
  next
    case (Inr u)
    with f0 obtain cm where "m s0 = (Inr cm, s')"
      by (auto simp: f_def dest!: wrapErr_InrE elim!: andThen_InrE)
    with v Inr show ?thesis unfolding m_def by auto
  qed
qed

lemma persist_fails: "persistToConfigMap K r s = (Inl e, s') \<Longrightarrow> view s' = view s"
  by (drule persist_cases) simp

text \<open>A registry that was persisted is in the ConfigMap, and the next operator reads it back.\<close>

lemma persist_stores:
  assumes "persistToConfigMap K r s = (Inr (), s')"
  shows "(\<exists>m. view s' = (view s)\<lparr>cl_cm := m\<rparr>) \<and>
    (\<exists>cm. cl_cm (view s') (configMapName r) = Some cm \<and>
      map_of (cm_Data cm) configMapKey = Some (JText (encodeEntries (reg_entries r))))"
proof -
  obtain s0 cm where v: "view s0 = view s" and c: "r_CreateOrUpdate (k_cm K) (configMapName r)
    (\<lambda>cm. Inr (cm\<lparr>cm_Data := AList.update configMapKey (JText (encodeEntries (reg_entries r))) (cm_Data cm)\<rparr>)) s0 = (Inr cm, s')"
    using persist_cases [OF assms] by auto
  have d: "map_of (cm_Data cm) configMapKey = Some (JText (encodeEntries (reg_entries r)))"
    and w: "view s' = cl_cm_update (\<lambda>m. m(configMapName r \<mapsto> cm)) (view s)"
    using cms.apply_ok [OF c] v by (auto simp: update_conv')
  show ?thesis
    using d cl_cm_updated [of "\<lambda>m. m(configMapName r \<mapsto> cm)" "view s"] by (simp add: w)
qed

lemma load_persisted:
  assumes "cl_cm (view s) (configMapName r) = Some cm"
    and "map_of (cm_Data cm) configMapKey = Some (JText (encodeEntries m))" and "ttls_fit m"
    and "loadFromConfigMap K r s = (res, s')" and "\<And>e. res \<noteq> Inl (Errorf ''fetching registry ConfigMap: '' [e])"
  shows "res = Inr (mergeEntries m r)"
proof (cases "r_Get (k_cm K) (configMapName r) s")
  case (Pair g s1)
  show ?thesis
  proof (cases g)
    case (Inl e)
    with Pair have "\<not> IsNotFound e" using assms(1) cms.get_absent by fastforce
    with assms(4,5) Pair Inl show ?thesis by (auto simp: loadFromConfigMap_def)
  next
    case (Inr cm')
    with Pair assms(1) have "cm' = cm" using cms.get_found by fastforce
    with assms Pair Inr show ?thesis
      by (simp add: loadFromConfigMap_def decode_encode_Entries)
  qed
qed

end

text \<open>C35. What one operator persists, the next one loads: a registry started on the ConfigMap
  that was written has exactly the entries of the registry that wrote it (reading the ConfigMap
  may fail, and then nothing is loaded).\<close>

theorem persist_load_roundtrip:
  assumes "kube_laws K view" and "persistToConfigMap K r s = (Inr (), s')"
    and "distinct (map fst (reg_entries r))" and "ttls_fit (reg_entries r)"
    and "reg_configMapName r = ''agentrax-registry''" and "reg_namespace r = ns" and "ns \<noteq> []"
    and "loadFromConfigMap K (NewRegistry (Some K) ns ttl) s' = (res, s'')"
    and "\<And>e. res \<noteq> Inl (Errorf ''fetching registry ConfigMap: '' [e])"
  shows "\<exists>r2. res = Inr r2 \<and> map_of (reg_entries r2) = map_of (reg_entries r)"
proof -
  let ?r0 = "NewRegistry (Some K) ns ttl"
  have name: "configMapName ?r0 = configMapName r"
    using assms(5-7) by (simp add: configMapName_def NewRegistry_def)
  obtain cm where "cl_cm (view s') (configMapName ?r0) = Some cm"
    and "map_of (cm_Data cm) configMapKey = Some (JText (encodeEntries (reg_entries r)))"
    using kube_laws.persist_stores [OF assms(1,2)] unfolding name by blast
  then have "res = Inr (mergeEntries (reg_entries r) ?r0)"
    by (rule kube_laws.load_persisted [OF assms(1) _ _ assms(4,8,9)])
  moreover have "reg_entries ?r0 = []" by (simp add: NewRegistry_def)
  ultimately show ?thesis
    using assms(3) by (simp add: mergeEntries_def map_of_merge)
qed

text \<open>A registry with one entry.\<close>

definition sample_registry :: "mem Registry" where
  "sample_registry = (NewRegistry (Some mem_kube) ''sys'' 0)
     \<lparr>reg_entries := [(''a/bot'', Some (zero_Entry\<lparr>ent_Namespace := ''a'', ent_Name := ''bot'', ent_Endpoint := ''http://bot'', ent_Tools := [''t''], ent_TTL := Minute\<rparr>))]\<rparr>"

theorem persist_load_roundtrip_witness:
  "let s' = snd (persistToConfigMap mem_kube sample_registry empty_mem);
       res = fst (loadFromConfigMap mem_kube (NewRegistry (Some mem_kube) ''sys'' 0) s')
   in \<exists>r2. res = Inr r2 \<and> map_of (reg_entries r2) = map_of (reg_entries sample_registry)"
proof -
  let ?s = "snd (persistToConfigMap mem_kube sample_registry empty_mem)"
  let ?l = "loadFromConfigMap mem_kube (NewRegistry (Some mem_kube) ''sys'' 0) ?s"
  have "fst (persistToConfigMap mem_kube sample_registry empty_mem) = Inr ()" by code_simp
  then have p: "persistToConfigMap mem_kube sample_registry empty_mem = (Inr (), ?s)" by (metis prod.collapse)
  have "(case fst ?l of Inl e \<Rightarrow> False | Inr r2 \<Rightarrow> True)" by code_simp
  then have f: "fst ?l \<noteq> Inl e" for e by auto
  have fit: "ttls_fit (reg_entries sample_registry)" by code_simp
  show ?thesis
    unfolding Let_def
    by (rule persist_load_roundtrip [OF mem.kube_laws_axioms p _ fit _ _ _ prod.collapse [symmetric] f])
      (simp_all add: sample_registry_def NewRegistry_def)
qed

text \<open>C39. A deregistration whose ConfigMap write fails is reported as failed; retrying it reports
  success and writes nothing, because the entry is already gone from memory: the ConfigMap
  keeps listing the agent.\<close>

theorem Deregister_retry_writes_nothing:
  assumes "kube_laws K view" and "reg_client r = Some K" and "Deregister ns name (r, s) = (Inl e, r', s')"
  shows "Deregister ns name (r', s') = (Inr (), r', s') \<and> cl_cm (view s') = cl_cm (view s)"
proof -
  from assms(3) have found: "map_of (reg_entries r) (key ns name) \<noteq> None"
    and r': "r' = r\<lparr>reg_entries := AList.delete (key ns name) (reg_entries r)\<rparr>"
    and p: "persist r' s = (Inl e, s')"
    by (auto simp: Deregister_def commit_eq prod_eq_iff split: if_splits)
  have "persistToConfigMap K r' s = (Inl e, s')"
    using p assms(2) by (simp add: persist_def r')
  from kube_laws.persist_fails [OF assms(1) this] show ?thesis
    by (simp add: Deregister_def r' delete_conv')
qed

theorem Deregister_retry_writes_nothing_witness:
  "let r = sample_registry; s = empty_mem\<lparr>m_faults := [True]\<rparr>;
       (res1, r', s') = Deregister ''a'' ''bot'' (r, s);
       (res2, r'', s'') = Deregister ''a'' ''bot'' (r', s')
   in res1 \<noteq> Inr () \<and> res2 = Inr () \<and> cl_cm (mem_view s'') = cl_cm (mem_view s)"
proof -
  let ?s = "empty_mem\<lparr>m_faults := [True]\<rparr>"
  obtain res1 r' s' where d: "Deregister ''a'' ''bot'' (sample_registry, ?s) = (res1, r', s')"
    by (metis prod.collapse)
  have "(case fst (Deregister ''a'' ''bot'' (sample_registry, ?s)) of Inl e \<Rightarrow> True | Inr u \<Rightarrow> False)" by code_simp
  with d obtain e where e: "res1 = Inl e" by (cases res1) auto
  have "reg_client sample_registry = Some mem_kube" by (simp add: sample_registry_def NewRegistry_def)
  from Deregister_retry_writes_nothing [OF mem.kube_laws_axioms this d [unfolded e]]
  show ?thesis by (simp add: d e Let_def)
qed


end
