(* ===== verification/Registrar.thy ===== *)
theory Registrar
  imports Registry
begin

text \<open>
  \<^verbatim>\<open>internal/registry/mcp_client.go\<close> and \<^verbatim>\<open>mcp_registrar.go\<close>: the MCP handshake, and the registrar
  that turns handshakes into entries of the registry and counts failed probes.

  The HTTP transport of the handshake is an argument: a function from the URL and the JSON
  body that is posted to the status code, the body decoded as JSON, and the body as text.
\<close>

section \<open>The MCP client\<close>

type_synonym 's httpPost = "string \<Rightarrow> json \<Rightarrow> ('s, nat \<times> jtext \<times> string) act"

record mcpError =
  err_Code :: int
  err_Message :: string

record mcpInitializeResult =
  ires_Available :: "string list option"
  ires_Tools :: "string list"

record mcpInitializeResponse =
  iresp_Result :: "mcpInitializeResult option"
  iresp_Error :: "mcpError option"

definition trimRightSlash :: "string \<Rightarrow> string" where
  "trimRightSlash s = rev (dropWhile (\<lambda>c. c = CHR ''/'') (rev s))"

definition hasSuffix :: "string \<Rightarrow> string \<Rightarrow> bool" where
  "hasSuffix s suf \<longleftrightarrow> length suf \<le> length s \<and> drop (length s - length suf) s = suf"

definition initializeURL :: "string \<Rightarrow> string" where
  "initializeURL endpoint =
    (let url = trimRightSlash endpoint in if hasSuffix url ''/initialize'' then url else url @ ''/initialize'')"

definition mcpInitializeRequest :: json where
  "mcpInitializeRequest = JObj
    [(''jsonrpc'', JStr ''2.0''), (''id'', JNum 1), (''method'', JStr ''initialize''),
     (''params'', JObj
       [(''protocolVersion'', JStr ''2024-11-05''),
        (''clientInfo'', JObj [(''name'', JStr ''agentrax''), (''version'', JStr ''1.0'')]),
        (''capabilities'', JObj [])])]"

text \<open>Decoding the response. A pointer field is set by an object and cleared by \<open>null\<close>; the
  fields the handshake does not use are only checked for their types.\<close>

definition setNamed :: "string \<Rightarrow> json \<Rightarrow> string \<Rightarrow> goerr + string" where
  "setNamed f v old = (if f = ''name'' then decodeString old v else Inr old)"

definition setInfo :: "string \<Rightarrow> json \<Rightarrow> unit \<Rightarrow> goerr + unit" where
  "setInfo f v old = (if f = ''name'' \<or> f = ''version'' then mapRight (\<lambda>x. ()) (decodeString [] v) else Inr old)"

fun decodeBool :: "json \<Rightarrow> goerr + unit" where
  "decodeBool JNull = Inr ()"
| "decodeBool (JBool b) = Inr ()"
| "decodeBool v = Inl (typeError ''bool'')"

definition setToolsCapability :: "string \<Rightarrow> json \<Rightarrow> string list \<Rightarrow> goerr + string list" where
  "setToolsCapability f v old =
    (if f = ''available'' then decodeStrings old v
     else if f = ''list'' then mapRight (\<lambda>x. old) (decodeBool v)
     else Inr old)"

definition setCapabilities :: "string \<Rightarrow> json \<Rightarrow> string list option \<Rightarrow> goerr + string list option" where
  "setCapabilities f v old =
    (if f = ''tools'' then
       (if v = JNull then Inr None
        else mapRight Some (decodeStruct ''mcpToolsCapability'' setToolsCapability v (case old of None \<Rightarrow> [] | Some a \<Rightarrow> a)))
     else Inr old)"

fun decodeTools :: "json \<Rightarrow> goerr + string list" where
  "decodeTools JNull = Inr []"
| "decodeTools (JArr vs) = traverse (\<lambda>v. decodeStruct ''mcpToolDefinition'' setNamed v []) vs"
| "decodeTools v = Inl (typeError ''[]mcpToolDefinition'')"

definition setResult :: "string \<Rightarrow> json \<Rightarrow> mcpInitializeResult \<Rightarrow> goerr + mcpInitializeResult" where
  "setResult f v res =
    (if f = ''protocolversion'' then mapRight (\<lambda>x. res) (decodeString [] v)
     else if f = ''capabilities'' then
       mapRight (\<lambda>a. res\<lparr>ires_Available := a\<rparr>) (decodeStruct ''mcpCapabilities'' setCapabilities v (ires_Available res))
     else if f = ''serverinfo'' then mapRight (\<lambda>x. res) (decodeStruct ''mcpClientInfo'' setInfo v ())
     else if f = ''tools'' then mapRight (\<lambda>ts. res\<lparr>ires_Tools := ts\<rparr>) (decodeTools v)
     else Inr res)"

definition setError :: "string \<Rightarrow> json \<Rightarrow> mcpError \<Rightarrow> goerr + mcpError" where
  "setError f v e =
    (if f = ''code'' then mapRight (\<lambda>c. e\<lparr>err_Code := c\<rparr>) (decodeInt64 (err_Code e) v)
     else if f = ''message'' then mapRight (\<lambda>m. e\<lparr>err_Message := m\<rparr>) (decodeString (err_Message e) v)
     else Inr e)"

definition setResponse :: "string \<Rightarrow> json \<Rightarrow> mcpInitializeResponse \<Rightarrow> goerr + mcpInitializeResponse" where
  "setResponse f v resp =
    (if f = ''jsonrpc'' then mapRight (\<lambda>x. resp) (decodeString [] v)
     else if f = ''id'' then mapRight (\<lambda>x. resp) (decodeInt64 0 v)
     else if f = ''result'' then
       (if v = JNull then Inr (resp\<lparr>iresp_Result := None\<rparr>)
        else mapRight (\<lambda>x. resp\<lparr>iresp_Result := Some x\<rparr>)
          (decodeStruct ''mcpInitializeResult'' setResult v
            (case iresp_Result resp of None \<Rightarrow> \<lparr>ires_Available = None, ires_Tools = []\<rparr> | Some old \<Rightarrow> old)))
     else if f = ''error'' then
       (if v = JNull then Inr (resp\<lparr>iresp_Error := None\<rparr>)
        else mapRight (\<lambda>x. resp\<lparr>iresp_Error := Some x\<rparr>)
          (decodeStruct ''mcpError'' setError v
            (case iresp_Error resp of None \<Rightarrow> \<lparr>err_Code = 0, err_Message = []\<rparr> | Some old \<Rightarrow> old)))
     else Inr resp)"

definition decodeResponse :: "jtext \<Rightarrow> goerr + mcpInitializeResponse" where
  "decodeResponse body = (case body of
     JText v \<Rightarrow> decodeStruct ''mcpInitializeResponse'' setResponse v \<lparr>iresp_Result = None, iresp_Error = None\<rparr>
   | JEmpty \<Rightarrow> Inl (ErrNew ''EOF'')
   | JMalformed \<Rightarrow> Inl (ErrNew ''invalid character''))"

text \<open>Available tools are taken first, then the definitions that have a name.\<close>

definition extractTools :: "mcpInitializeResult \<Rightarrow> string list" where
  "extractTools res = (case ires_Available res of
     Some a \<Rightarrow> if a \<noteq> [] then a else filter (\<lambda>t. t \<noteq> []) (ires_Tools res)
   | None \<Rightarrow> filter (\<lambda>t. t \<noteq> []) (ires_Tools res))"

definition Initialize :: "'s httpPost \<Rightarrow> string \<Rightarrow> ('s, string list) act" where
  "Initialize post endpoint =
    (let url = initializeURL endpoint in
     andThen (wrapErr (''sending MCP initialize to '' @ url @ '': '') (post url mcpInitializeRequest))
       (\<lambda>(status, body, txt).
          if status \<noteq> 200 then
            fail (ErrNew (''MCP initialize returned HTTP '' @ show_nat status @ '': '' @ take 4096 txt))
          else (case decodeResponse body of
            Inl err \<Rightarrow> fail (Errorf ''decoding MCP initialize response: '' [err])
          | Inr resp \<Rightarrow> (case iresp_Error resp of
              Some e \<Rightarrow> fail (ErrNew (''MCP initialize RPC error (code '' @ show_int (err_Code e) @ ''): '' @ err_Message e))
            | None \<Rightarrow> (case iresp_Result resp of
                None \<Rightarrow> fail (ErrNew ''MCP initialize response missing result object'')
              | Some res \<Rightarrow> ret (extractTools res))))))"

section \<open>The registrar\<close>

text \<open>\<open>MCPClient\<close> is an interface: its one method is a field. The registry pointer may be nil.\<close>

type_synonym 's MCPClient = "string \<Rightarrow> ('s, string list) act"

record 's Registrar =
  rr_Registry :: "'s Registry option"
  rr_MCPClient :: "'s MCPClient"
  rr_failures :: "(string \<times> int) list"

abbreviation MaxConsecutiveHeartbeatFailures :: int where
  "MaxConsecutiveHeartbeatFailures \<equiv> 3"

definition ErrHeartbeatDeregistered :: goerr where
  "ErrHeartbeatDeregistered = ErrNew ''deregistered after consecutive heartbeat failures''"

definition NewRegistrar :: "'s Registry option \<Rightarrow> 's MCPClient option \<Rightarrow> 's httpPost \<Rightarrow> 's Registrar" where
  "NewRegistrar reg client post =
    \<lparr>rr_Registry = reg, rr_MCPClient = (case client of None \<Rightarrow> Initialize post | Some c \<Rightarrow> c), rr_failures = []\<rparr>"

definition EndpointForAgent :: "AgentDeployment \<Rightarrow> string" where
  "EndpointForAgent ad =
    (let port = (if spec_Port (ad_Spec ad) = 0 then 8080 else spec_Port (ad_Spec ad))
     in ''http://'' @ ad_Name ad @ ''.'' @ ad_Namespace ad @ ''.svc:'' @ show_int32 port)"

type_synonym ('s, 'a) rrAct = "('s Registrar \<times> 's, 'a) act"

text \<open>Calling the MCP client, and calling an operation of the registry.\<close>

definition callMCP :: "string \<Rightarrow> ('s, string list) rrAct" where
  "callMCP endpoint = (\<lambda>(rr, s). case rr_MCPClient rr endpoint s of (res, s') \<Rightarrow> (res, rr, s'))"

definition callRegistry :: "('s, unit) regAct \<Rightarrow> ('s, unit) rrAct" where
  "callRegistry f = (\<lambda>(rr, s). case rr_Registry rr of
     None \<Rightarrow> (Inl nilDeref, rr, s)
   | Some r \<Rightarrow> (case f (r, s) of (res, r', s') \<Rightarrow> (res, rr\<lparr>rr_Registry := Some r'\<rparr>, s')))"

definition resetFailures :: "string \<Rightarrow> string \<Rightarrow> ('s, unit) rrAct" where
  "resetFailures ns name = (\<lambda>(rr, s).
    (Inr (), rr\<lparr>rr_failures := AList.delete (ns @ ''/'' @ name) (rr_failures rr)\<rparr>, s))"

definition incrementFailures :: "string \<Rightarrow> string \<Rightarrow> ('s, int) rrAct" where
  "incrementFailures ns name = (\<lambda>(rr, s).
    let k = ns @ ''/'' @ name;
        n = (case map_of (rr_failures rr) k of None \<Rightarrow> 0 | Some c \<Rightarrow> c) + 1
    in (Inr n, rr\<lparr>rr_failures := AList.update k n (rr_failures rr)\<rparr>, s))"

text \<open>The tools of the specification that the handshake did not report, each once, in order.\<close>

fun newTools :: "string list \<Rightarrow> string list \<Rightarrow> string list" where
  "newTools seen [] = []"
| "newTools seen (t # ts) = (if t \<in> set seen then newTools seen ts else t # newTools (t # seen) ts)"

definition combineTools :: "string list \<Rightarrow> string list \<Rightarrow> string list" where
  "combineTools tools declared = tools @ newTools tools declared"

text \<open>\<open>strings.Contains\<close>, with its arguments in the other order.\<close>

fun contains :: "string \<Rightarrow> string \<Rightarrow> bool" where
  "contains sub [] \<longleftrightarrow> sub = []"
| "contains sub (c # cs) \<longleftrightarrow> take (length sub) (c # cs) = sub \<or> contains sub cs"

definition RegisterAgent :: "time \<Rightarrow> AgentDeployment \<Rightarrow> ('s, unit) rrAct" where
  "RegisterAgent now ad = (\<lambda>(rr, s).
    if rr_Registry rr = None then (Inl (ErrNew ''registry not initialized''), rr, s)
    else (let endpoint = EndpointForAgent ad in
      andThen (wrapErr (''MCP handshake with '' @ endpoint @ '' failed: '') (callMCP endpoint)) (\<lambda>tools.
      andThen (wrapErr ''registering agent in store: ''
        (callRegistry (Register now
          (zero_Entry\<lparr>ent_Namespace := ad_Namespace ad, ent_Name := ad_Name ad, ent_Endpoint := endpoint,
            ent_Tools := combineTools tools (mcp_Tools (spec_MCP (ad_Spec ad)))\<rparr>)))) (\<lambda>u.
      resetFailures (ad_Namespace ad) (ad_Name ad)))) (rr, s))"

definition DeregisterAgent :: "AgentDeployment \<Rightarrow> ('s, unit) rrAct" where
  "DeregisterAgent ad = (\<lambda>(rr, s).
    if rr_Registry rr = None then (Inr (), rr, s)
    else andThen (resetFailures (ad_Namespace ad) (ad_Name ad)) (\<lambda>u.
      callRegistry (Deregister (ad_Namespace ad) (ad_Name ad))) (rr, s))"

definition HeartbeatAgent :: "time \<Rightarrow> AgentDeployment \<Rightarrow> ('s, unit) rrAct" where
  "HeartbeatAgent now ad = (\<lambda>(rr, s).
    if rr_Registry rr = None then (Inr (), rr, s)
    else catchErr (callMCP (EndpointForAgent ad))
      (\<lambda>err. andThen (incrementFailures (ad_Namespace ad) (ad_Name ad)) (\<lambda>failCount.
         if MaxConsecutiveHeartbeatFailures \<le> failCount then
           catchErr (callRegistry (Deregister (ad_Namespace ad) (ad_Name ad)))
             (\<lambda>deregErr. fail (Errorf (''failed to deregister after '' @ show_int failCount @ '' consecutive heartbeat failures: '')
                [deregErr, ErrNew ('' (latest probe error: '' @ err_text err @ '')'')]))
             (\<lambda>u. fail (Errorf []
                [ErrHeartbeatDeregistered,
                 ErrNew ('': deregistered after '' @ show_int failCount @ '' consecutive heartbeat failures (latest error: ''),
                 err, ErrNew '')'']))
         else fail (Errorf (''heartbeat probe failed ('' @ show_int failCount @ ''/3): '') [err])))
      (\<lambda>tools. andThen (resetFailures (ad_Namespace ad) (ad_Name ad)) (\<lambda>u.
         catchErr (callRegistry (Heartbeat now (ad_Namespace ad) (ad_Name ad)))
           (\<lambda>hbErr. if contains ''not found in registry'' (err_text hbErr) then RegisterAgent now ad else fail hbErr)
           (\<lambda>u. ret ()))) (rr, s))"

section \<open>Handshakes and tools\<close>

lemma set_newTools: "set (newTools seen ts) = set ts - set seen"
  by (induction ts arbitrary: seen) auto

lemma distinct_newTools: "distinct (newTools seen ts)"
  by (induction ts arbitrary: seen) (auto simp: set_newTools)

text \<open>The tools of an entry are those the agent reported followed by the declared ones it did
  not report: every tool of either list, and no tool added twice.\<close>

lemma combineTools_spec:
  "set (combineTools tools declared) = set tools \<union> set declared"
  "take (length tools) (combineTools tools declared) = tools"
  "distinct tools \<Longrightarrow> distinct (combineTools tools declared)"
  by (auto simp: combineTools_def set_newTools distinct_newTools)

section \<open>Effect of the registrar's operations\<close>

abbreviation agentKey :: "AgentDeployment \<Rightarrow> string" where
  "agentKey ad \<equiv> key (ad_Namespace ad) (ad_Name ad)"

definition failCount :: "'s Registrar \<Rightarrow> AgentDeployment \<Rightarrow> int" where
  "failCount rr ad = (case map_of (rr_failures rr) (agentKey ad) of None \<Rightarrow> 0 | Some n \<Rightarrow> n)"

text \<open>The agent has an entry in the registry.\<close>

definition isListed :: "'s Registrar \<Rightarrow> string \<Rightarrow> string \<Rightarrow> bool" where
  "isListed rr ns name = (case rr_Registry rr of None \<Rightarrow> False | Some r \<Rightarrow> map_of (reg_entries r) (key ns name) \<noteq> None)"

lemma failCount_key: "ns @ CHR ''/'' # name = key ns name"
  by (simp add: key_def)

lemma Deregister_removes:
  assumes "Deregister ns name (r, s) = (res, r', s')"
  shows "map_of (reg_entries r') = (map_of (reg_entries r))(key ns name := None)"
  using Deregister_effect [OF assms] by (simp add: delete_conv')

lemma Register_adds:
  assumes "Register now e (r, s) = (Inr u, r', s')"
  shows "map_of (reg_entries r') (key (ent_Namespace e) (ent_Name e)) \<noteq> None"
  using assms by (auto simp: Register_def Let_def commit_eq update_conv' prod_eq_iff split: if_splits option.splits)

lemma RegisterAgent_adds:
  assumes "RegisterAgent now ad (rr, s) = (Inr u, rr', s')"
  shows "isListed rr' (ad_Namespace ad) (ad_Name ad) \<and> failCount rr' ad = 0"
  using assms
  by (auto simp: RegisterAgent_def isListed_def failCount_def Let_def callMCP_def callRegistry_def resetFailures_def
      failCount_key delete_conv' dest!: Register_adds wrapErr_InrE
      elim!: andThen_InrE split: if_splits option.splits prod.splits)

lemma DeregisterAgent_removes:
  assumes "DeregisterAgent ad (rr, s) = (res, rr', s')"
  shows "\<not> isListed rr' (ad_Namespace ad) (ad_Name ad)"
  using assms
  by (auto simp: DeregisterAgent_def isListed_def andThen_def callRegistry_def resetFailures_def
      dest: Deregister_removes split: if_splits option.splits prod.splits sum.splits)

lemma Deregister_listed:
  "Deregister ns name (r, s) = (res, r', s') \<Longrightarrow> map_of (reg_entries r') k = (if k = key ns name then None else map_of (reg_entries r) k)"
  by (simp add: Deregister_removes)

lemma heartbeat_probe_failed:
  "rr_Registry rr = Some r \<Longrightarrow> rr_MCPClient rr (EndpointForAgent ad) s = (Inl err, s1) \<Longrightarrow>
   \<exists>e st. HeartbeatAgent now ad (rr, s) = (Inl e, st)"
  by (auto simp: HeartbeatAgent_def catchErr_def andThen_def callMCP_def callRegistry_def incrementFailures_def Let_def
      split: prod.splits sum.splits)

text \<open>C36. Three strikes. A failed probe adds one to the agent's count and is reported. Up to the
  second in a row the registry is left as it is; from the third on the agent's entry, and no
  other, is removed, and the error says so when the removal could be persisted.\<close>

theorem heartbeat_three_strikes:
  assumes "rr_Registry rr = Some r" and "rr_MCPClient rr (EndpointForAgent ad) s = (Inl err, s1)"
    and "HeartbeatAgent now ad (rr, s) = (res, rr', s')"
  shows "failCount rr' ad = failCount rr ad + 1 \<and>
    (if failCount rr ad + 1 < 3 then rr_Registry rr' = Some r \<and> s' = s1 \<and> (\<exists>m. res = Inl (Errorf m [err]))
     else (\<exists>r'. rr_Registry rr' = Some r' \<and>
       (\<forall>k. map_of (reg_entries r') k = (if k = agentKey ad then None else map_of (reg_entries r) k)) \<and>
       (case Deregister (ad_Namespace ad) (ad_Name ad) (r, s1) of
          (Inr u, st) \<Rightarrow> \<exists>e. res = Inl e \<and> err_is e ErrHeartbeatDeregistered
        | (Inl d, st) \<Rightarrow> \<exists>m t. res = Inl (Errorf m [d, ErrNew t]))))"
proof -
  obtain dres r' s2 where d: "Deregister (ad_Namespace ad) (ad_Name ad) (r, s1) = (dres, r', s2)"
    by (metis prod.collapse)
  show ?thesis
    using assms Deregister_listed [OF d]
    by (cases dres)
      (auto simp: HeartbeatAgent_def catchErr_def andThen_def callMCP_def callRegistry_def incrementFailures_def Let_def
        failCount_def failCount_key update_conv' d split: option.splits if_splits)
qed

text \<open>An agent, and a registrar on which its probes fail or succeed.\<close>

definition sample_agent :: AgentDeployment where
  "sample_agent = (zero_AgentDeployment \<lparr>nn_Namespace = ''a'', nn_Name = ''bot''\<rparr>)\<lparr>ad_Spec := sample_spec ''team'' ''1'' 3\<rparr>"

definition sample_registrar :: "bool \<Rightarrow> mem Registrar" where
  "sample_registrar up = \<lparr>rr_Registry = Some sample_registry,
     rr_MCPClient = (if up then (\<lambda>endpoint. ret [''t'']) else (\<lambda>endpoint. fail (ErrNew ''refused''))),
     rr_failures = [(''a/bot'', 2)]\<rparr>"

theorem heartbeat_three_strikes_witness:
  "\<exists>r'. rr_Registry (fst (snd (HeartbeatAgent 0 sample_agent (sample_registrar False, empty_mem)))) = Some r' \<and>
    map_of (reg_entries r') ''a/bot'' = None"
proof -
  let ?h = "HeartbeatAgent 0 sample_agent (sample_registrar False, empty_mem)"
  have k: "agentKey sample_agent = ''a/bot''"
    by (simp add: sample_agent_def zero_AgentDeployment_def zero_ObjectMeta_def key_def)
  have c: "failCount (sample_registrar False) sample_agent = 2"
    by (simp add: failCount_def k sample_registrar_def)
  have "rr_Registry (sample_registrar False) = Some sample_registry"
    and "rr_MCPClient (sample_registrar False) (EndpointForAgent sample_agent) empty_mem = (Inl (ErrNew ''refused''), empty_mem)"
    and "?h = (fst ?h, fst (snd ?h), snd (snd ?h))"
    by (simp_all add: sample_registrar_def)
  from heartbeat_three_strikes [OF this] show ?thesis
    by (auto simp: c k)
qed

lemma lease_fresh: "ent_HeartbeatAt e = now \<Longrightarrow> 0 < reg_defaultTTL r \<Longrightarrow> \<not> expired r now e"
  by (simp add: expired_def entryTTL_def time_sub_def)

lemma Register_lease:
  assumes "registry_ok r" and "0 < reg_defaultTTL r" and "Register now e (r, s) = (Inr u, r', s')"
  shows "registry_ok r' \<and> (\<exists>e'. Get now (ent_Namespace e) (ent_Name e) r' = Inr (Some e') \<and> ent_HeartbeatAt e' = now)"
  using Register_effect [OF assms(3,1)] Register_ok [OF assms(1,3)] lease_fresh [OF _ assms(2)]
  by (auto simp: Get_def update_conv')

lemma Heartbeat_lease:
  assumes "registry_ok r" and "0 < reg_defaultTTL r" and "Heartbeat now ns name (r, s) = (Inr u, r', s')"
  shows "registry_ok r' \<and> (\<exists>e'. Get now ns name r' = Inr (Some e') \<and> ent_HeartbeatAt e' = now)"
proof (cases "map_of (reg_entries r) (key ns name)")
  case None
  then show ?thesis using assms by (simp add: Heartbeat_def)
next
  case (Some p)
  then obtain e where "map_of (reg_entries r) (key ns name) = Some (Some e)"
    using assms(3) by (cases p) (auto simp: Heartbeat_def)
  then show ?thesis
    using assms(3) Heartbeat_ok [OF assms(1,3)] lease_fresh [of "e\<lparr>ent_HeartbeatAt := now\<rparr>", OF _ assms(2)]
    by (auto simp: Heartbeat_def Get_def update_conv')
qed

lemma callRegistry_Some:
  "rr_Registry rr = Some r \<Longrightarrow> f (r, s) = (res, r', s') \<Longrightarrow> callRegistry f (rr, s) = (res, rr\<lparr>rr_Registry := Some r'\<rparr>, s')"
  by (simp add: callRegistry_def)

lemma RegisterAgent_lease:
  assumes "rr_Registry rr = Some r" and "registry_ok r" and "0 < reg_defaultTTL r"
    and "RegisterAgent now ad (rr, s) = (Inr u, rr', s')"
  shows "failCount rr' ad = 0 \<and>
    (\<exists>r' e. rr_Registry rr' = Some r' \<and> registry_ok r' \<and>
      Get now (ad_Namespace ad) (ad_Name ad) r' = Inr (Some e) \<and> ent_HeartbeatAt e = now)"
proof -
  from assms(1,4) obtain tools s1 r' where
    reg: "Register now (zero_Entry\<lparr>ent_Namespace := ad_Namespace ad, ent_Name := ad_Name ad,
        ent_Endpoint := EndpointForAgent ad, ent_Tools := combineTools tools (mcp_Tools (spec_MCP (ad_Spec ad)))\<rparr>)
      (r, s1) = (Inr (), r', s')"
    and rr': "rr_Registry rr' = Some r'"
    by (auto simp: RegisterAgent_def Let_def callMCP_def callRegistry_def resetFailures_def
        dest!: wrapErr_InrE elim!: andThen_InrE split: prod.splits)
  show ?thesis
    using Register_lease [OF assms(2,3) reg] rr' RegisterAgent_adds [OF assms(4)] by auto
qed

text \<open>C37. A heartbeat that succeeds leaves the agent registered with a lease that starts now, and
  its count of failures at zero, also when the sweeper had removed its entry before.\<close>

theorem heartbeat_renews_lease:
  assumes "rr_Registry rr = Some r" and "registry_ok r" and "0 < reg_defaultTTL r"
    and "HeartbeatAgent now ad (rr, s) = (Inr u, rr', s')"
  shows "failCount rr' ad = 0 \<and>
    (\<exists>r' e. rr_Registry rr' = Some r' \<and> registry_ok r' \<and>
      Get now (ad_Namespace ad) (ad_Name ad) r' = Inr (Some e) \<and> ent_HeartbeatAt e = now)"
proof -
  obtain pres s1 where p: "rr_MCPClient rr (EndpointForAgent ad) s = (pres, s1)"
    by (metis prod.collapse)
  obtain tools where pres: "pres = Inr tools"
  proof (cases pres)
    case (Inl err)
    then show ?thesis
      using heartbeat_probe_failed [OF assms(1) p [unfolded Inl], of now] assms(4) by auto
  qed
  define rr1 where "rr1 = rr\<lparr>rr_failures := AList.delete (agentKey ad) (rr_failures rr)\<rparr>"
  have rr1: "rr_Registry rr1 = Some r" and f1: "failCount rr1 ad = 0"
    using assms(1) by (simp_all add: rr1_def failCount_def delete_conv')
  obtain hres r2 s2 where h: "Heartbeat now (ad_Namespace ad) (ad_Name ad) (r, s1) = (hres, r2, s2)"
    by (metis prod.collapse)
  have hb: "HeartbeatAgent now ad (rr, s) = (case hres of
      Inr u \<Rightarrow> (Inr (), rr1\<lparr>rr_Registry := Some r2\<rparr>, s2)
    | Inl e \<Rightarrow> if contains ''not found in registry'' (err_text e) then RegisterAgent now ad (rr1\<lparr>rr_Registry := Some r2\<rparr>, s2)
        else (Inl e, rr1\<lparr>rr_Registry := Some r2\<rparr>, s2))"
    using assms(1) p pres callRegistry_Some [OF rr1, of "Heartbeat now (ad_Namespace ad) (ad_Name ad)" s1, OF h]
    by (auto simp: HeartbeatAgent_def catchErr_def andThen_def callMCP_def resetFailures_def failCount_key rr1_def split: sum.splits)
  show ?thesis
  proof (cases hres)
    case (Inr v)
    then show ?thesis
      using hb assms(4) Heartbeat_lease [OF assms(2,3) h [unfolded Inr]] f1 by (auto simp: failCount_def)
  next
    case (Inl e)
    have "r2 = r" using h Inl by (auto simp: Heartbeat_def split: option.splits)
    then have "RegisterAgent now ad (rr1\<lparr>rr_Registry := Some r\<rparr>, s2) = (Inr u, rr', s')"
      using hb assms(4) Inl by (auto split: if_splits)
    from RegisterAgent_lease [OF _ assms(2,3) this] show ?thesis by simp
  qed
qed

theorem heartbeat_renews_lease_witness:
  "\<exists>r' e. rr_Registry (fst (snd (HeartbeatAgent 7 sample_agent (sample_registrar True, empty_mem)))) = Some r' \<and>
    Get 7 ''a'' ''bot'' r' = Inr (Some e) \<and> ent_HeartbeatAt e = 7"
proof -
  let ?h = "HeartbeatAgent 7 sample_agent (sample_registrar True, empty_mem)"
  have a: "ad_Namespace sample_agent = ''a''" "ad_Name sample_agent = ''bot''"
    by (simp_all add: sample_agent_def zero_AgentDeployment_def zero_ObjectMeta_def)
  have ok: "registry_ok sample_registry"
    by (simp add: entries_ok_def sample_registry_def key_def)
  have "fst ?h = Inr ()" by code_simp
  then have h: "?h = (Inr (), fst (snd ?h), snd (snd ?h))" by (metis prod.collapse)
  have "rr_Registry (sample_registrar True) = Some sample_registry" and "0 < reg_defaultTTL sample_registry"
    by (simp_all add: sample_registrar_def sample_registry_def NewRegistry_def)
  from heartbeat_renews_lease [OF this(1) ok this(2) h] show ?thesis
    by (auto simp: a)
qed

section \<open>The registrar as the controllers see it\<close>

text \<open>The interface \<open>AgentRegistrar\<close> of the reconciler, over the state of its caller.\<close>

record 's AgentRegistrar =
  ar_Register :: "AgentDeployment \<Rightarrow> ('s, unit) act"
  ar_Deregister :: "AgentDeployment \<Rightarrow> ('s, unit) act"
  ar_Heartbeat :: "AgentDeployment \<Rightarrow> ('s, unit) act"

text \<open>What the reconciler relies on: success of \<open>Register\<close> and \<open>Deregister\<close> means that the agent
  is, or is not, listed; the error \<open>ErrHeartbeatDeregistered\<close> means that it is not; and of the
  cluster only ConfigMaps are written.\<close>

locale agent_registrar =
  fixes A :: "'s AgentRegistrar"
    and listed :: "'s \<Rightarrow> string \<Rightarrow> string \<Rightarrow> bool"
    and view :: "'s \<Rightarrow> cluster"
  assumes register_lists: "ar_Register A ad s = (Inr u, s') \<Longrightarrow> listed s' (ad_Namespace ad) (ad_Name ad)"
    and deregister_unlists: "ar_Deregister A ad s = (Inr u, s') \<Longrightarrow> \<not> listed s' (ad_Namespace ad) (ad_Name ad)"
    and strike_unlists: "ar_Heartbeat A ad s = (Inl e, s') \<Longrightarrow> err_is e ErrHeartbeatDeregistered \<Longrightarrow>
      \<not> listed s' (ad_Namespace ad) (ad_Name ad)"
    and heartbeat_lists: "ar_Heartbeat A ad s = (Inr u, s') \<Longrightarrow> listed s' (ad_Namespace ad) (ad_Name ad)"
    and register_view: "ar_Register A ad s = (res, s') \<Longrightarrow> \<exists>m. view s' = (view s)\<lparr>cl_cm := m\<rparr>"
    and deregister_view: "ar_Deregister A ad s = (res, s') \<Longrightarrow> \<exists>m. view s' = (view s)\<lparr>cl_cm := m\<rparr>"
    and heartbeat_view: "ar_Heartbeat A ad s = (res, s') \<Longrightarrow> \<exists>m. view s' = (view s)\<lparr>cl_cm := m\<rparr>"

text \<open>The registrar of the program behind that interface: its registry persists through \<open>K\<close>,
  and the state is the map of entries, the map of failure counts and the state of the client.\<close>

type_synonym 's registrarState = "((string \<times> Entry option) list \<times> (string \<times> int) list) \<times> 's"

definition mkRegistrar :: "'s kube \<Rightarrow> 's MCPClient \<Rightarrow> string \<Rightarrow> duration \<Rightarrow>
    (string \<times> Entry option) list \<times> (string \<times> int) list \<Rightarrow> 's Registrar" where
  "mkRegistrar K mcp ns ttl st =
    \<lparr>rr_Registry = Some ((NewRegistry (Some K) ns ttl)\<lparr>reg_entries := fst st\<rparr>), rr_MCPClient = mcp, rr_failures = snd st\<rparr>"

definition registrarState :: "'s Registrar \<Rightarrow> (string \<times> Entry option) list \<times> (string \<times> int) list" where
  "registrarState rr = (case rr_Registry rr of None \<Rightarrow> [] | Some r \<Rightarrow> reg_entries r, rr_failures rr)"

definition runRegistrar :: "'s kube \<Rightarrow> 's MCPClient \<Rightarrow> string \<Rightarrow> duration \<Rightarrow> ('s, unit) rrAct \<Rightarrow> ('s registrarState, unit) act" where
  "runRegistrar K mcp ns ttl f = (\<lambda>(st, s).
    case f (mkRegistrar K mcp ns ttl st, s) of (res, rr', s') \<Rightarrow> (res, registrarState rr', s'))"

definition registrarOps :: "'s kube \<Rightarrow> 's MCPClient \<Rightarrow> string \<Rightarrow> duration \<Rightarrow> ('s \<Rightarrow> time) \<Rightarrow> ('s registrarState) AgentRegistrar" where
  "registrarOps K mcp ns ttl clock =
    \<lparr>ar_Register = \<lambda>ad st. runRegistrar K mcp ns ttl (RegisterAgent (clock (snd st)) ad) st,
     ar_Deregister = \<lambda>ad st. runRegistrar K mcp ns ttl (DeregisterAgent ad) st,
     ar_Heartbeat = \<lambda>ad st. runRegistrar K mcp ns ttl (HeartbeatAgent (clock (snd st)) ad) st\<rparr>"

definition listedIn :: "'s registrarState \<Rightarrow> string \<Rightarrow> string \<Rightarrow> bool" where
  "listedIn st ns name \<longleftrightarrow> map_of (fst (fst st)) (key ns name) \<noteq> None"

lemma listedIn_listed: "rr_Registry rr \<noteq> None \<Longrightarrow> listedIn (registrarState rr, s) ns name \<longleftrightarrow> isListed rr ns name"
  by (auto simp: listedIn_def isListed_def registrarState_def)

text \<open>An operation of the registry is a commit of a new map of entries, or changes nothing.\<close>

lemma Register_commit:
  "(\<exists>err. Register now e (r, s) = (Inl err, r, s) \<and> \<not> err_is err ErrHeartbeatDeregistered) \<or>
   (\<exists>m. Register now e (r, s) = commit (r\<lparr>reg_entries := m\<rparr>) (r, s))"
  by (auto simp: Register_def Let_def ErrHeartbeatDeregistered_def split: option.splits)

lemma Deregister_commit:
  "Deregister ns name (r, s) = (Inr (), r, s) \<or> (\<exists>m. Deregister ns name (r, s) = commit (r\<lparr>reg_entries := m\<rparr>) (r, s))"
  by (auto simp: Deregister_def)

lemma cl_cm_same: "\<exists>m. c = c\<lparr>cl_cm := m\<rparr>" for c :: cluster
  by (rule exI [of _ "cl_cm c"]) simp

context kube_laws
begin

lemma commit_view:
  assumes "reg_client r = Some K" and "commit (r\<lparr>reg_entries := m\<rparr>) (r, s) = (res, r', s')"
  shows "\<exists>m. view s' = (view s)\<lparr>cl_cm := m\<rparr>"
proof -
  have p: "persistToConfigMap K (r\<lparr>reg_entries := m\<rparr>) s = (res, s')"
    using assms by (auto simp: commit_eq persist_def prod_eq_iff)
  show ?thesis
  proof (cases res)
    case (Inl e)
    with p show ?thesis using persist_fails cl_cm_same by metis
  next
    case (Inr u)
    with p show ?thesis using persist_stores by simp
  qed
qed

lemma Register_view:
  "reg_client r = Some K \<Longrightarrow> Register now e (r, s) = (res, r', s') \<Longrightarrow> \<exists>m. view s' = (view s)\<lparr>cl_cm := m\<rparr>"
  using Register_commit [of now e r s] commit_view [of r _ s res r' s'] cl_cm_same [of "view s"] by auto

lemma Deregister_view:
  "reg_client r = Some K \<Longrightarrow> Deregister ns name (r, s) = (res, r', s') \<Longrightarrow> \<exists>m. view s' = (view s)\<lparr>cl_cm := m\<rparr>"
  using Deregister_commit [of ns name r s] commit_view [of r _ s res r' s'] cl_cm_same [of "view s"] by auto

end

text \<open>The handshake with the agent: it leaves the cluster alone, and its errors are its own.\<close>

definition mcp_frame :: "('s \<Rightarrow> cluster) \<Rightarrow> 's MCPClient \<Rightarrow> bool" where
  "mcp_frame view mcp \<longleftrightarrow> (\<forall>ep s res s'. mcp ep s = (res, s') \<longrightarrow> view s' = view s \<and>
     (\<forall>e. res = Inl e \<longrightarrow> \<not> err_is e ErrHeartbeatDeregistered))"

definition store_errors :: "'s kube \<Rightarrow> bool" where
  "store_errors K \<longleftrightarrow> (\<forall>r s e s'. persistToConfigMap K r s = (Inl e, s') \<longrightarrow> \<not> err_is e ErrHeartbeatDeregistered)"

lemma commit_error:
  "store_errors K \<Longrightarrow> reg_client r = Some K \<Longrightarrow> commit (r\<lparr>reg_entries := m\<rparr>) (r, s) = (Inl err, r', s') \<Longrightarrow>
   \<not> err_is err ErrHeartbeatDeregistered"
  by (auto simp: store_errors_def commit_eq persist_def prod_eq_iff)

lemma Register_error:
  "store_errors K \<Longrightarrow> reg_client r = Some K \<Longrightarrow> Register now e (r, s) = (Inl err, r', s') \<Longrightarrow>
   \<not> err_is err ErrHeartbeatDeregistered"
  by (rule disjE [OF Register_commit [of now e r s]]) (auto dest: commit_error [OF _ _ sym])

lemma RegisterAgent_cases:
  assumes "rr_Registry rr = Some r" and "rr_MCPClient rr (EndpointForAgent ad) s = (pres, s1)"
    and "RegisterAgent now ad (rr, s) = (res, rr', s')"
  obtains (handshake) err m where "pres = Inl err" "res = Inl (Errorf m [err])" "s' = s1" "rr' = rr"
  | (stored) e rres r' where "Register now e (r, s1) = (rres, r', s')" "rr_Registry rr' = Some r'"
      "\<And>u. rres = Inr u \<Longrightarrow> res = Inr ()" "\<And>err. rres = Inl err \<Longrightarrow> \<exists>m. res = Inl (Errorf m [err])"
proof (cases pres)
  case (Inl err)
  show ?thesis
    by (rule handshake [of err]) (use assms Inl in \<open>auto simp: RegisterAgent_def Let_def andThen_def wrapErr_def callMCP_def\<close>)
next
  case (Inr tools)
  let ?e = "zero_Entry\<lparr>ent_Namespace := ad_Namespace ad, ent_Name := ad_Name ad, ent_Endpoint := EndpointForAgent ad,
    ent_Tools := combineTools tools (mcp_Tools (spec_MCP (ad_Spec ad)))\<rparr>"
  obtain rres r' s2 where "Register now ?e (r, s1) = (rres, r', s2)" by (metis prod.collapse)
  with assms Inr show ?thesis
    by (cases rres) (auto intro!: stored simp: RegisterAgent_def Let_def andThen_def wrapErr_def callMCP_def callRegistry_def resetFailures_def)
qed

lemma RegisterAgent_error:
  assumes "store_errors K" and "mcp_frame view (rr_MCPClient rr)" and "rr_Registry rr = Some r" and "reg_client r = Some K"
    and "RegisterAgent now ad (rr, s) = (Inl e, rr', s')"
  shows "\<not> err_is e ErrHeartbeatDeregistered"
proof -
  obtain pres s1 where p: "rr_MCPClient rr (EndpointForAgent ad) s = (pres, s1)" by (metis prod.collapse)
  from assms(3) p assms(5) show ?thesis
  proof (cases rule: RegisterAgent_cases)
    case (handshake err m)
    then show ?thesis using assms(2) p by (auto simp: mcp_frame_def ErrHeartbeatDeregistered_def)
  next
    case (stored e' rres r')
    then show ?thesis
      using Register_error [OF assms(1,4), of now e' s1] by (cases rres) (auto simp: ErrHeartbeatDeregistered_def)
  qed
qed

lemma RegisterAgent_view:
  assumes "kube_laws K view" and "mcp_frame view (rr_MCPClient rr)" and "rr_Registry rr = Some r" and "reg_client r = Some K"
    and "RegisterAgent now ad (rr, s) = (res, rr', s')"
  shows "\<exists>m. view s' = (view s)\<lparr>cl_cm := m\<rparr>"
proof -
  obtain pres s1 where p: "rr_MCPClient rr (EndpointForAgent ad) s = (pres, s1)" by (metis prod.collapse)
  then have v: "view s1 = view s" using assms(2) by (auto simp: mcp_frame_def)
  from assms(3) p assms(5) show ?thesis
  proof (cases rule: RegisterAgent_cases)
    case handshake
    then show ?thesis using v cl_cm_same by metis
  next
    case (stored e' rres r')
    then show ?thesis using kube_laws.Register_view [OF assms(1,4) stored(1)] v by simp
  qed
qed

lemma contains_suffix: "contains sub (s @ sub)"
proof (induction s)
  case Nil
  then show ?case by (cases sub) simp_all
next
  case (Cons c s)
  then show ?case by simp
qed

lemma HeartbeatAgent_cases:
  assumes "rr_Registry rr = Some r" and "rr_MCPClient rr (EndpointForAgent ad) s = (pres, s1)"
    and "HeartbeatAgent now ad (rr, s) = (res, rr', s')"
  obtains (strike) err m where "pres = Inl err" "res = Inl (Errorf m [err])" "rr_Registry rr' = Some r" "s' = s1"
  | (out) err dres r' e where "pres = Inl err" "Deregister (ad_Namespace ad) (ad_Name ad) (r, s1) = (dres, r', s')"
      "rr_Registry rr' = Some r'" "res = Inl e"
  | (beat) tools r' where "pres = Inr tools" "Heartbeat now (ad_Namespace ad) (ad_Name ad) (r, s1) = (Inr (), r', s')"
      "rr_Registry rr' = Some r'" "res = Inr ()"
  | (panic) tools where "pres = Inr tools" "res = Inl nilDeref" "rr_Registry rr' = Some r" "s' = s1"
  | (again) tools rr1 where "pres = Inr tools" "rr_Registry rr1 = Some r" "rr_MCPClient rr1 = rr_MCPClient rr"
      "RegisterAgent now ad (rr1, s1) = (res, rr', s')"
proof (cases pres)
  case (Inl err)
  obtain dres r' s2 where d: "Deregister (ad_Namespace ad) (ad_Name ad) (r, s1) = (dres, r', s2)" by (metis prod.collapse)
  show ?thesis
    using assms Inl d strike out [of err dres r']
    by (cases dres)
      (auto simp: HeartbeatAgent_def catchErr_def andThen_def callMCP_def callRegistry_def incrementFailures_def Let_def
        split: option.splits if_splits)
next
  case (Inr tools)
  let ?rr = "rr\<lparr>rr_failures := AList.delete (agentKey ad) (rr_failures rr)\<rparr>"
  obtain hres r' s2 where h: "Heartbeat now (ad_Namespace ad) (ad_Name ad) (r, s1) = (hres, r', s2)" by (metis prod.collapse)
  then have hs: "s2 = s1" "hres = Inr () \<or> r' = r \<and> (hres = Inl nilDeref \<or>
      hres = Inl (ErrNew (''agent '' @ agentKey ad @ '' not found in registry'')))"
    by (auto simp: Heartbeat_def split: option.splits)
  have n: "\<not> contains ''not found in registry'' (err_text nilDeref)" by code_simp
  have eq: "HeartbeatAgent now ad (rr, s) = (case hres of
      Inr u \<Rightarrow> (Inr (), ?rr\<lparr>rr_Registry := Some r'\<rparr>, s2)
    | Inl e \<Rightarrow> if contains ''not found in registry'' (err_text e) then RegisterAgent now ad (?rr\<lparr>rr_Registry := Some r'\<rparr>, s2)
        else (Inl e, ?rr\<lparr>rr_Registry := Some r'\<rparr>, s2))"
    using assms(1,2) Inr h
    by (auto simp: HeartbeatAgent_def catchErr_def andThen_def callMCP_def callRegistry_def resetFailures_def failCount_key split: sum.splits)
  consider "hres = Inr ()" | "hres = Inl nilDeref" "r' = r"
    | "hres = Inl (ErrNew (''agent '' @ agentKey ad @ '' not found in registry''))" "r' = r"
    using hs(2) by blast
  then show ?thesis
  proof cases
    case 1
    then show ?thesis using eq assms(3) h hs(1) Inr by (intro beat) auto
  next
    case 2
    then show ?thesis using eq assms(3) hs(1) n Inr by (intro panic) auto
  next
    case 3
    then have "contains ''not found in registry'' (err_text (ErrNew (''agent '' @ agentKey ad @ '' not found in registry'')))"
      using contains_suffix [of "''not found in registry''" "''agent '' @ agentKey ad @ '' ''"] by simp
    then show ?thesis using 3 eq assms(3) hs(1) Inr by (intro again) auto
  qed
qed

lemma HeartbeatAgent_view:
  assumes "kube_laws K view" and "mcp_frame view (rr_MCPClient rr)" and "rr_Registry rr = Some r" and "reg_client r = Some K"
    and "HeartbeatAgent now ad (rr, s) = (res, rr', s')"
  shows "\<exists>m. view s' = (view s)\<lparr>cl_cm := m\<rparr>"
proof -
  obtain pres s1 where p: "rr_MCPClient rr (EndpointForAgent ad) s = (pres, s1)" by (metis prod.collapse)
  then have v: "view s1 = view s" using assms(2) by (auto simp: mcp_frame_def)
  from assms(3) p assms(5) show ?thesis
  proof (cases rule: HeartbeatAgent_cases)
    case (out err dres r' e)
    then show ?thesis using kube_laws.Deregister_view [OF assms(1,4) out(2)] v by simp
  next
    case (beat tools r')
    then have "s' = s1" by (auto simp: Heartbeat_def split: option.splits)
    then show ?thesis using v cl_cm_same by metis
  next
    case (again tools rr1)
    then show ?thesis using RegisterAgent_view [OF assms(1) _ again(2) assms(4) again(4)] assms(2) v by simp
  qed (use v cl_cm_same in metis)+
qed

lemma HeartbeatAgent_strikes:
  assumes "store_errors K" and "mcp_frame view (rr_MCPClient rr)" and "rr_Registry rr = Some r" and "reg_client r = Some K"
    and "HeartbeatAgent now ad (rr, s) = (Inl e, rr', s')" and "err_is e ErrHeartbeatDeregistered"
  shows "\<not> isListed rr' (ad_Namespace ad) (ad_Name ad)"
proof -
  obtain pres s1 where p: "rr_MCPClient rr (EndpointForAgent ad) s = (pres, s1)" by (metis prod.collapse)
  from assms(3) p assms(5) show ?thesis
  proof (cases rule: HeartbeatAgent_cases)
    case (strike err m)
    then show ?thesis using assms(2,6) p by (auto simp: mcp_frame_def ErrHeartbeatDeregistered_def)
  next
    case (out err dres r' e)
    then show ?thesis by (simp add: isListed_def Deregister_removes)
  next
    case (panic tools)
    then show ?thesis using assms(6) by (simp add: ErrHeartbeatDeregistered_def)
  next
    case (again tools rr1)
    then show ?thesis using RegisterAgent_error [where view = view, OF assms(1) _ again(2) assms(4) again(4)] assms(2,6) by simp
  qed simp
qed

lemma HeartbeatAgent_lists:
  assumes "rr_Registry rr = Some r" and "HeartbeatAgent now ad (rr, s) = (Inr u, rr', s')"
  shows "isListed rr' (ad_Namespace ad) (ad_Name ad)"
proof -
  obtain pres s1 where p: "rr_MCPClient rr (EndpointForAgent ad) s = (pres, s1)" by (metis prod.collapse)
  from assms(1) p assms(2) show ?thesis
  proof (cases rule: HeartbeatAgent_cases)
    case (beat tools r')
    then show ?thesis by (auto simp: isListed_def Heartbeat_def update_conv' split: option.splits)
  next
    case (again tools rr1)
    then show ?thesis using RegisterAgent_adds [OF again(4)] by simp
  qed simp_all
qed

lemma mkRegistrar_simps [simp]:
  "rr_Registry (mkRegistrar K mcp ns ttl st) = Some ((NewRegistry (Some K) ns ttl)\<lparr>reg_entries := fst st\<rparr>)"
  "rr_MCPClient (mkRegistrar K mcp ns ttl st) = mcp"
  "reg_client ((NewRegistry (Some K) ns ttl)\<lparr>reg_entries := m\<rparr>) = Some K"
  by (simp_all add: mkRegistrar_def NewRegistry_def)

lemma RegisterAgent_registry:
  assumes "rr_Registry rr = Some r" and "RegisterAgent now ad (rr, s) = (res, rr', s')"
  shows "rr_Registry rr' \<noteq> None"
proof -
  obtain pres s1 where p: "rr_MCPClient rr (EndpointForAgent ad) s = (pres, s1)" by (metis prod.collapse)
  from assms(1) p assms(2) show ?thesis
    by (cases rule: RegisterAgent_cases) (simp_all add: assms(1))
qed

lemma HeartbeatAgent_registry:
  assumes "rr_Registry rr = Some r" and "HeartbeatAgent now ad (rr, s) = (res, rr', s')"
  shows "rr_Registry rr' \<noteq> None"
proof -
  obtain pres s1 where p: "rr_MCPClient rr (EndpointForAgent ad) s = (pres, s1)" by (metis prod.collapse)
  from assms(1) p assms(2) show ?thesis
    by (cases rule: HeartbeatAgent_cases) (auto dest: RegisterAgent_registry)
qed

lemma DeregisterAgent_cases:
  assumes "rr_Registry rr = Some r" and "DeregisterAgent ad (rr, s) = (res, rr', s')"
  obtains r' where "Deregister (ad_Namespace ad) (ad_Name ad) (r, s) = (res, r', s')" "rr_Registry rr' = Some r'"
  using assms
  by (auto simp: DeregisterAgent_def andThen_def callRegistry_def resetFailures_def split: prod.splits)

lemma runRegistrar_cases:
  assumes "runRegistrar K mcp ns ttl f st = (res, st')"
  obtains rr' where "f (mkRegistrar K mcp ns ttl (fst st), snd st) = (res, rr', snd st')" "fst st' = registrarState rr'"
  using assms by (cases st) (auto simp: runRegistrar_def split: prod.splits)

lemma registrarOps_laws:
  fixes K :: "'s kube"
  assumes laws: "kube_laws K view" and mcp: "mcp_frame view mcp" and store: "store_errors K"
  shows "agent_registrar (registrarOps K mcp ns ttl clock) listedIn (\<lambda>st. view (snd st))"
proof unfold_locales
  fix ad u and s s' :: "'s registrarState"
  assume "ar_Register (registrarOps K mcp ns ttl clock) ad s = (Inr u, s')"
  then show "listedIn s' (ad_Namespace ad) (ad_Name ad)"
    by (auto simp: registrarOps_def listedIn_def registrarState_def isListed_def elim!: runRegistrar_cases
        dest!: RegisterAgent_adds split: option.splits)
next
  fix ad u and s s' :: "'s registrarState"
  assume "ar_Deregister (registrarOps K mcp ns ttl clock) ad s = (Inr u, s')"
  then show "\<not> listedIn s' (ad_Namespace ad) (ad_Name ad)"
    by (auto simp: registrarOps_def listedIn_def registrarState_def isListed_def elim!: runRegistrar_cases
        dest!: DeregisterAgent_removes split: option.splits)
next
  fix ad e and s s' :: "'s registrarState"
  assume "ar_Heartbeat (registrarOps K mcp ns ttl clock) ad s = (Inl e, s')" and "err_is e ErrHeartbeatDeregistered"
  then show "\<not> listedIn s' (ad_Namespace ad) (ad_Name ad)"
    using HeartbeatAgent_strikes [OF store, of view "mkRegistrar K mcp ns ttl (fst s)"] mcp
    by (fastforce simp: registrarOps_def listedIn_def registrarState_def isListed_def elim!: runRegistrar_cases split: option.splits)
next
  fix ad u and s s' :: "'s registrarState"
  assume "ar_Heartbeat (registrarOps K mcp ns ttl clock) ad s = (Inr u, s')"
  then show "listedIn s' (ad_Namespace ad) (ad_Name ad)"
    by (auto simp: registrarOps_def listedIn_def registrarState_def isListed_def elim!: runRegistrar_cases
        dest!: HeartbeatAgent_lists [rotated] split: option.splits)
next
  fix ad res and s s' :: "'s registrarState"
  assume "ar_Register (registrarOps K mcp ns ttl clock) ad s = (res, s')"
  then show "\<exists>m. view (snd s') = (view (snd s))\<lparr>cl_cm := m\<rparr>"
    using RegisterAgent_view [OF laws, of "mkRegistrar K mcp ns ttl (fst s)"] mcp
    by (auto simp: registrarOps_def elim!: runRegistrar_cases)
next
  fix ad res and s s' :: "'s registrarState"
  assume "ar_Deregister (registrarOps K mcp ns ttl clock) ad s = (res, s')"
  then show "\<exists>m. view (snd s') = (view (snd s))\<lparr>cl_cm := m\<rparr>"
    by (auto simp: registrarOps_def elim!: runRegistrar_cases DeregisterAgent_cases [rotated]
        dest: kube_laws.Deregister_view [OF laws, rotated])
next
  fix ad res and s s' :: "'s registrarState"
  assume "ar_Heartbeat (registrarOps K mcp ns ttl clock) ad s = (res, s')"
  then show "\<exists>m. view (snd s') = (view (snd s))\<lparr>cl_cm := m\<rparr>"
    using HeartbeatAgent_view [OF laws, of "mkRegistrar K mcp ns ttl (fst s)"] mcp
    by (auto simp: registrarOps_def elim!: runRegistrar_cases)
qed

text \<open>An agent that answers every handshake with the same tools.\<close>

definition reply_post :: "string list \<Rightarrow> 's httpPost" where
  "reply_post tools url body = ret (200,
     JText (JObj [(''result'', JObj [(''tools'', JArr (map (\<lambda>t. JObj [(''name'', JStr t)]) tools))])]), [])"

lemma Initialize_reply: "Initialize (reply_post tools) endpoint s = (Inr (filter (\<lambda>t. t \<noteq> []) tools), s)"
proof -
  have f: "fold_case ''result'' = ''result''" by code_simp
  have "traverse (\<lambda>v. decodeStruct ''mcpToolDefinition'' setNamed v []) (map (\<lambda>t. JObj [(''name'', JStr t)]) tools) = Inr (map id tools)"
    by (rule traverse_map) (simp add: setNamed_def)
  then show ?thesis
    by (simp add: Initialize_def reply_post_def Let_def andThen_def wrapErr_def decodeResponse_def f setResponse_def
        setResult_def extractTools_def)
qed

lemma mcp_frame_reply: "mcp_frame view (Initialize (reply_post tools))"
  by (simp add: mcp_frame_def Initialize_reply)

lemma mem_apply_errors:
  assumes "r_CreateOrUpdate (k_cm mem_kube) k (\<lambda>cm. Inr (f cm)) s = (Inl e, s')"
  shows "e = ErrNew ''key changed'' \<or> (\<exists>reason m. e = APIStatus reason m)"
  using assms by (auto simp: mem_kube_def mem_resource_simps elim!: mem_call_cases split: option.splits if_splits)

lemma mem_store_errors: "store_errors mem_kube"
  unfolding store_errors_def
proof (intro allI impI)
  fix r e and s s' :: mem
  assume "persistToConfigMap mem_kube r s = (Inl e, s')"
  then obtain s0 e0 where "r_CreateOrUpdate (k_cm mem_kube) (configMapName r)
      (\<lambda>cm. Inr (cm\<lparr>cm_Data := AList.update configMapKey (JText (encodeEntries (reg_entries r))) (cm_Data cm)\<rparr>)) s0 = (Inl e0, s')"
    and "e = Errorf ''persisting registry ConfigMap: '' [e0]"
    unfolding persistToConfigMap_def by (blast dest!: mem.retry wrapErr_andThen_ret_Inl)
  with mem_apply_errors [OF this(1)] show "\<not> err_is e ErrHeartbeatDeregistered"
    by (auto simp: ErrHeartbeatDeregistered_def)
qed

interpretation mem_registrar: agent_registrar "registrarOps mem_kube (Initialize (reply_post tools)) ns ttl m_clock"
    listedIn "\<lambda>st. mem_view (snd st)" for tools ns ttl
  by (rule registrarOps_laws [OF mem.kube_laws_axioms mcp_frame_reply mem_store_errors])

end
