(* ===== verification/Float64.thy ===== *)
theory Float64
  imports Complex_Main Prelude
begin

text \<open>
  Go's \<open>float64\<close>: NaN, the infinities, and finite values as rationals; arithmetic rounds the
  exact result to 53 significant bits, ties to even, with gradual underflow (the two zeros are
  one value). \<open>strconv.ParseFloat\<close> is written out with its whole grammar: signs, decimal and
  hexadecimal mantissas, exponents, underscores, \<open>inf\<close> and \<open>nan\<close>; then
  \<^verbatim>\<open>api/v1alpha1/error_rate.go\<close>.
\<close>

section \<open>Values and rounding\<close>

datatype f64 = NaN | Inf bool | Fin rat

definition pow2 :: "int \<Rightarrow> rat" where
  "pow2 k = (if 0 \<le> k then 2 ^ nat k else 1 / 2 ^ nat (- k))"

function bits :: "int \<Rightarrow> int" where
  "bits n = (if n \<le> 0 then 0 else 1 + bits (n div 2))"
  by pat_completeness auto
termination
  by (relation "measure nat") auto

declare bits.simps [simp del]

text \<open>The \<open>k\<close> with \<open>2^k \<le> q < 2^(k+1)\<close>, for \<open>q > 0\<close>.\<close>

definition log2floor :: "rat \<Rightarrow> int" where
  "log2floor q = (case quotient_of q of (n, d) \<Rightarrow>
     let k = bits n - bits d in if pow2 k \<le> q then k else k - 1)"

text \<open>Rounding to the nearest integer, ties to even.\<close>

definition round_even :: "rat \<Rightarrow> int" where
  "round_even q = (let n = \<lfloor>q\<rfloor>; r = q - of_int n in
     if r < 1 / 2 then n else if 1 / 2 < r then n + 1 else if even n then n else n + 1)"

definition ulp_exp :: "rat \<Rightarrow> int" where
  "ulp_exp q = max (log2floor \<bar>q\<bar> - 52) (- 1074)"

definition round64 :: "rat \<Rightarrow> f64" where
  "round64 q = (if q = 0 then Fin 0 else
     let e = ulp_exp q; v = of_int (round_even (q / pow2 e)) * pow2 e
     in if 2 ^ 1024 \<le> \<bar>v\<bar> then Inf (q < 0) else Fin v)"

text \<open>\<open>float64(x)\<close> of an \<open>int32\<close> is exact.\<close>

definition f64_of_int32 :: "int32 \<Rightarrow> f64" where
  "f64_of_int32 x = Fin (of_int (sint x))"

fun f64_less :: "f64 \<Rightarrow> f64 \<Rightarrow> bool" where
  "f64_less NaN _ \<longleftrightarrow> False"
| "f64_less _ NaN \<longleftrightarrow> False"
| "f64_less (Inf a) (Inf b) \<longleftrightarrow> a \<and> \<not> b"
| "f64_less (Inf a) (Fin y) \<longleftrightarrow> a"
| "f64_less (Fin x) (Inf b) \<longleftrightarrow> \<not> b"
| "f64_less (Fin x) (Fin y) \<longleftrightarrow> x < y"

text \<open>Multiplication and division by a positive finite constant.\<close>

fun f64_scale :: "f64 \<Rightarrow> rat \<Rightarrow> f64" where
  "f64_scale NaN _ = NaN"
| "f64_scale (Inf a) _ = Inf a"
| "f64_scale (Fin x) c = round64 (x * c)"

fun f64_quot :: "f64 \<Rightarrow> rat \<Rightarrow> f64" where
  "f64_quot NaN _ = NaN"
| "f64_quot (Inf a) _ = Inf a"
| "f64_quot (Fin x) c = round64 (x / c)"

section \<open>Printing with a fixed number of decimals\<close>

definition pad_zeros :: "nat \<Rightarrow> string \<Rightarrow> string" where
  "pad_zeros n s = replicate (n - length s) CHR ''0'' @ s"

text \<open>\<open>%.<d>f\<close>\<close>

fun show_f64 :: "nat \<Rightarrow> f64 \<Rightarrow> string" where
  "show_f64 d NaN = ''NaN''"
| "show_f64 d (Inf a) = (if a then ''-Inf'' else ''+Inf'')"
| "show_f64 d (Fin x) =
    (let m = nat (round_even (\<bar>x\<bar> * 10 ^ d));
         sign = (if x < 0 then ''-'' else [])
     in sign @ show_nat (m div 10 ^ d) @ (if d = 0 then [] else CHR ''.'' # pad_zeros d (show_nat (m mod 10 ^ d))))"

section \<open>strconv.ParseFloat\<close>

definition lower :: "char \<Rightarrow> char" where
  "lower c = (if 65 \<le> (of_char c :: nat) \<and> (of_char c :: nat) \<le> 90 then char_of ((of_char c :: nat) + 32) else c)"

definition is_hex_letter :: "char \<Rightarrow> bool" where
  "is_hex_letter c \<longleftrightarrow> 97 \<le> (of_char (lower c) :: nat) \<and> (of_char (lower c) :: nat) \<le> 102"

definition hex_value :: "char \<Rightarrow> int" where
  "hex_value c = (if is_digit c then of_char c - 48 else of_char (lower c) - 87)"

text \<open>The state of the mantissa loop: the digits read as one integer, how many of them stand
  behind the point, and whether a point, a digit or an underscore was seen.\<close>

record mantissa =
  mt_value :: int
  mt_frac :: int
  mt_dot :: bool
  mt_digits :: bool
  mt_under :: bool

fun scanMantissa :: "bool \<Rightarrow> mantissa \<Rightarrow> string \<Rightarrow> mantissa \<times> string" where
  "scanMantissa hex m [] = (m, [])"
| "scanMantissa hex m (c # cs) =
    (if c = CHR ''_'' then scanMantissa hex (m\<lparr>mt_under := True\<rparr>) cs
     else if c = CHR ''.'' then (if mt_dot m then (m, c # cs) else scanMantissa hex (m\<lparr>mt_dot := True\<rparr>) cs)
     else if is_digit c \<or> hex \<and> is_hex_letter c then
       scanMantissa hex
         (m\<lparr>mt_value := (if hex then 16 else 10) * mt_value m + hex_value c,
            mt_frac := mt_frac m + (if mt_dot m then 1 else 0), mt_digits := True\<rparr>) cs
     else (m, c # cs))"

fun scanExponent :: "int \<Rightarrow> bool \<Rightarrow> string \<Rightarrow> int \<times> bool \<times> string" where
  "scanExponent e u [] = (e, u, [])"
| "scanExponent e u (c # cs) =
    (if c = CHR ''_'' then scanExponent e True cs
     else if is_digit c then scanExponent (if e < 10000 then 10 * e + hex_value c else e) u cs
     else (e, u, c # cs))"

text \<open>\<open>underscoreOK\<close>: an underscore stands between digits, a base prefix counting as a digit.
  The first argument says whether hexadecimal digits count, the second what was seen last.\<close>

datatype saw = SawStart | SawDigit | SawUnder | SawOther

fun underscoresSeparate :: "bool \<Rightarrow> saw \<Rightarrow> string \<Rightarrow> bool" where
  "underscoresSeparate hex w [] \<longleftrightarrow> w \<noteq> SawUnder"
| "underscoresSeparate hex w (c # cs) \<longleftrightarrow>
    (if is_digit c \<or> hex \<and> is_hex_letter c then underscoresSeparate hex SawDigit cs
     else if c = CHR ''_'' then w = SawDigit \<and> underscoresSeparate hex SawUnder cs
     else w \<noteq> SawUnder \<and> underscoresSeparate hex SawOther cs)"

definition dropSign :: "string \<Rightarrow> string" where
  "dropSign s = (case s of c # cs \<Rightarrow> if c = CHR ''+'' \<or> c = CHR ''-'' then cs else s | [] \<Rightarrow> [])"

definition underscoreOK :: "string \<Rightarrow> bool" where
  "underscoreOK s = (case dropSign s of
     c # b # cs \<Rightarrow>
       if c = CHR ''0'' \<and> lower b \<in> {CHR ''b'', CHR ''o'', CHR ''x''}
       then underscoresSeparate (lower b = CHR ''x'') SawDigit cs
       else underscoresSeparate False SawStart (c # b # cs)
   | t \<Rightarrow> underscoresSeparate False SawStart t)"

text \<open>The exact value of a well-formed number; \<open>None\<close> is a syntax error. A hexadecimal mantissa
  has a binary exponent, which is mandatory.\<close>

definition readFloat :: "string \<Rightarrow> rat option" where
  "readFloat s =
    (let neg = (s \<noteq> [] \<and> hd s = CHR ''-'');
         t = dropSign s;
         hex = (2 < length t \<and> t ! 0 = CHR ''0'' \<and> lower (t ! 1) = CHR ''x'');
         (m, r) = scanMantissa hex \<lparr>mt_value = 0, mt_frac = 0, mt_dot = False, mt_digits = False, mt_under = False\<rparr>
                    (if hex then drop 2 t else t);
         base = (if hex then 16 else 10);
         value = (\<lambda>e. (if neg then - 1 else 1) * of_int (mt_value m) / base ^ nat (mt_frac m) *
                   (if hex then pow2 e else if 0 \<le> e then 10 ^ nat e else 1 / 10 ^ nat (- e)))
     in if \<not> mt_digits m then None
        else (case r of
          [] \<Rightarrow> if hex \<or> mt_under m \<and> \<not> underscoreOK s then None else Some (value 0)
        | c # es \<Rightarrow>
            if lower c \<noteq> (if hex then CHR ''p'' else CHR ''e'') then None
            else (let esign = (if es \<noteq> [] \<and> hd es = CHR ''-'' then - 1 else 1); ds = dropSign es
                  in if ds = [] \<or> \<not> is_digit (hd ds) then None
                     else (case scanExponent 0 (mt_under m) ds of (e, u, rest) \<Rightarrow>
                       if rest \<noteq> [] \<or> u \<and> \<not> underscoreOK s then None
                       else Some (value (esign * e))))))"

definition special :: "string \<Rightarrow> f64 option" where
  "special s =
    (let l = map lower s; body = map lower (dropSign s) in
     if l = ''nan'' then Some NaN
     else if body = ''inf'' \<or> body = ''infinity'' then Some (Inf (s \<noteq> [] \<and> hd s = CHR ''-''))
     else None)"

definition numError :: "string \<Rightarrow> string \<Rightarrow> goerr" where
  "numError s what = Errorf (''strconv.ParseFloat: parsing '' @ show_quoted s @ '': '') [ErrNew what]"

definition ParseFloat :: "string \<Rightarrow> goerr + f64" where
  "ParseFloat s = (case special s of
     Some v \<Rightarrow> Inr v
   | None \<Rightarrow> (case readFloat s of
       None \<Rightarrow> Inl (numError s ''invalid syntax'')
     | Some q \<Rightarrow> (case round64 q of Fin v \<Rightarrow> Inr (Fin v) | _ \<Rightarrow> Inl (numError s ''value out of range''))))"

section \<open>ParseErrorRate\<close>

definition ParseErrorRate :: "string \<Rightarrow> goerr + f64" where
  "ParseErrorRate s =
    (if length s = 0 then Inl (ErrNew ''empty error rate string'')
     else if last s \<noteq> CHR ''%'' then Inl (ErrNew (''error rate must end with '' @ [CHR 0x27] @ ''%'' @ [CHR 0x27] @ '': got '' @ show_quoted s))
     else (case ParseFloat (butlast s) of
       Inl e \<Rightarrow> Inl (Errorf (''parsing error rate '' @ show_quoted s @ '': '') [e])
     | Inr NaN \<Rightarrow> Inl (ErrNew (''error rate '' @ show_quoted s @ '' is not a finite number''))
     | Inr (Inf _) \<Rightarrow> Inl (ErrNew (''error rate '' @ show_quoted s @ '' is not a finite number''))
     | Inr (Fin pct) \<Rightarrow>
         if pct < 0 \<or> 100 < pct then Inl (ErrNew (''error rate '' @ show_quoted s @ '' out of range [0, 100]''))
         else Inr (f64_quot (Fin pct) 100)))"

section \<open>Rounding lemmas\<close>

lemma pow2_pos [simp]: "0 < pow2 k"
  by (simp add: pow2_def)

lemma pow2_power_int: "pow2 k = 2 powi k"
  by (simp add: pow2_def power_int_def power_one_over inverse_eq_divide)

lemma pow2_add: "pow2 (j + k) = pow2 j * pow2 k"
  by (simp add: pow2_power_int power_int_add)

lemma pow2_mono: "j \<le> k \<Longrightarrow> pow2 j \<le> pow2 k"
  by (simp add: pow2_power_int power_int_increasing)

lemma pow2_less_cancel: "pow2 j < pow2 k \<Longrightarrow> j < k"
  using pow2_mono [of k j] by linarith

lemma pow2_nat: "0 \<le> k \<Longrightarrow> pow2 k = of_int (2 ^ nat k)"
  by (simp add: pow2_def)

lemma pow2_0 [simp]: "pow2 0 = 1"
  by (simp add: pow2_def)

lemma pow2_one: "pow2 1 = 2"
  by (simp add: pow2_def)

lemma bits_nonneg: "0 \<le> bits n"
proof (induction n rule: bits.induct)
  case (1 n)
  then show ?case by (subst bits.simps) simp
qed

lemma bits_bounds: "0 < n \<Longrightarrow> pow2 (bits n - 1) \<le> of_int n \<and> of_int n < pow2 (bits n)"
proof (induction n rule: bits.induct)
  case (1 n)
  show ?case
  proof (cases "n = 1")
    case True
    have "bits 1 = 1" by (simp add: bits.simps)
    with True show ?thesis by (simp add: pow2_def)
  next
    case False
    with 1 have "0 < n div 2" by simp
    with 1 have IH: "pow2 (bits (n div 2) - 1) \<le> of_int (n div 2)" "of_int (n div 2) < pow2 (bits (n div 2))"
      by auto
    have bits: "bits n = 1 + bits (n div 2)"
      using 1 by (subst bits.simps) simp
    have lo: "2 * (n div 2) \<le> n" and hi: "n \<le> 2 * (n div 2) + 1" by auto
    have p: "pow2 (bits n - 1) = 2 * pow2 (bits (n div 2) - 1)"
      using pow2_add [of 1 "bits (n div 2) - 1"] bits by (simp add: pow2_def)
    have q: "pow2 (bits n) = 2 * pow2 (bits (n div 2))"
      using pow2_add [of 1 "bits (n div 2)"] bits by (simp add: pow2_def)
    have "n div 2 + 1 \<le> (2 :: int) ^ nat (bits (n div 2))"
      using IH(2) bits_nonneg [of "n div 2"] by (simp only: pow2_nat of_int_less_iff)
    then have "(of_int (n div 2 + 1) :: rat) \<le> of_int (2 ^ nat (bits (n div 2)))"
      by (rule iffD2 [OF of_int_le_iff])
    then have "of_int (n div 2) + 1 \<le> pow2 (bits (n div 2))"
      by (simp only: pow2_nat [OF bits_nonneg] of_int_add of_int_1)
    moreover have "(of_int n :: rat) \<le> of_int (2 * (n div 2) + 1)" "of_int (2 * (n div 2)) \<le> (of_int n :: rat)"
      using hi lo by (simp_all only: of_int_le_iff)
    then have "(of_int n :: rat) \<le> 2 * of_int (n div 2) + 1" "2 * of_int (n div 2) \<le> (of_int n :: rat)"
      by (simp_all only: of_int_add of_int_mult of_int_1 of_int_numeral)
    ultimately show ?thesis
      using IH(1) p q by linarith
  qed
qed

lemma log2floor_bounds:
  assumes "0 < q"
  shows "pow2 (log2floor q) \<le> q" and "q < pow2 (log2floor q + 1)"
proof -
  obtain n d where nd: "quotient_of q = (n, d)" by (cases "quotient_of q")
  have d: "0 < d" and q: "q = of_int n / of_int d"
    using quotient_of_denom_pos [OF nd] quotient_of_div [OF nd] by auto
  with assms have n: "0 < n" by (simp add: zero_less_divide_iff)
  have nb: "pow2 (bits n - 1) \<le> of_int n" "of_int n < pow2 (bits n)"
    and db: "pow2 (bits d - 1) \<le> of_int d" "of_int d < pow2 (bits d)"
    using bits_bounds [OF n] bits_bounds [OF d] by auto
  define k where "k = bits n - bits d"
  have low: "pow2 (k - 1) * of_int d \<le> of_int n"
  proof -
    have "pow2 (k - 1) * of_int d \<le> pow2 (k - 1) * pow2 (bits d)"
      using db by simp
    also have "\<dots> = pow2 (bits n - 1)"
      by (simp flip: pow2_add add: k_def)
    finally show ?thesis using nb by simp
  qed
  have high: "of_int n < pow2 (k + 1) * of_int d"
  proof -
    have "pow2 (bits n) = pow2 (k + 1) * pow2 (bits d - 1)"
      by (simp flip: pow2_add add: k_def)
    also have "\<dots> \<le> pow2 (k + 1) * of_int d"
      using db by simp
    finally show ?thesis using nb by simp
  qed
  have l: "log2floor q = (if pow2 k \<le> q then k else k - 1)"
    by (simp add: log2floor_def nd k_def)
  show "pow2 (log2floor q) \<le> q"
    using l low d by (simp add: q field_simps)
  show "q < pow2 (log2floor q + 1)"
    using l high d by (auto simp: q field_simps)
qed

lemma round_even_of_int [simp]: "round_even (of_int n) = n"
  by (simp add: round_even_def Let_def)

lemma round_even_le: "q \<le> of_int n \<Longrightarrow> round_even q \<le> n"
  unfolding round_even_def Let_def by (auto simp: le_floor_iff; linarith)

lemma round_even_ge: "of_int n \<le> q \<Longrightarrow> n \<le> round_even q"
proof -
  assume "of_int n \<le> q"
  then have "n \<le> \<lfloor>q\<rfloor>" by (simp add: le_floor_iff)
  then show ?thesis unfolding round_even_def Let_def by auto
qed

text \<open>A value of the unit interval rounds to a value of the unit interval.\<close>

lemma round64_unit:
  assumes "0 \<le> q" and "q \<le> 1"
  shows "\<exists>v. round64 q = Fin v \<and> 0 \<le> v \<and> v \<le> 1"
proof (cases "q = 0")
  case True
  then show ?thesis by (simp add: round64_def)
next
  case False
  with assms have pos: "0 < q" by simp
  define e where "e = ulp_exp q"
  have "pow2 (log2floor q) \<le> pow2 0"
    using log2floor_bounds(1) [OF pos] assms(2) by simp
  then have "log2floor q \<le> 0"
    using pow2_mono [of 1 "log2floor q"] pow2_one by fastforce
  with pos have e: "e \<le> 0" by (simp add: e_def ulp_exp_def)
  have "q / pow2 e \<le> of_int (2 ^ nat (- e))"
    using assms(2) e by (simp add: pow2_def)
  then have "round_even (q / pow2 e) \<le> 2 ^ nat (- e)" by (rule round_even_le)
  then have "(of_int (round_even (q / pow2 e)) :: rat) \<le> of_int (2 ^ nat (- e))"
    by (rule iffD2 [OF of_int_le_iff])
  then have "of_int (round_even (q / pow2 e)) * pow2 e \<le> of_int (2 ^ nat (- e)) * pow2 e"
    by (rule mult_right_mono) (simp add: less_imp_le)
  also have "of_int (2 ^ nat (- e)) * pow2 e = 1"
    using e by (simp add: pow2_def)
  finally have up: "of_int (round_even (q / pow2 e)) * pow2 e \<le> 1" .
  have "0 \<le> round_even (q / pow2 e)"
    using pos by (intro round_even_ge) (simp add: divide_nonneg_pos)
  then have low: "0 \<le> of_int (round_even (q / pow2 e)) * pow2 e"
    by (intro mult_nonneg_nonneg) (simp_all add: less_imp_le)
  have "(1 :: rat) < 2 ^ 1024" by (rule one_less_power) simp_all
  then have "\<not> 2 ^ 1024 \<le> \<bar>of_int (round_even (q / pow2 e)) * pow2 e\<bar>"
    using up low by linarith
  then show ?thesis
    using False up low by (simp add: round64_def Let_def flip: e_def)
qed

text \<open>Integers of at most 53 bits are exact.\<close>

lemma round64_of_int:
  assumes "0 \<le> n" and "n < 2 ^ 53"
  shows "round64 (of_int n) = Fin (of_int n)"
proof (cases "n = 0")
  case True
  then show ?thesis by (simp add: round64_def)
next
  case False
  define q :: rat where "q = of_int n"
  define e where "e = ulp_exp q"
  have pos: "0 < q" using False assms(1) by (simp add: q_def)
  have lt: "q < pow2 53"
  proof -
    have "q < of_int (2 ^ 53)" unfolding q_def using assms(2) by (rule iffD2 [OF of_int_less_iff])
    then show ?thesis by (simp add: pow2_def)
  qed
  have "pow2 (log2floor q) < pow2 53"
    using log2floor_bounds(1) [OF pos] lt by (rule le_less_trans)
  then have "log2floor q < 53" by (rule pow2_less_cancel)
  with pos have e: "e \<le> 0" by (simp add: e_def ulp_exp_def)
  have q: "q / pow2 e = of_int (n * 2 ^ nat (- e))"
    using e by (simp add: pow2_def q_def)
  then have v: "of_int (round_even (q / pow2 e)) * pow2 e = q"
    unfolding q round_even_of_int using q by (metis nonzero_eq_divide_eq pow2_pos less_irrefl)
  have "pow2 53 \<le> (2 :: rat) ^ 1024"
    unfolding pow2_def by (simp only: if_True zero_le_numeral) (rule power_increasing, simp_all)
  then have "\<not> 2 ^ 1024 \<le> \<bar>q\<bar>" using lt pos by linarith
  then show ?thesis
    using pos v by (simp add: round64_def Let_def flip: e_def q_def)
qed
section \<open>Parsing lemmas\<close>

lemma is_digit_cases: "is_digit c \<Longrightarrow> c \<noteq> CHR ''_'' \<and> c \<noteq> CHR ''.'' \<and> c \<noteq> CHR ''+'' \<and> c \<noteq> CHR ''-''"
  by (auto simp: is_digit_def)

lemma is_digit_lower: "is_digit c \<Longrightarrow> lower c = c"
  by (simp add: is_digit_def lower_def)

lemma hex_value_digit: "is_digit c \<Longrightarrow> hex_value c = int (digit_value c)"
  by (simp add: hex_value_def digit_value_def is_digit_def of_nat_diff of_nat_of_char)

lemma scanMantissa_digits:
  "\<forall>c \<in> set s. is_digit c \<Longrightarrow> \<not> mt_dot m \<Longrightarrow>
   scanMantissa False m s =
     (m\<lparr>mt_value := foldl (\<lambda>n c. 10 * n + int (digit_value c)) (mt_value m) s, mt_digits := mt_digits m \<or> s \<noteq> []\<rparr>, [])"
proof (induction s arbitrary: m)
  case Nil
  then show ?case by (cases m) simp
next
  case (Cons c s)
  then show ?case
    using is_digit_cases [of c] by (simp add: hex_value_digit)
qed

lemma foldl_digits: "foldl (\<lambda>n c. 10 * n + int (digit_value c)) (int k) s = int (foldl (\<lambda>n c. 10 * n + digit_value c) k s)"
proof (induction s arbitrary: k)
  case Nil
  then show ?case by simp
next
  case (Cons c s)
  then show ?case
    using Cons.IH [of "10 * k + digit_value c"] by simp
qed

lemma dropSign_digits: "\<forall>c \<in> set s. is_digit c \<Longrightarrow> dropSign s = s"
  using is_digit_cases by (auto simp: dropSign_def split: list.splits)

lemma readFloat_digits:
  assumes "s \<noteq> []" and digits: "\<forall>c \<in> set s. is_digit c"
  shows "readFloat s = Some (of_nat (read_nat s))"
proof -
  have hex: "(2 < length s \<and> s ! 0 = CHR ''0'' \<and> lower (s ! 1) = CHR ''x'') = False"
  proof (rule iffI; (elim FalseE)?)
    assume *: "2 < length s \<and> s ! 0 = CHR ''0'' \<and> lower (s ! 1) = CHR ''x''"
    then have "s ! 1 \<in> set s" by (intro nth_mem) auto
    with digits have "is_digit (s ! 1)" by blast
    with * show False by (auto simp: is_digit_lower is_digit_def)
  qed
  have "hd s \<noteq> CHR ''-''"
    using assms is_digit_cases [of "hd s"] by (cases s) auto
  moreover have "dropSign s = s" using digits by (rule dropSign_digits)
  ultimately show ?thesis
    using assms foldl_digits [of 0 s]
    by (simp only: readFloat_def Let_def hex) (simp add: scanMantissa_digits read_nat_def)
qed

lemma special_digits:
  assumes "s \<noteq> []" and digits: "\<forall>c \<in> set s. is_digit c"
  shows "special s = None"
proof -
  have "map lower s = s" using digits is_digit_lower by (auto intro: map_idI)
  moreover have "is_digit (hd s)" using assms by (cases s) auto
  ultimately show ?thesis
    using assms by (auto simp: special_def Let_def dropSign_digits is_digit_def)
qed

lemma ParseFloat_show_nat: "int n < 2 ^ 53 \<Longrightarrow> ParseFloat (show_nat n) = Inr (Fin (of_nat n))"
  using round64_of_int [of "int n"] show_nat_digits [of n]
  by (simp add: ParseFloat_def special_digits readFloat_digits)

lemma ParseErrorRate_unit: "ParseErrorRate s = Inr r \<Longrightarrow> \<exists>v. r = Fin v \<and> 0 \<le> v \<and> v \<le> 1"
  by (auto simp: ParseErrorRate_def round64_unit split: sum.splits f64.splits if_splits)

text \<open>C38. An error rate that is accepted is a fraction between 0 and 1, whatever the notation
  it was written in; and the percentages written as whole numbers, \<open>0%\<close> to \<open>100%\<close>, are all
  accepted, each as the float64 nearest to its hundredth.\<close>

theorem ParseErrorRate_fraction:
  "(case ParseErrorRate s of Inl e \<Rightarrow> True | Inr r \<Rightarrow> (\<exists>v. r = Fin v \<and> 0 \<le> v \<and> v \<le> 1)) \<and>
   (n \<le> 100 \<longrightarrow> ParseErrorRate (show_nat n @ ''%'') = Inr (round64 (of_nat n / 100)))"
proof
  show "case ParseErrorRate s of Inl e \<Rightarrow> True | Inr r \<Rightarrow> (\<exists>v. r = Fin v \<and> 0 \<le> v \<and> v \<le> 1)"
    using ParseErrorRate_unit [of s] by (auto split: sum.splits)
  show "n \<le> 100 \<longrightarrow> ParseErrorRate (show_nat n @ ''%'') = Inr (round64 (of_nat n / 100))"
    by (auto simp: ParseErrorRate_def ParseFloat_show_nat)
qed

theorem ParseErrorRate_fraction_witness: "ParseErrorRate ''5%'' = Inr (round64 (1 / 20))"
proof -
  have "show_nat 5 @ ''%'' = ''5%''" by code_simp
  then show ?thesis using ParseErrorRate_fraction [of "[]" 5] by simp
qed

end
