(* ===== verification/Prom.thy ===== *)
theory Prom
  imports Float64 Json
begin

text \<open>
  \<^verbatim>\<open>internal/metrics/prometheus.go\<close>: the Prometheus query client. The HTTP transport is a field
  of the client: a function from the URL and the query parameters to the status code, the body
  decoded as JSON, and the body as text; building the request and sending it fail there.
\<close>

section \<open>The client\<close>

type_synonym 's httpGet = "string \<Rightarrow> (string \<times> string) list \<Rightarrow> ('s, nat \<times> jtext \<times> string) act"

record 's Client =
  pc_baseURL :: string
  pc_Timeout :: duration
  pc_Do :: "'s httpGet"

definition WithTimeout :: "duration \<Rightarrow> 's Client \<Rightarrow> 's Client" where
  "WithTimeout d c = c\<lparr>pc_Timeout := d\<rparr>"

definition NewClient :: "'s httpGet \<Rightarrow> string \<Rightarrow> ('s Client \<Rightarrow> 's Client) list \<Rightarrow> 's Client" where
  "NewClient do baseURL opts =
    fold (\<lambda>opt c. opt c) opts
      \<lparr>pc_baseURL = rev (dropWhile (\<lambda>c. c = CHR ''/'') (rev baseURL)), pc_Timeout = 10 * Second, pc_Do = do\<rparr>"

section \<open>Decoding\<close>

text \<open>A result is kept as raw JSON until its type is known.\<close>

record prometheusResponse =
  pr_Status :: string
  pr_ResultType :: string
  pr_Result :: "json list"

fun decodeRawList :: "json \<Rightarrow> goerr + json list" where
  "decodeRawList JNull = Inr []"
| "decodeRawList (JArr vs) = Inr vs"
| "decodeRawList v = Inl (typeError ''[]json.RawMessage'')"

definition setData :: "string \<Rightarrow> json \<Rightarrow> prometheusResponse \<Rightarrow> goerr + prometheusResponse" where
  "setData f v r =
    (if f = ''resulttype'' then mapRight (\<lambda>x. r\<lparr>pr_ResultType := x\<rparr>) (decodeString (pr_ResultType r) v)
     else if f = ''result'' then mapRight (\<lambda>x. r\<lparr>pr_Result := x\<rparr>) (decodeRawList v)
     else Inr r)"

definition setPromResponse :: "string \<Rightarrow> json \<Rightarrow> prometheusResponse \<Rightarrow> goerr + prometheusResponse" where
  "setPromResponse f v r =
    (if f = ''status'' then mapRight (\<lambda>x. r\<lparr>pr_Status := x\<rparr>) (decodeString (pr_Status r) v)
     else if f = ''data'' then decodeStruct ''struct'' setData v r
     else Inr r)"

definition decodePromResponse :: "jtext \<Rightarrow> goerr + prometheusResponse" where
  "decodePromResponse body = (case body of
     JText v \<Rightarrow> decodeStruct ''prometheusResponse'' setPromResponse v \<lparr>pr_Status = [], pr_ResultType = [], pr_Result = []\<rparr>
   | JEmpty \<Rightarrow> Inl (ErrNew ''unexpected end of JSON input'')
   | JMalformed \<Rightarrow> Inl (ErrNew ''invalid character''))"

text \<open>A raw message that was never set is the empty text, which does not decode.\<close>

definition decodeRawString :: "json option \<Rightarrow> goerr + string" where
  "decodeRawString raw = (case raw of None \<Rightarrow> Inl (ErrNew ''unexpected end of JSON input'') | Some v \<Rightarrow> decodeString [] v)"

text \<open>The second element of a \<open>[2]json.RawMessage\<close>.\<close>

definition decodePair :: "json option \<Rightarrow> goerr + json option" where
  "decodePair raw = (case raw of
     None \<Rightarrow> Inl (ErrNew ''unexpected end of JSON input'')
   | Some JNull \<Rightarrow> Inr None
   | Some (JArr (a # b # rest)) \<Rightarrow> Inr (Some b)
   | Some (JArr _) \<Rightarrow> Inr None
   | Some v \<Rightarrow> Inl (typeError ''[2]json.RawMessage''))"

definition extractValueFromPair :: "json option \<Rightarrow> goerr + f64" where
  "extractValueFromPair raw = (case decodePair raw of
     Inl err \<Rightarrow> Inl (Errorf ''decoding value pair: '' [err])
   | Inr second \<Rightarrow> (case decodeRawString second of
       Inl err \<Rightarrow> Inl (Errorf ''decoding value string: '' [err])
     | Inr valStr \<Rightarrow> ParseFloat valStr))"

definition extractValueFromVectorElement :: "json \<Rightarrow> goerr + f64" where
  "extractValueFromVectorElement raw =
    (case decodeStruct ''struct'' (\<lambda>f v old. if f = ''value'' then Inr (Some v) else Inr old) raw None of
       Inl err \<Rightarrow> Inl (Errorf ''decoding vector element: '' [err])
     | Inr elemValue \<Rightarrow> extractValueFromPair elemValue)"

definition parseScalarFromQueryResponse :: "jtext \<Rightarrow> goerr + f64" where
  "parseScalarFromQueryResponse body = (case decodePromResponse body of
     Inl err \<Rightarrow> Inl (Errorf ''decoding Prometheus response: '' [err])
   | Inr r \<Rightarrow>
       if pr_Status r \<noteq> ''success'' then Inl (ErrNew (''Prometheus query status: '' @ show_quoted (pr_Status r)))
       else if pr_ResultType r = ''scalar'' then
         (if length (pr_Result r) \<noteq> 2 then
            Inl (ErrNew (''Prometheus scalar result must contain exactly 2 elements, got '' @ show_nat (length (pr_Result r))))
          else (case decodeString [] (pr_Result r ! 1) of
            Inl err \<Rightarrow> Inl (Errorf ''decoding scalar value string: '' [err])
          | Inr valStr \<Rightarrow> ParseFloat valStr))
       else if pr_ResultType r = ''vector'' then
         (if length (pr_Result r) \<noteq> 1 then
            Inl (ErrNew (''Prometheus vector result must contain exactly 1 element, got '' @ show_nat (length (pr_Result r)) @
              '' (metric may not exist yet or query returned multiple series)''))
          else extractValueFromVectorElement (pr_Result r ! 0))
       else Inl (ErrNew (''unsupported Prometheus result type: '' @ show_quoted (pr_ResultType r))))"

definition parseLastValueFromRangeResponse :: "jtext \<Rightarrow> goerr + f64" where
  "parseLastValueFromRangeResponse body = (case decodePromResponse body of
     Inl err \<Rightarrow> Inl (Errorf ''decoding Prometheus range response: '' [err])
   | Inr r \<Rightarrow>
       if pr_Status r \<noteq> ''success'' then Inl (ErrNew (''Prometheus range query status: '' @ show_quoted (pr_Status r)))
       else if length (pr_Result r) = 0 then Inl (ErrNew ''Prometheus range result is empty'')
       else (case decodeStruct ''struct'' (\<lambda>f v old. if f = ''values'' then decodeRawList v else Inr old) (pr_Result r ! 0) [] of
           Inl err \<Rightarrow> Inl (Errorf ''decoding range matrix element: '' [err])
         | Inr vals \<Rightarrow>
             if length vals = 0 then Inl (ErrNew ''range result has no values'')
             else extractValueFromPair (Some (vals ! (length vals - 1)))))"

section \<open>Queries\<close>

definition liftResult :: "goerr + 'a \<Rightarrow> ('s, 'a) act" where
  "liftResult r = (case r of Inl e \<Rightarrow> fail e | Inr x \<Rightarrow> ret x)"

definition QueryScalar :: "'s Client \<Rightarrow> string \<Rightarrow> ('s, f64) act" where
  "QueryScalar c query =
    andThen (wrapErr ''querying Prometheus: '' (pc_Do c (pc_baseURL c @ ''/api/v1/query'') [(''query'', query)]))
      (\<lambda>(status, body, txt).
         if status \<noteq> 200 then fail (ErrNew (''Prometheus returned HTTP '' @ show_nat status @ '': '' @ txt))
         else liftResult (parseScalarFromQueryResponse body))"

text \<open>Seconds with three decimals; \<open>d.Seconds()\<close> adds the whole seconds and the rest.\<close>

definition formatTime :: "time \<Rightarrow> string" where
  "formatTime t = show_f64 3 (f64_quot (round64 (of_int t)) 1000000000)"

fun f64_plus :: "f64 \<Rightarrow> rat \<Rightarrow> f64" where
  "f64_plus (Fin x) y = round64 (y + x)"
| "f64_plus v y = v"

definition formatDuration :: "duration \<Rightarrow> string" where
  "formatDuration d =
    show_f64 3 (f64_plus (f64_quot (Fin (of_int (d smod Second))) 1000000000) (of_int (d sdiv Second))) @ ''s''"

definition QueryRange :: "'s Client \<Rightarrow> string \<Rightarrow> time \<Rightarrow> time \<Rightarrow> duration \<Rightarrow> ('s, f64) act" where
  "QueryRange c query t0 t1 step =
    andThen (wrapErr ''querying Prometheus range: '' (pc_Do c (pc_baseURL c @ ''/api/v1/query_range'')
        [(''query'', query), (''start'', formatTime t0), (''end'', formatTime t1), (''step'', formatDuration step)]))
      (\<lambda>(status, body, txt).
         if status \<noteq> 200 then fail (ErrNew (''Prometheus returned HTTP '' @ show_nat status @ '': '' @ txt))
         else liftResult (parseLastValueFromRangeResponse body))"

end
