(* ===== verification/PromQL.thy ===== *)
theory PromQL
  imports Prom Api_Types
begin

text \<open>
  \<^verbatim>\<open>internal/rollout/promql.go\<close>: the queries over the canary's metrics, and their evaluation
  against the thresholds of the rollback policy.
\<close>

section \<open>Queries\<close>



definition promDuration :: "duration \<Rightarrow> goerr + string" where
  "promDuration d =
    (if d \<le> 0 then Inr ''0s''
     else if dur_rem d Second \<noteq> 0 then
       (if dur_rem d Millisecond = 0 then Inr (show_int (d sdiv Millisecond) @ ''ms'')
        else Inl (ErrNew (''duration '' @ show_duration d @
          '' has sub-millisecond precision, which PromQL range selectors cannot represent'')))
     else (let hours = d sdiv Hour; d1 = d - hours * Hour;
               mins = d1 sdiv Minute; d2 = d1 - mins * Minute;
               secs = d2 sdiv Second
           in Inr ((if 0 < hours then show_int hours @ ''h'' else []) @
                   (if 0 < mins then show_int mins @ ''m'' else []) @
                   (if 0 < secs then show_int secs @ ''s'' else []))))"

definition canarySelector :: "string \<Rightarrow> string \<Rightarrow> string" where
  "canarySelector namespace adName =
    ''namespace='' @ show_quoted namespace @ '',app_kubernetes_io_name='' @ show_quoted adName @
    '',agentrax_io_variant='' @ show_quoted ''canary''"

definition requestCountQuery :: "string \<Rightarrow> string \<Rightarrow> duration \<Rightarrow> goerr + string" where
  "requestCountQuery adName namespace window = (case promDuration window of
     Inl err \<Rightarrow> Inl err
   | Inr d \<Rightarrow> Inr (''sum(increase(http_requests_total{'' @ canarySelector namespace adName @ ''}['' @ d @ ''])) or vector(0)''))"

definition errorRateQuery :: "string \<Rightarrow> string \<Rightarrow> duration \<Rightarrow> goerr + string" where
  "errorRateQuery adName namespace window = (case promDuration window of
     Inl err \<Rightarrow> Inl err
   | Inr d \<Rightarrow> Inr (
       ''(sum(increase(http_requests_total{'' @ canarySelector namespace adName @ '',code=~'' @ show_quoted ''5..'' @ ''}['' @ d @
       ''])) or vector(0)) / on() group_left clamp_min(sum(increase(http_requests_total{'' @
       canarySelector namespace adName @ ''}['' @ d @ ''])) or vector(0), 1)''))"

definition p99LatencyQuery :: "string \<Rightarrow> string \<Rightarrow> duration \<Rightarrow> goerr + string" where
  "p99LatencyQuery adName namespace window = (case promDuration window of
     Inl err \<Rightarrow> Inl err
   | Inr d \<Rightarrow> Inr (
       ''histogram_quantile(0.99, sum by (le) (rate(http_request_duration_milliseconds_bucket{'' @
       canarySelector namespace adName @ ''}['' @ d @ ''])))''))"

section \<open>Evaluation\<close>

record EvaluationResult =
  ev_SampleCount :: f64
  ev_ErrorRate :: f64
  ev_P99LatencyMs :: f64
  ev_SampleTooSmall :: bool
  ev_ThresholdBreached :: bool
  ev_BreachReason :: string

definition zero_EvaluationResult :: EvaluationResult where
  "zero_EvaluationResult = \<lparr>ev_SampleCount = Fin 0, ev_ErrorRate = Fin 0, ev_P99LatencyMs = Fin 0,
     ev_SampleTooSmall = False, ev_ThresholdBreached = False, ev_BreachReason = []\<rparr>"

definition minSample :: "RollbackPolicy \<Rightarrow> f64" where
  "minSample policy = (if rb_MinRequestSample policy \<le>s 0 then Fin 100 else f64_of_int32 (rb_MinRequestSample policy))"

definition maxErrorRateStr :: "RollbackPolicy \<Rightarrow> string" where
  "maxErrorRateStr policy = (if rb_MaxErrorRate policy = [] then ''1%'' else rb_MaxErrorRate policy)"

definition maxP99 :: "RollbackPolicy \<Rightarrow> int32" where
  "maxP99 policy = (if rb_MaxP99LatencyMs policy \<le>s 0 then 500 else rb_MaxP99LatencyMs policy)"

definition Evaluate :: "'s Client \<Rightarrow> AgentDeployment \<Rightarrow> duration \<Rightarrow> ('s, EvaluationResult) act" where
  "Evaluate promClient ad window =
    (let name = ad_Name ad; ns = ad_Namespace ad; policy = ro_Rollback (spec_Rollout (ad_Spec ad)) in
     andThen (wrapErr ''building request count query: '' (liftResult (requestCountQuery name ns window))) (\<lambda>reqCountQuery.
     andThen (wrapErr ''querying request count: '' (QueryScalar promClient reqCountQuery)) (\<lambda>sampleCount.
     if f64_less sampleCount (minSample policy) then
       ret (zero_EvaluationResult\<lparr>ev_SampleCount := sampleCount, ev_SampleTooSmall := True\<rparr>)
     else
     andThen (wrapErr ''building error rate query: '' (liftResult (errorRateQuery name ns window))) (\<lambda>errRateQuery.
     andThen (wrapErr ''querying error rate: '' (QueryScalar promClient errRateQuery)) (\<lambda>errorRate.
     case ParseErrorRate (maxErrorRateStr policy) of
       Inl parseErr \<Rightarrow> ret (zero_EvaluationResult\<lparr>ev_SampleCount := sampleCount, ev_ErrorRate := errorRate,
         ev_ThresholdBreached := True,
         ev_BreachReason := ''invalid maxErrorRate '' @ show_quoted (maxErrorRateStr policy) @ '': '' @ err_text parseErr\<rparr>)
     | Inr maxRate \<Rightarrow>
       if f64_less maxRate errorRate then
         ret (zero_EvaluationResult\<lparr>ev_SampleCount := sampleCount, ev_ErrorRate := errorRate,
           ev_ThresholdBreached := True,
           ev_BreachReason := ''error rate '' @ show_f64 2 (f64_scale errorRate 100) @ ''% exceeds threshold '' @
             show_f64 2 (f64_scale maxRate 100) @ ''%''\<rparr>)
       else
       andThen (wrapErr ''building p99 latency query: '' (liftResult (p99LatencyQuery name ns window))) (\<lambda>p99Query.
       andThen (wrapErr ''querying p99 latency: '' (QueryScalar promClient p99Query)) (\<lambda>p99Ms.
       if f64_less (f64_of_int32 (maxP99 policy)) p99Ms then
         ret (zero_EvaluationResult\<lparr>ev_SampleCount := sampleCount, ev_ErrorRate := errorRate, ev_P99LatencyMs := p99Ms,
           ev_ThresholdBreached := True,
           ev_BreachReason := ''p99 latency '' @ show_f64 1 p99Ms @ ''ms exceeds threshold '' @ show_int32 (maxP99 policy) @ ''ms''\<rparr>)
       else
         ret (zero_EvaluationResult\<lparr>ev_SampleCount := sampleCount, ev_ErrorRate := errorRate, ev_P99LatencyMs := p99Ms\<rparr>))))))))"

section \<open>What a verdict means\<close>

text \<open>What a query that may not be writable answers.\<close>

definition answer :: "(string \<Rightarrow> goerr + 'a) \<Rightarrow> goerr + string \<Rightarrow> 'a option" where
  "answer ans query = (case query of Inl err \<Rightarrow> None | Inr q \<Rightarrow> (case ans q of Inl err \<Rightarrow> None | Inr x \<Rightarrow> Some x))"

text \<open>The verdict the thresholds ask for, from the three answers; a measure that has no answer yields no verdict.\<close>

datatype verdict_kind = TooFewSamples | Breach | Healthy

definition thresholdVerdict :: "RollbackPolicy \<Rightarrow> f64 option \<Rightarrow> f64 option \<Rightarrow> f64 option \<Rightarrow> verdict_kind option" where
  "thresholdVerdict policy count rate latency =
    Option.bind count (\<lambda>n. if f64_less n (minSample policy) then Some TooFewSamples
      else Option.bind rate (\<lambda>x. if (\<forall>limit. ParseErrorRate (maxErrorRateStr policy) = Inr limit \<longrightarrow> f64_less limit x) then Some Breach
      else Option.bind latency (\<lambda>l. Some (if f64_less (f64_of_int32 (maxP99 policy)) l then Breach else Healthy))))"

definition verdictOf :: "EvaluationResult \<Rightarrow> verdict_kind" where
  "verdictOf r = (if ev_SampleTooSmall r then TooFewSamples else if ev_ThresholdBreached r then Breach else Healthy)"

text \<open>A quantile over a window without observations is not a number, and no comparison with it holds: such a latency
  counts as within its limit.\<close>

lemma not_less_NaN [simp]: "\<not> f64_less x NaN"
  by (cases x) simp_all

lemma missing_latency_is_healthy:
  assumes "ParseErrorRate (maxErrorRateStr policy) = Inr limit" and "\<not> f64_less n (minSample policy)" and "\<not> f64_less limit x"
  shows "thresholdVerdict policy (Some n) (Some x) (Some NaN) = Some Healthy"
  using assms by (simp add: thresholdVerdict_def)

text \<open>A Prometheus that gives the same answer to every query.\<close>

definition constant_prom :: "string \<Rightarrow> 's Client" where
  "constant_prom x = \<lparr>pc_baseURL = [], pc_Timeout = 10 * Second,
     pc_Do = \<lambda>url q. ret (200, JText (JObj [(''status'', JStr ''success''),
       (''data'', JObj [(''resultType'', JStr ''scalar''), (''result'', JArr [JNum 0, JStr x])])]), [])\<rparr>"

definition constant_answer :: "string \<Rightarrow> goerr + f64" where
  "constant_answer x = parseScalarFromQueryResponse (JText (JObj [(''status'', JStr ''success''),
     (''data'', JObj [(''resultType'', JStr ''scalar''), (''result'', JArr [JNum 0, JStr x])])]))"

lemma QueryScalar_constant: "QueryScalar (constant_prom x) q s = (constant_answer x, s)"
  by (simp add: QueryScalar_def constant_prom_def constant_answer_def andThen_def wrapErr_def ret_def fail_def liftResult_def
      split: sum.splits)

definition sample_watched :: AgentDeployment where
  "sample_watched = \<lparr>ad_Meta = zero_ObjectMeta\<lparr>om_Name := ''a'', om_Namespace := ''ns''\<rparr>, ad_Spec = sample_spec ''t'' ''0'' 5,
     ad_Status = zero_AgentDeploymentStatus\<rparr>"

section \<open>Properties\<close>

text \<open>C26. The verdict on a canary is the one its thresholds ask for: too few requests give none of the others a say, a breach is reported
  exactly when the error rate or the 99th percentile is above its limit or the limit is not a rate, and the canary is healthy only
  when all three queries were answered within their limits. When a query that is needed has no answer, there is no verdict but an error.\<close>

theorem Evaluate_verdict:
  assumes "\<And>q s. QueryScalar pc q s = (ans q, s)"
  shows "let policy = ro_Rollback (spec_Rollout (ad_Spec ad)); ask = (\<lambda>query. answer ans (query (ad_Name ad) (ad_Namespace ad) window))
    in (case fst (Evaluate pc ad window s) of Inl err \<Rightarrow> None | Inr r \<Rightarrow> Some (verdictOf r)) =
       thresholdVerdict policy (ask requestCountQuery) (ask errorRateQuery) (ask p99LatencyQuery)"
  by (auto simp: Evaluate_def Let_def thresholdVerdict_def answer_def verdictOf_def zero_EvaluationResult_def andThen_def wrapErr_def
      liftResult_def assms ret_def fail_def split: sum.splits option.splits if_splits)

theorem Evaluate_verdict_witness:
  "(case fst (Evaluate (constant_prom ''99'') sample_watched (5 * Minute) ()) of Inl err \<Rightarrow> None | Inr r \<Rightarrow> Some (verdictOf r)) =
     Some TooFewSamples"
proof -
  have num: "constant_answer ''99'' = Inr (Fin 99)" and query: "promDuration (5 * Minute) = Inr ''5m''"
    by code_simp+
  show ?thesis
    using Evaluate_verdict [of "constant_prom ''99''" "\<lambda>_. constant_answer ''99''" sample_watched "5 * Minute" "()"]
    by (simp add: QueryScalar_constant num query [simplified] answer_def requestCountQuery_def thresholdVerdict_def sample_watched_def
        sample_spec_def zero_AgentDeploymentSpec_def minSample_def Let_def)
qed

end
