(* ===== verification/Canary.thy ===== *)
theory Canary
  imports Scaling Registrar PromQL
begin

text \<open>
  \<^verbatim>\<open>internal/rollout/canary.go\<close>: the canary state machine. Its state is the status of the
  AgentDeployment (step index, weight, pause start) together with the canary Deployment, the canary
  Service and the HTTPRoute it creates; \<open>Step\<close> runs once per reconcile, \<open>promote\<close> and \<open>Rollback\<close>
  end a rollout.
\<close>

section \<open>The controller\<close>

record 's Controller =
  cc_Client :: "'s kube"
  cc_PromClient :: "'s Client"
  cc_Registrar :: "'s AgentRegistrar option"
  cc_GatewayName :: string
  cc_GatewayNamespace :: string
  cc_FailSafeTimeout :: duration

abbreviation canaryVariantLabel :: string where
  "canaryVariantLabel \<equiv> ''agentrax.io/variant''"

abbreviation canaryVariantValue :: string where
  "canaryVariantValue \<equiv> ''canary''"

definition maxPauseExtensionMultiplier :: int where
  "maxPauseExtensionMultiplier = 3"

definition canaryDeploymentSuffix :: string where
  "canaryDeploymentSuffix = ''-canary''"

abbreviation canaryKey :: "AgentDeployment \<Rightarrow> NamespacedName" where
  "canaryKey ad \<equiv> \<lparr>nn_Namespace = ad_Namespace ad, nn_Name = ad_Name ad @ canaryDeploymentSuffix\<rparr>"

section \<open>The canary Deployment\<close>

definition canaryLabels :: "AgentDeployment \<Rightarrow> labels" where
  "canaryLabels ad =
    [(''app.kubernetes.io/name'', ad_Name ad),
     (''app.kubernetes.io/managed-by'', ''agentrax''),
     (''agentrax.io/tenant'', spec_TenantRef (ad_Spec ad)),
     (canaryVariantLabel, canaryVariantValue)]"

definition desiredCanaryDeployment :: "AgentDeployment \<Rightarrow> string \<Rightarrow> Deployment" where
  "desiredCanaryDeployment ad name =
    (let port = (if spec_Port (ad_Spec ad) = 0 then 8080 else spec_Port (ad_Spec ad)); labels = canaryLabels ad
     in (zero_Deployment \<lparr>nn_Namespace = ad_Namespace ad, nn_Name = name\<rparr>)
        \<lparr>dep_Meta := zero_ObjectMeta\<lparr>om_Name := name, om_Namespace := ad_Namespace ad, om_Labels := labels\<rparr>,
         dep_Replicas := Some 1,
         dep_Selector := labels,
         dep_TemplateLabels := labels,
         dep_Containers :=
           [\<lparr>ct_Name = ''agent'', ct_Image = status_CanaryVersion (ad_Status ad),
             ct_Ports = [\<lparr>cp_Name = [], cp_ContainerPort = port, cp_Protocol = ''TCP''\<rparr>],
             ct_Resources = spec_Resources (ad_Spec ad), ct_Env = spec_Env (ad_Spec ad), ct_Args = spec_Args (ad_Spec ad)\<rparr>]\<rparr>)"

definition mutateCanaryDeployment :: "'s kube \<Rightarrow> AgentDeployment \<Rightarrow> Deployment \<Rightarrow> Deployment \<Rightarrow> goerr + Deployment" where
  "mutateCanaryDeployment K ad desired existing =
    withOwner K ''setting controller reference: '' ad dep_Meta dep_Meta_update
      (existing\<lparr>dep_Meta := (dep_Meta existing)\<lparr>om_Labels := om_Labels (dep_Meta desired)\<rparr>,
         dep_Selector := (if om_ResourceVersion (dep_Meta existing) = [] then dep_Selector desired else dep_Selector existing),
         dep_Replicas := dep_Replicas desired,
         dep_TemplateLabels := dep_TemplateLabels desired,
         dep_Containers := dep_Containers desired\<rparr>)"

definition ensureCanaryDeployment :: "'s Controller \<Rightarrow> AgentDeployment \<Rightarrow> ('s, unit) act" where
  "ensureCanaryDeployment c ad =
    (let K = cc_Client c; desired = desiredCanaryDeployment ad (ad_Name ad @ canaryDeploymentSuffix)
     in andThen (wrapErr ''reconciling canary deployment: ''
          (r_CreateOrUpdate (k_dep K) (canaryKey ad) (mutateCanaryDeployment K ad desired))) (\<lambda>_. ret ()))"

text \<open>The four functions that delete an object share their shape: a missing object is not an
  error, neither before nor while deleting it.\<close>

definition deleteIfFound :: "('s, 'o) resource \<Rightarrow> NamespacedName \<Rightarrow> string \<Rightarrow> string \<Rightarrow> ('s, unit) act" where
  "deleteIfFound R k getMsg delMsg =
    catchErr (r_Get R k)
      (\<lambda>err. if IsNotFound err then ret () else fail (Errorf getMsg [err]))
      (\<lambda>obj. catchErr (r_Delete R obj)
        (\<lambda>err. if IsNotFound err then ret () else fail (Errorf delMsg [err]))
        ret)"

definition deleteCanaryDeployment :: "'s Controller \<Rightarrow> AgentDeployment \<Rightarrow> ('s, unit) act" where
  "deleteCanaryDeployment c ad = deleteIfFound (k_dep (cc_Client c)) (canaryKey ad)
     ''getting canary deployment for deletion: '' ''deleting canary deployment: ''"

section \<open>The canary Service\<close>

definition desiredCanaryService :: "AgentDeployment \<Rightarrow> string \<Rightarrow> Service" where
  "desiredCanaryService ad name =
    (let port = (if spec_Port (ad_Spec ad) = 0 then 8080 else spec_Port (ad_Spec ad)); labels = canaryLabels ad
     in \<lparr>svc_Meta = zero_ObjectMeta\<lparr>om_Name := name, om_Namespace := ad_Namespace ad, om_Labels := labels\<rparr>,
         svc_Selector = labels,
         svc_Ports = [\<lparr>svp_Name = ''agent'', svp_Port = port, svp_TargetPort = port, svp_Protocol = ''TCP''\<rparr>],
         svc_Type = ''ClusterIP''\<rparr>)"

definition mutateService :: "'s kube \<Rightarrow> string \<Rightarrow> AgentDeployment \<Rightarrow> Service \<Rightarrow> Service \<Rightarrow> goerr + Service" where
  "mutateService K msg ad desired existing =
    withOwner K msg ad svc_Meta svc_Meta_update
      (existing\<lparr>svc_Meta := (svc_Meta existing)\<lparr>om_Labels := om_Labels (svc_Meta desired)\<rparr>,
         svc_Selector := svc_Selector desired, svc_Ports := svc_Ports desired, svc_Type := svc_Type desired\<rparr>)"

definition ensureCanaryService :: "'s Controller \<Rightarrow> AgentDeployment \<Rightarrow> ('s, unit) act" where
  "ensureCanaryService c ad =
    (let K = cc_Client c; desired = desiredCanaryService ad (ad_Name ad @ canaryDeploymentSuffix)
     in andThen (wrapErr ''reconciling canary service: ''
          (r_CreateOrUpdate (k_svc K) (canaryKey ad) (mutateService K ''setting controller reference: '' ad desired))) (\<lambda>_. ret ()))"

definition deleteCanaryService :: "'s Controller \<Rightarrow> AgentDeployment \<Rightarrow> ('s, unit) act" where
  "deleteCanaryService c ad = deleteIfFound (k_svc (cc_Client c)) (canaryKey ad)
     ''getting canary service for deletion: '' ''deleting canary service: ''"

section \<open>The HTTPRoute\<close>

definition desiredHTTPRoute :: "'s Controller \<Rightarrow> AgentDeployment \<Rightarrow> int32 \<Rightarrow> int32 \<Rightarrow> HTTPRoute" where
  "desiredHTTPRoute c ad stableWeight canaryWeight =
    (let portNumber = (if spec_Port (ad_Spec ad) = 0 then 8080 else spec_Port (ad_Spec ad));
         backend = (\<lambda>name weight. \<lparr>be_Kind = ''Service'', be_Group = [], be_Name = name, be_Port = portNumber, be_Weight = weight\<rparr>)
     in \<lparr>hr_Meta = zero_ObjectMeta\<lparr>om_Name := ad_Name ad, om_Namespace := ad_Namespace ad,
           om_Labels := [(''app.kubernetes.io/name'', ad_Name ad), (''app.kubernetes.io/managed-by'', ''agentrax'')]\<rparr>,
         hr_Spec = \<lparr>hr_ParentRefs = [(cc_GatewayName c, cc_GatewayNamespace c)],
           hr_PathType = ''PathPrefix'', hr_PathValue = ''/'',
           hr_BackendRefs = [backend (ad_Name ad) stableWeight, backend (ad_Name ad @ canaryDeploymentSuffix) canaryWeight]\<rparr>\<rparr>)"

definition ensureHTTPRoute :: "'s Controller \<Rightarrow> AgentDeployment \<Rightarrow> int32 \<Rightarrow> int32 \<Rightarrow> ('s, unit) act" where
  "ensureHTTPRoute c ad stableWeight canaryWeight =
    (let K = cc_Client c; desired = desiredHTTPRoute c ad stableWeight canaryWeight in
     catchErr (r_Get (k_route K) (ad_Key ad))
      (\<lambda>err. if IsNotFound err then
          (case withOwner K ''setting owner ref on httproute: '' ad hr_Meta hr_Meta_update desired of
             Inl e \<Rightarrow> fail e
           | Inr obj \<Rightarrow> andThen (wrapErr ''creating httproute: '' (r_Create (k_route K) obj)) (\<lambda>_. ret ()))
        else fail (Errorf ''getting httproute: '' [err]))
      (\<lambda>existing.
        case withOwner K ''setting controller reference on existing httproute: '' ad hr_Meta hr_Meta_update existing of
          Inl e \<Rightarrow> fail e
        | Inr existing' \<Rightarrow>
            if k_EqualRouteSpec K (hr_Spec existing') (hr_Spec desired) then ret ()
            else andThen (wrapErr ''updating httproute weights: ''
              (r_Update (k_route K) (existing'\<lparr>hr_Spec := hr_Spec desired\<rparr>))) (\<lambda>_. ret ())))"

definition deleteHTTPRoute :: "'s Controller \<Rightarrow> AgentDeployment \<Rightarrow> ('s, unit) act" where
  "deleteHTTPRoute c ad = deleteIfFound (k_route (cc_Client c)) (ad_Key ad)
     ''getting httproute for deletion: '' ''deleting httproute: ''"

section \<open>The HPA\<close>

definition PauseHPA :: "'s Controller \<Rightarrow> AgentDeployment \<Rightarrow> ('s, unit) act" where
  "PauseHPA c ad = deleteIfFound (k_hpa (cc_Client c)) (ad_Key ad) ''getting HPA for pause: '' ''pausing HPA: ''"

definition mutateHPA :: "'s kube \<Rightarrow> string \<Rightarrow> AgentDeployment \<Rightarrow> HorizontalPodAutoscaler \<Rightarrow> HorizontalPodAutoscaler \<Rightarrow>
    goerr + HorizontalPodAutoscaler" where
  "mutateHPA K msg ad desired existing =
    withOwner K msg ad hpa_Meta hpa_Meta_update
      (existing\<lparr>hpa_Meta := (hpa_Meta existing)\<lparr>om_Labels := om_Labels (hpa_Meta desired)\<rparr>,
         hpa_ScaleTargetRef := hpa_ScaleTargetRef desired,
         hpa_MinReplicas := hpa_MinReplicas desired, hpa_MaxReplicas := hpa_MaxReplicas desired,
         hpa_Metrics := hpa_Metrics desired,
         hpa_ScaleUp := hpa_ScaleUp desired, hpa_ScaleDown := hpa_ScaleDown desired\<rparr>)"

definition restoreHPA :: "'s Controller \<Rightarrow> AgentDeployment \<Rightarrow> ('s, unit) act" where
  "restoreHPA c ad =
    (let K = cc_Client c; desired = BuildHPA ad 0
     in andThen (wrapErr ''restoring HPA: ''
          (r_CreateOrUpdate (k_hpa K) (metaKey (hpa_Meta desired)) (mutateHPA K ''setting controller reference: '' ad desired)))
        (\<lambda>_. ret ()))"

section \<open>Rollback\<close>

definition setImage0 :: "string \<Rightarrow> Deployment \<Rightarrow> Deployment" where
  "setImage0 img dep = dep\<lparr>dep_Containers := (case dep_Containers dep of
     [] \<Rightarrow> [] | ct # cts \<Rightarrow> ct\<lparr>ct_Image := img\<rparr> # cts)\<rparr>"

definition restoreStableImage :: "'s Controller \<Rightarrow> AgentDeployment \<Rightarrow> ('s, unit) act" where
  "restoreStableImage c ad =
    (if status_StableVersion (ad_Status ad) = [] then ret ()
     else catchErr (r_Get (k_dep (cc_Client c)) (ad_Key ad))
       (\<lambda>err. if IsNotFound err then ret () else fail (Errorf ''fetching stable deployment for rollback: '' [err]))
       (\<lambda>dep. if dep_Containers dep = [] then ret ()
         else andThen (wrapErr ''restoring stable deployment image during rollback: ''
           (r_Update (k_dep (cc_Client c)) (setImage0 (status_StableVersion (ad_Status ad)) dep))) (\<lambda>_. ret ())))"

definition rolledBack :: "'s kube \<Rightarrow> AgentDeployment \<Rightarrow> string \<Rightarrow> string \<Rightarrow> AgentDeployment \<Rightarrow> AgentDeployment" where
  "rolledBack K ad reason message latest =
    latest\<lparr>ad_Status := (ad_Status latest)
      \<lparr>status_Phase := PhaseRolloutFailed,
       status_CanaryVersion := (if status_CanaryVersion (ad_Status latest) = [] then spec_Image (ad_Spec ad)
         else status_CanaryVersion (ad_Status latest)),
       status_CanaryWeight := 0,
       status_CanaryStepIndex := 0,
       status_PauseStartedAt := None,
       status_PromUnreachableSince := None,
       status_Conditions := k_RemoveStatusCondition K
         (k_SetStatusCondition K (status_Conditions (ad_Status latest))
           \<lparr>cond_Type = ''RolloutFailed'', cond_Status = ConditionTrue, cond_Reason = reason, cond_Message = message,
            cond_ObservedGeneration = om_Generation (ad_Meta latest)\<rparr>)
         ConditionSampleInsufficient\<rparr>\<rparr>"

definition Rollback :: "'s Controller \<Rightarrow> AgentDeployment \<Rightarrow> string \<Rightarrow> string \<Rightarrow> ('s, unit) act" where
  "Rollback c ad reason message =
    (let K = cc_Client c in
     andThen (restoreStableImage c ad) (\<lambda>_.
     andThen (wrapErr ''deleting canary deployment during rollback: '' (deleteCanaryDeployment c ad)) (\<lambda>_.
     andThen (wrapErr ''deleting canary service during rollback: '' (deleteCanaryService c ad)) (\<lambda>_.
     andThen (wrapErr ''deleting httproute during rollback: '' (deleteHTTPRoute c ad)) (\<lambda>_.
     andThen (wrapErr ''restoring HPA during rollback: '' (restoreHPA c ad)) (\<lambda>_.
     andThen (wrapErr ''re-fetching AD for rollback status update: '' (r_Get (k_ad K) (ad_Key ad))) (\<lambda>latest.
     andThen (wrapErr ''updating status after rollback: ''
       (r_StatusUpdate (k_ad K) (rolledBack K ad reason message latest))) (\<lambda>_.
     ret ()))))))))"

section \<open>Promotion\<close>

definition promoted :: "'s kube \<Rightarrow> string \<Rightarrow> AgentDeployment \<Rightarrow> AgentDeployment" where
  "promoted K version latest =
    latest\<lparr>ad_Status := (ad_Status latest)
      \<lparr>status_StableVersion := version,
       status_CanaryVersion := [],
       status_CanaryWeight := 0,
       status_CanaryStepIndex := 0,
       status_PauseStartedAt := None,
       status_PromUnreachableSince := None,
       status_Phase := PhaseRunning,
       status_Conditions := k_RemoveStatusCondition K
         (k_RemoveStatusCondition K (status_Conditions (ad_Status latest)) ''RolloutFailed'')
         ConditionSampleInsufficient\<rparr>\<rparr>"

text \<open>Registering again after a promotion never fails it: errors are logged.\<close>

definition reregister :: "'s Controller \<Rightarrow> AgentDeployment \<Rightarrow> ('s, unit) act" where
  "reregister c latest = (case cc_Registrar c of
     None \<Rightarrow> ret ()
   | Some A \<Rightarrow>
       if \<not> mcp_Expose (spec_MCP (ad_Spec latest)) then ret ()
       else catchErr (ar_Register A latest) (\<lambda>_. ret ()) (\<lambda>_.
         if status_Registered (ad_Status latest) then ret ()
         else catchErr (r_StatusUpdate (k_ad (cc_Client c))
             (latest\<lparr>ad_Status := (ad_Status latest)\<lparr>status_Registered := True\<rparr>\<rparr>)) (\<lambda>_. ret ()) (\<lambda>_. ret ())))"

definition promote :: "'s Controller \<Rightarrow> AgentDeployment \<Rightarrow> ('s, unit) act" where
  "promote c ad =
    (let K = cc_Client c; version = status_CanaryVersion (ad_Status ad) in
     if version = [] then fail (ErrNew ''cannot promote: canaryVersion is empty'')
     else
     andThen (wrapErr ''fetching stable deployment for promotion: '' (r_Get (k_dep K) (ad_Key ad))) (\<lambda>dep.
     andThen (wrapErr ''updating stable deployment image during promotion: ''
       (r_Update (k_dep K) (setImage0 version dep))) (\<lambda>_.
     andThen (wrapErr ''deleting canary deployment during promotion: '' (deleteCanaryDeployment c ad)) (\<lambda>_.
     andThen (wrapErr ''deleting canary service during promotion: '' (deleteCanaryService c ad)) (\<lambda>_.
     andThen (wrapErr ''deleting httproute during promotion: '' (deleteHTTPRoute c ad)) (\<lambda>_.
     andThen (wrapErr ''restoring HPA during promotion: '' (restoreHPA c ad)) (\<lambda>_.
     andThen (wrapErr ''re-fetching AD for promotion status update: '' (r_Get (k_ad K) (ad_Key ad))) (\<lambda>latest.
     andThen (wrapErr ''updating status after promotion: '' (r_StatusUpdate (k_ad K) (promoted K version latest))) (\<lambda>latest.
     reregister c latest)))))))))"

section \<open>Steps\<close>

definition executeSetWeight :: "'s Controller \<Rightarrow> AgentDeployment \<Rightarrow> int \<Rightarrow> int32 \<Rightarrow> ('s, Result) act" where
  "executeSetWeight c ad idx weight =
    (let K = cc_Client c; atStep = ('' (step '' @ show_int idx @ ''): ''); stableWeight = 100 - weight in
     andThen (wrapErr (''ensuring canary deployment'' @ atStep) (ensureCanaryDeployment c ad)) (\<lambda>_.
     andThen (wrapErr (''ensuring canary service'' @ atStep) (ensureCanaryService c ad)) (\<lambda>_.
     andThen (wrapErr (''ensuring httproute'' @ atStep) (ensureHTTPRoute c ad stableWeight weight)) (\<lambda>_.
     andThen (wrapErr ''re-fetching AD after setWeight: '' (r_Get (k_ad K) (ad_Key ad))) (\<lambda>latest.
     andThen (wrapErr ''updating status after setWeight: '' (r_StatusUpdate (k_ad K)
       (latest\<lparr>ad_Status := (ad_Status latest)\<lparr>status_CanaryWeight := weight, status_CanaryStepIndex := idx + 1,
         status_PauseStartedAt := None\<rparr>\<rparr>))) (\<lambda>_.
     ret (RequeueAfter Second)))))))"

definition maxWait :: "duration \<Rightarrow> duration" where
  "maxWait duration = (let w = dur_mult maxPauseExtensionMultiplier duration in if 15 * Minute < w then 15 * Minute else w)"

text \<open>The clock value \<open>now\<close> is shared: once \<open>&now\<close> is the status field and the status is written,
  the server's answer is decoded into it. After a fresh mark it is the stored time itself.\<close>

definition markUnreachable :: "'s kube \<Rightarrow> time \<Rightarrow> AgentDeployment \<Rightarrow> ('s, AgentDeployment \<times> time \<times> time) act" where
  "markUnreachable K now latest = (case status_PromUnreachableSince (ad_Status latest) of
     Some since \<Rightarrow> ret (latest, now, since)
   | None \<Rightarrow> andThen (wrapErr ''recording prom unreachable time: '' (r_StatusUpdate (k_ad K)
         (latest\<lparr>ad_Status := (ad_Status latest)\<lparr>status_PromUnreachableSince := Some now\<rparr>\<rparr>))) (\<lambda>latest'.
       case status_PromUnreachableSince (ad_Status latest') of
         None \<Rightarrow> fail (RuntimePanic ''invalid memory address or nil pointer dereference'')
       | Some since \<Rightarrow> ret (latest', since, since)))"

definition promUnreachable :: "'s Controller \<Rightarrow> time \<Rightarrow> AgentDeployment \<Rightarrow> ('s, Result) act" where
  "promUnreachable c now latest =
    andThen (markUnreachable (cc_Client c) now latest) (\<lambda>(latest', now', since).
    let unreachableDuration = time_sub now' since in
    if cc_FailSafeTimeout c \<le> unreachableDuration then
      andThen (Rollback c latest' ''PrometheusUnavailable''
        (''Prometheus unreachable for '' @ show_duration unreachableDuration @
         '' (fail-safe timeout: '' @ show_duration (cc_FailSafeTimeout c) @ '')'')) (\<lambda>_. ret NoRequeue)
    else ret (RequeueAfter (10 * Second)))"

definition clearUnreachable :: "'s kube \<Rightarrow> AgentDeployment \<Rightarrow> ('s, AgentDeployment) act" where
  "clearUnreachable K latest =
    (if status_PromUnreachableSince (ad_Status latest) = None then ret latest
     else wrapErr ''clearing prom unreachable time: '' (r_StatusUpdate (k_ad K)
       (latest\<lparr>ad_Status := (ad_Status latest)\<lparr>status_PromUnreachableSince := None\<rparr>\<rparr>)))"

definition sampleInsufficient :: "AgentDeployment \<Rightarrow> EvaluationResult \<Rightarrow> Condition" where
  "sampleInsufficient latest result =
    \<lparr>cond_Type = ConditionSampleInsufficient, cond_Status = ConditionTrue, cond_Reason = ''InsufficientSample'',
     cond_Message = ''request count '' @ show_f64 0 (ev_SampleCount result) @ '' below minimum '' @
       show_f64 0 (f64_of_int32 (rb_MinRequestSample (ro_Rollback (spec_Rollout (ad_Spec latest))))) @ ''; extending pause'',
     cond_ObservedGeneration = om_Generation (ad_Meta latest)\<rparr>"

text \<open>The end of a pause: wait for the rest of it, or advance.\<close>

definition finishPause :: "'s kube \<Rightarrow> int \<Rightarrow> duration \<Rightarrow> duration \<Rightarrow> AgentDeployment \<Rightarrow> ('s, Result) act" where
  "finishPause K idx duration elapsed latest =
    (if elapsed < duration then ret (RequeueAfter (dur_sub duration elapsed))
     else andThen (wrapErr ''advancing step index after pause: '' (r_StatusUpdate (k_ad K)
       (latest\<lparr>ad_Status := (ad_Status latest)
         \<lparr>status_Conditions := k_RemoveStatusCondition K (status_Conditions (ad_Status latest)) ConditionSampleInsufficient,
          status_CanaryStepIndex := idx + 1, status_PauseStartedAt := None\<rparr>\<rparr>))) (\<lambda>_.
       ret (RequeueAfter Second)))"

definition extendPause :: "'s kube \<Rightarrow> int \<Rightarrow> duration \<Rightarrow> duration \<Rightarrow> EvaluationResult \<Rightarrow> AgentDeployment \<Rightarrow> ('s, Result) act" where
  "extendPause K idx duration elapsed result latest =
    andThen (wrapErr ''setting SampleInsufficient condition: '' (r_StatusUpdate (k_ad K)
      (latest\<lparr>ad_Status := (ad_Status latest)\<lparr>status_Conditions :=
        k_SetStatusCondition K (status_Conditions (ad_Status latest)) (sampleInsufficient latest result)\<rparr>\<rparr>))) (\<lambda>latest'.
    if elapsed < maxWait duration then
      (if duration = 0 then fail (RuntimePanic ''integer divide by zero'')
       else ret (RequeueAfter (dur_sub duration (dur_rem elapsed duration))))
    else finishPause K idx duration elapsed latest')"

text \<open>What follows an evaluation that succeeded.\<close>

definition afterEvaluation :: "'s Controller \<Rightarrow> int \<Rightarrow> duration \<Rightarrow> duration \<Rightarrow> AgentDeployment \<Rightarrow> EvaluationResult \<Rightarrow> ('s, Result) act" where
  "afterEvaluation c idx duration elapsed latest result =
    (let K = cc_Client c in
     andThen (clearUnreachable K latest) (\<lambda>latest'.
     if ev_ThresholdBreached result then
       andThen (Rollback c latest' ''ThresholdBreached'' (ev_BreachReason result)) (\<lambda>_. ret NoRequeue)
     else if ev_SampleTooSmall result then extendPause K idx duration elapsed result latest'
     else finishPause K idx duration elapsed latest'))"

definition executePause :: "'s Controller \<Rightarrow> AgentDeployment \<Rightarrow> int \<Rightarrow> duration \<Rightarrow> ('s, Result) act" where
  "executePause c ad idx duration =
    (let K = cc_Client c in
     andThen (k_Now K) (\<lambda>now.
     andThen (wrapErr ''fetching AD in pause step: '' (r_Get (k_ad K) (ad_Key ad))) (\<lambda>latest.
     case status_PauseStartedAt (ad_Status latest) of
       None \<Rightarrow> andThen (wrapErr ''recording pause start time: '' (r_StatusUpdate (k_ad K)
           (latest\<lparr>ad_Status := (ad_Status latest)\<lparr>status_PauseStartedAt := Some now\<rparr>\<rparr>))) (\<lambda>_.
         ret (RequeueAfter duration))
     | Some started \<Rightarrow>
         catchErr (Evaluate (cc_PromClient c) latest duration) (\<lambda>_. promUnreachable c now latest)
           (afterEvaluation c idx duration (time_sub now started) latest))))"

definition selfHeal :: "'s Controller \<Rightarrow> AgentDeployment \<Rightarrow> ('s, unit) act" where
  "selfHeal c ad =
    andThen (if status_CanaryVersion (ad_Status ad) = [] then ret ()
       else andThen (wrapErr ''self-healing canary deployment: '' (ensureCanaryDeployment c ad)) (\<lambda>_.
         wrapErr ''self-healing canary service: '' (ensureCanaryService c ad))) (\<lambda>_.
    let w = status_CanaryWeight (ad_Status ad) in
    if 0 <s w then wrapErr ''self-healing httproute: '' (ensureHTTPRoute c ad (100 - w) w)
    else ret ())"

definition Step :: "'s Controller \<Rightarrow> AgentDeployment \<Rightarrow> ('s, Result) act" where
  "Step c ad =
    andThen (selfHeal c ad) (\<lambda>_.
    let steps = ro_Steps (spec_Rollout (ad_Spec ad)); idx = status_CanaryStepIndex (ad_Status ad) in
    if int (length steps) \<le> idx then andThen (promote c ad) (\<lambda>_. ret NoRequeue)
    else if idx < 0 then fail (RuntimePanic ''index out of range'')
    else let step = steps ! nat idx in
      (case cs_SetWeight step of
         Some w \<Rightarrow> executeSetWeight c ad idx w
       | None \<Rightarrow> (case cs_Pause step of
           Some d \<Rightarrow> executePause c ad idx d
         | None \<Rightarrow> andThen (Rollback c ad ''InvalidStep''
             (''step '' @ show_int idx @ '' has neither setWeight nor pause'')) (\<lambda>_. ret NoRequeue))))"

section \<open>Rules for the calls\<close>

lemma withOwner_Inr:
  assumes "withOwner K msg ad meta setMeta obj = Inr obj'"
  obtains m where "k_SetControllerReference K ad (meta obj) = Inr m" "obj' = setMeta (\<lambda>_. m) obj"
  using assms by (auto simp: withOwner_def split: sum.splits)

context kube_kind
begin

lemma wp_deleteIfFound:
  assumes upd: "\<And>v. sel v k = None \<Longrightarrow> upd (\<lambda>m. m(k := None)) v = v"
    and Q: "\<And>x s'. deleted meta x \<Longrightarrow> view s' = upd (\<lambda>m. m(k := x)) (view s) \<Longrightarrow> Q () s'"
    and E: "\<And>e s'. view s' = view s \<Longrightarrow> E e s'"
  shows "wp (deleteIfFound R k msg1 msg2) E Q s"
  unfolding deleteIfFound_def wp_simps
  using Q [of None] upd [of "view s"]
  by (intro wp_get wp_delete) (auto simp: wp_simps intro: Q E)

end

lemma mutateHPA_spec: "mutateHPA K msg ad desired existing = Inr obj \<Longrightarrow> hpa_spec obj = hpa_spec desired"
  by (auto simp: mutateHPA_def hpa_spec_def elim!: withOwner_Inr)

context kube_laws
begin

lemma wp_deleteCanaryDeployment:
  assumes "cc_Client c = K"
    and "\<And>x s'. deleted dep_Meta x \<Longrightarrow> view s' = cl_dep_update (\<lambda>m. m(canaryKey ad := x)) (view s) \<Longrightarrow> Q () s'"
    and "\<And>e s'. view s' = view s \<Longrightarrow> E e s'"
  shows "wp (deleteCanaryDeployment c ad) E Q s"
  unfolding deleteCanaryDeployment_def assms(1) by (intro deps.wp_deleteIfFound assms(2-)) (auto simp: fun_upd_idem)

lemma wp_deleteCanaryService:
  assumes "cc_Client c = K"
    and "\<And>x s'. deleted svc_Meta x \<Longrightarrow> view s' = cl_svc_update (\<lambda>m. m(canaryKey ad := x)) (view s) \<Longrightarrow> Q () s'"
    and "\<And>e s'. view s' = view s \<Longrightarrow> E e s'"
  shows "wp (deleteCanaryService c ad) E Q s"
  unfolding deleteCanaryService_def assms(1) by (intro svcs.wp_deleteIfFound assms(2-)) (auto simp: fun_upd_idem)

lemma wp_deleteHTTPRoute:
  assumes "cc_Client c = K"
    and "\<And>x s'. deleted hr_Meta x \<Longrightarrow> view s' = cl_route_update (\<lambda>m. m(ad_Key ad := x)) (view s) \<Longrightarrow> Q () s'"
    and "\<And>e s'. view s' = view s \<Longrightarrow> E e s'"
  shows "wp (deleteHTTPRoute c ad) E Q s"
  unfolding deleteHTTPRoute_def assms(1) by (intro routes.wp_deleteIfFound assms(2-)) (auto simp: fun_upd_idem)

lemma wp_PauseHPA:
  assumes "cc_Client c = K"
    and "\<And>x s'. deleted hpa_Meta x \<Longrightarrow> view s' = cl_hpa_update (\<lambda>m. m(ad_Key ad := x)) (view s) \<Longrightarrow> Q () s'"
    and "\<And>e s'. view s' = view s \<Longrightarrow> E e s'"
  shows "wp (PauseHPA c ad) E Q s"
  unfolding PauseHPA_def assms(1) by (intro hpas.wp_deleteIfFound assms(2-)) (auto simp: fun_upd_idem)

lemma wp_restoreHPA:
  assumes "cc_Client c = K"
    and "\<And>h s'. hpa_spec h = hpa_spec (BuildHPA ad 0) \<Longrightarrow> view s' = cl_hpa_update (\<lambda>m. m(ad_Key ad \<mapsto> h)) (view s) \<Longrightarrow> Q () s'"
    and "\<And>e s'. view s' = view s \<Longrightarrow> E e s'"
  shows "wp (restoreHPA c ad) E Q s"
  unfolding restoreHPA_def Let_def assms(1) wp_simps BuildHPA_Meta
  by (rule hpas.wp_apply) (simp_all add: assms(2,3) mutateHPA_spec)

lemma wp_ensureCanaryDeployment:
  assumes "cc_Client c = K"
    and "\<And>d s'. map ct_Image (dep_Containers d) = [status_CanaryVersion (ad_Status ad)] \<Longrightarrow>
      dep_Replicas d = Some 1 \<Longrightarrow> dep_TemplateLabels d = canaryLabels ad \<Longrightarrow>
      view s' = cl_dep_update (\<lambda>m. m(canaryKey ad \<mapsto> d)) (view s) \<Longrightarrow> Q () s'"
    and "\<And>e s'. view s' = view s \<Longrightarrow> E e s'"
  shows "wp (ensureCanaryDeployment c ad) E Q s"
  unfolding ensureCanaryDeployment_def Let_def assms(1) wp_simps
  by (rule deps.wp_apply)
    (auto simp: mutateCanaryDeployment_def desiredCanaryDeployment_def Let_def dep_spec_def elim!: withOwner_Inr intro!: assms(2-))

lemma wp_ensureCanaryService:
  assumes "cc_Client c = K"
    and "\<And>v s'. svc_Selector v = canaryLabels ad \<Longrightarrow> view s' = cl_svc_update (\<lambda>m. m(canaryKey ad \<mapsto> v)) (view s) \<Longrightarrow> Q () s'"
    and "\<And>e s'. view s' = view s \<Longrightarrow> E e s'"
  shows "wp (ensureCanaryService c ad) E Q s"
  unfolding ensureCanaryService_def Let_def assms(1) wp_simps
  by (rule svcs.wp_apply)
    (auto simp: mutateService_def desiredCanaryService_def Let_def svc_spec_def elim!: withOwner_Inr intro!: assms(2-))

end

section \<open>What the operations leave in the cluster\<close>

text \<open>\<open>runs v x\<close>: the Deployment \<open>x\<close>, if there is one, runs the image \<open>v\<close>. \<open>rolloutFrame ad v v'\<close>:
  from \<open>v\<close> to \<open>v'\<close> only objects of the agent \<open>ad\<close> changed (ConfigMaps, which the registry writes,
  apart). \<open>noCanary ad v\<close>: the objects of the canary are gone.\<close>

definition runs :: "string \<Rightarrow> Deployment option \<Rightarrow> bool" where
  "runs v x \<longleftrightarrow> (case x of None \<Rightarrow> True | Some d \<Rightarrow> (case dep_Containers d of [] \<Rightarrow> True | ct # cts \<Rightarrow> ct_Image ct = v))"

definition rolloutFrame :: "AgentDeployment \<Rightarrow> cluster \<Rightarrow> cluster \<Rightarrow> bool" where
  "rolloutFrame ad v v' \<longleftrightarrow> cl_tq v' = cl_tq v \<and> cl_sm v' = cl_sm v \<and>
     (\<forall>k. k \<noteq> ad_Key ad \<longrightarrow> cl_ad v' k = cl_ad v k \<and> cl_hpa v' k = cl_hpa v k \<and> cl_route v' k = cl_route v k) \<and>
     (\<forall>k. k \<noteq> canaryKey ad \<longrightarrow> cl_svc v' k = cl_svc v k) \<and>
     (\<forall>k. k \<noteq> ad_Key ad \<and> k \<noteq> canaryKey ad \<longrightarrow> cl_dep v' k = cl_dep v k)"

definition noCanary :: "AgentDeployment \<Rightarrow> cluster \<Rightarrow> bool" where
  "noCanary ad v \<longleftrightarrow> deleted dep_Meta (cl_dep v (canaryKey ad)) \<and> deleted svc_Meta (cl_svc v (canaryKey ad)) \<and>
     deleted hr_Meta (cl_route v (ad_Key ad))"

lemma canaryDeploymentSuffix_nonempty [simp]: "canaryDeploymentSuffix \<noteq> []"
  by (simp add: canaryDeploymentSuffix_def)

lemma canaryKey_neq: "canaryKey ad \<noteq> ad_Key ad" "ad_Key ad \<noteq> canaryKey ad"
  by (simp_all add: canaryDeploymentSuffix_def)

lemma rolloutFrame_refl [simp]: "rolloutFrame ad v v"
  by (simp add: rolloutFrame_def)

lemma rolloutFrame_trans: "rolloutFrame ad u v \<Longrightarrow> rolloutFrame ad v w \<Longrightarrow> rolloutFrame ad u w"
  by (simp add: rolloutFrame_def)

lemma runs_None [simp]: "runs v None"
  by (simp add: runs_def)

lemma runs_setImage0: "dep_spec d' = dep_spec (setImage0 v d) \<Longrightarrow> runs v (Some d')"
  by (auto simp: dep_spec_def runs_def setImage0_def split: list.splits)

lemma setImage0_Meta [simp]: "dep_Meta (setImage0 v d) = dep_Meta d"
  by (simp add: setImage0_def)

lemma metaKey_eq_ad_Key: "metaKey (ad_Meta ad) = ad_Key ad"
  by (simp add: metaKey_def)

lemma if_intro: "(b \<Longrightarrow> P) \<Longrightarrow> (\<not> b \<Longrightarrow> Q) \<Longrightarrow> if b then P else Q"
  by simp

context kube_laws
begin

lemma withOwner_meta:
  assumes "withOwner K msg ad hr_Meta hr_Meta_update obj = Inr obj'"
  shows "metaKey (hr_Meta obj') = metaKey (hr_Meta obj) \<and> hr_Spec obj' = hr_Spec obj \<and>
    om_DeletionTimestamp (hr_Meta obj') = om_DeletionTimestamp (hr_Meta obj)"
  using assms by (elim withOwner_Inr) (auto dest!: set_owner simp: metaKey_def)

lemma wp_ensureHTTPRoute:
  assumes "cc_Client c = K"
    and "\<And>x s'. (\<And>r. x = Some r \<Longrightarrow> hr_Spec r = hr_Spec (desiredHTTPRoute c ad w w')) \<Longrightarrow>
      (x = None \<Longrightarrow> deleted hr_Meta (cl_route (view s) (ad_Key ad))) \<Longrightarrow>
      view s' = cl_route_update (\<lambda>m. m(ad_Key ad := x)) (view s) \<Longrightarrow> Q () s'"
    and "\<And>e s'. view s' = view s \<Longrightarrow> E e s'"
  shows "wp (ensureHTTPRoute c ad w w') E Q s"
proof -
  let ?d = "desiredHTTPRoute c ad w w'"
  have des: "metaKey (hr_Meta ?d) = ad_Key ad"
    by (simp add: desiredHTTPRoute_def Let_def metaKey_def)
  have create: "wp (r_Create (k_route K) obj) (\<lambda>e. E (Errorf msg [e])) (\<lambda>_. Q ()) s'"
    if "withOwner K m ad hr_Meta hr_Meta_update ?d = Inr obj" "view s' = view s" for m msg obj s'
    using withOwner_meta [OF that(1)] that(2) assms(2) [of "Some _"] by (intro routes.wp_create) (auto simp: des intro: assms(3))
  have update: "wp (r_Update (k_route K) (obj\<lparr>hr_Spec := hr_Spec ?d\<rparr>)) (\<lambda>e. E (Errorf msg [e])) (\<lambda>_. Q ()) s'"
    if "metaKey (hr_Meta obj) = ad_Key ad" "view s' = view s" 
      "cl_route (view s) (ad_Key ad) = Some old" "om_DeletionTimestamp (hr_Meta obj) = om_DeletionTimestamp (hr_Meta old)" for msg obj old s'
    using that assms(2) [of "Some _"] assms(2) [of None]
    by (intro routes.wp_update) (auto simp: stored_def intro: assms(3))
  show ?thesis
    unfolding ensureHTTPRoute_def Let_def assms(1) wp_simps
  proof (rule routes.wp_get, goal_cases)
    case (1 obj s')
    then have same: "hr_Spec obj = hr_Spec ?d \<Longrightarrow> Q () s'"
      by (intro assms(2) [of "Some obj"]) (auto simp: fun_upd_idem)
    from 1 show ?case
      by (auto simp: wp_simps equal_route split: sum.splits dest!: withOwner_meta intro!: same update assms(3))
  next
    case (2 e s')
    then show ?case
      by (auto simp: wp_simps split: sum.splits intro!: create assms(3))
  qed
qed

lemma wp_restoreStableImage:
  assumes "cc_Client c = K"
    and "\<And>x s'. (status_StableVersion (ad_Status ad) \<noteq> [] \<Longrightarrow> runs (status_StableVersion (ad_Status ad)) x) \<Longrightarrow>
      view s' = cl_dep_update (\<lambda>m. m(ad_Key ad := x)) (view s) \<Longrightarrow> Q () s'"
    and "\<And>e s'. view s' = view s \<Longrightarrow> E e s'"
  shows "wp (restoreStableImage c ad) E Q s"
proof -
  have same: "Q () s'" if "view s' = view s"
      and "status_StableVersion (ad_Status ad) \<noteq> [] \<Longrightarrow> runs (status_StableVersion (ad_Status ad)) (cl_dep (view s) (ad_Key ad))" for s'
    using that by (intro assms(2) [of "cl_dep (view s) (ad_Key ad)"]) auto
  show ?thesis
    unfolding restoreStableImage_def assms(1) wp_simps
  proof (intro if_intro deps.wp_get, goal_cases)
    case (3 d s')
    show ?case
      by (rule deps.wp_update, rule assms(2)) (use 3 in \<open>auto simp: stored_def runs_setImage0 intro: assms(3)\<close>)
  qed (auto simp: wp_simps runs_def intro!: same assms(3))
qed

end

text \<open>What a status update of the AgentDeployment leaves: its status is that of \<open>f latest\<close> (times
  to the second), its spec is unchanged, and no other AgentDeployment changed.\<close>

definition statusWritten :: "(AgentDeployment \<Rightarrow> AgentDeployment) \<Rightarrow> AgentDeployment \<Rightarrow> cluster \<Rightarrow> cluster \<Rightarrow> bool" where
  "statusWritten f ad v v' \<longleftrightarrow> (\<exists>latest ad'. cl_ad v (ad_Key ad) = Some latest \<and> cl_ad v' (ad_Key ad) = Some ad' \<and>
     ad_Key ad' = ad_Key ad \<and> ad_spec ad' = ad_spec latest \<and> ad_stat ad' = ad_stat (f latest))"

lemma ad_stat_Registered: "ad_stat (ad\<lparr>ad_Status := (ad_Status ad)\<lparr>status_Registered := b\<rparr>\<rparr>) = (ad_stat ad)\<lparr>status_Registered := b\<rparr>"
  by (cases "ad_Status ad") (simp add: ad_stat_def)

lemma ad_stat_promoted_Registered:
  "ad_stat (promoted K version (ad\<lparr>ad_Status := (ad_Status ad)\<lparr>status_Registered := b\<rparr>\<rparr>)) =
   (ad_stat (promoted K version ad))\<lparr>status_Registered := b\<rparr>"
  by (cases "ad_Status ad") (simp add: ad_stat_def promoted_def)

lemma promoted_Meta [simp]: "ad_Meta (promoted K version ad) = ad_Meta ad" "ad_Spec (promoted K version ad) = ad_Spec ad"
  by (simp_all add: promoted_def)

lemma runs_stored: "stored dep_Meta (setImage0 v d) d' x \<Longrightarrow> dep_spec d' = dep_spec (setImage0 v d) \<Longrightarrow> runs v x"
  by (auto simp: stored_def runs_setImage0)

context kube_laws
begin

lemma wp_Rollback:
  assumes c: "cc_Client c = K"
  shows "wp (Rollback c ad reason message)
    (\<lambda>e s'. rolloutFrame ad (view s) (view s') \<and> cl_cm (view s') = cl_cm (view s) \<and> cl_ad (view s') = cl_ad (view s))
    (\<lambda>_ s'. rolloutFrame ad (view s) (view s') \<and> cl_cm (view s') = cl_cm (view s) \<and> noCanary ad (view s') \<and>
      (status_StableVersion (ad_Status ad) \<noteq> [] \<longrightarrow> runs (status_StableVersion (ad_Status ad)) (cl_dep (view s') (ad_Key ad))) \<and>
      map_option hpa_spec (cl_hpa (view s') (ad_Key ad)) = Some (hpa_spec (BuildHPA ad 0)) \<and>
      statusWritten (rolledBack K ad reason message) ad (view s) (view s')) s"
  unfolding Rollback_def Let_def c wp_simps
  by (intro wp_restoreStableImage wp_deleteCanaryDeployment wp_deleteCanaryService wp_deleteHTTPRoute wp_restoreHPA
      ads.wp_get ads.wp_status c)
    (auto simp: rolloutFrame_def noCanary_def statusWritten_def rolledBack_def metaKey_def)

lemma wp_reregister:
  assumes c: "cc_Client c = K"
    and reg: "\<And>A. cc_Registrar c = Some A \<Longrightarrow> agent_registrar A isIn view"
    and latest: "cl_ad (view s) (ad_Key latest) = Some latest"
    and Q: "\<And>ad' m s'. view s' = cl_ad_update (\<lambda>ads. ads(ad_Key latest \<mapsto> ad')) ((view s)\<lparr>cl_cm := m\<rparr>) \<Longrightarrow>
      ad_Key ad' = ad_Key latest \<Longrightarrow> ad_spec ad' = ad_spec latest \<Longrightarrow>
      (\<exists>b. ad_stat ad' = (ad_stat latest)\<lparr>status_Registered := b\<rparr>) \<Longrightarrow> Q () s'"
  shows "wp (reregister c latest) E Q s"
proof -
  have same: "Q () s'" if "view s' = (view s)\<lparr>cl_cm := m\<rparr>" for s' m
    using that by (intro Q [of _ latest m] exI [of _ "status_Registered (ad_stat latest)"]) (simp_all add: fun_upd_idem latest)
  have here: "Q () s"
    by (rule same [of _ "cl_cm (view s)"]) simp
  have again: "wp (r_StatusUpdate (k_ad K) (latest\<lparr>ad_Status := (ad_Status latest)\<lparr>status_Registered := True\<rparr>\<rparr>)) (\<lambda>_. Q ()) (\<lambda>_. Q ()) s'"
    if "view s' = (view s)\<lparr>cl_cm := m\<rparr>" for s' m
  proof (rule ads.wp_status, goal_cases)
    case (1 ad' old s'')
    with that show ?case by (intro Q [of s'' ad' m]) (auto simp: latest metaKey_eq_ad_Key ad_stat_Registered)
  qed (use that same in simp)
  have reg: "wp (ar_Register A latest) (\<lambda>_. Q ()) (\<lambda>_. wp (if status_Registered (ad_Status latest) then ret () else
      catchErr (r_StatusUpdate (k_ad K) (latest\<lparr>ad_Status := (ad_Status latest)\<lparr>status_Registered := True\<rparr>\<rparr>)) (\<lambda>_. ret ()) (\<lambda>_. ret ())) E Q) s"
    if "cc_Registrar c = Some A" for A
    by (rule wpI) (auto simp: wp_simps dest!: agent_registrar.register_view [OF reg [OF that]] intro: same again)
  show ?thesis
    using reg by (cases "cc_Registrar c") (auto simp: reregister_def wp_if wp_ret wp_catchErr here c)
qed

lemma wp_promote:
  assumes c: "cc_Client c = K"
    and reg: "\<And>A. cc_Registrar c = Some A \<Longrightarrow> agent_registrar A isIn view"
  shows "wp (promote c ad)
    (\<lambda>e s'. rolloutFrame ad (view s) (view s') \<and> cl_ad (view s') = cl_ad (view s))
    (\<lambda>_ s'. status_CanaryVersion (ad_Status ad) \<noteq> [] \<and> rolloutFrame ad (view s) (view s') \<and> noCanary ad (view s') \<and>
      runs (status_CanaryVersion (ad_Status ad)) (cl_dep (view s') (ad_Key ad)) \<and>
      map_option hpa_spec (cl_hpa (view s') (ad_Key ad)) = Some (hpa_spec (BuildHPA ad 0)) \<and>
      (\<exists>registered. statusWritten (\<lambda>latest. promoted K (status_CanaryVersion (ad_Status ad))
          (latest\<lparr>ad_Status := (ad_Status latest)\<lparr>status_Registered := registered\<rparr>\<rparr>)) ad (view s) (view s'))) s"
  unfolding promote_def Let_def c wp_simps
  by (intro if_intro ads.wp_get deps.wp_get wp_deleteCanaryDeployment wp_deleteCanaryService wp_deleteHTTPRoute wp_restoreHPA
      ads.wp_status deps.wp_update wp_reregister [OF c reg] c)
    (auto simp: rolloutFrame_def noCanary_def metaKey_eq_ad_Key runs_stored statusWritten_def ad_stat_promoted_Registered)

end

section \<open>The rollout as a state machine\<close>

text \<open>Where a rollout stands: rolling with a step index, a traffic share and a pause that has started
  or not, promoted (the stable version runs), or failed. An agent that is pending or degraded is idle.\<close>

datatype rollout = Idle | Rolling int int32 bool | Promoted | Failed

definition standing :: "Phase \<Rightarrow> int \<Rightarrow> int32 \<Rightarrow> bool \<Rightarrow> rollout" where
  "standing ph i w paused = (case ph of PhaseRolloutInProgress \<Rightarrow> Rolling i w paused | PhaseRunning \<Rightarrow> Promoted
     | PhaseRolloutFailed \<Rightarrow> Failed | _ \<Rightarrow> Idle)"

definition rolloutState :: "AgentDeployment \<Rightarrow> rollout" where
  "rolloutState ad = standing (status_Phase (ad_Status ad)) (status_CanaryStepIndex (ad_Status ad))
     (status_CanaryWeight (ad_Status ad)) (status_PauseStartedAt (ad_Status ad) \<noteq> None)"

definition stepAt :: "CanaryStep list \<Rightarrow> int \<Rightarrow> CanaryStep option" where
  "stepAt steps i = (if 0 \<le> i \<and> i < int (length steps) then Some (steps ! nat i) else None)"

inductive rollout_step :: "CanaryStep list \<Rightarrow> rollout \<Rightarrow> rollout \<Rightarrow> bool" for steps where
  weight: "stepAt steps i = Some st \<Longrightarrow> cs_SetWeight st = Some w' \<Longrightarrow>
    rollout_step steps (Rolling i w p) (Rolling (i + 1) w' False)"
| start: "stepAt steps i = Some st \<Longrightarrow> cs_SetWeight st = None \<Longrightarrow> cs_Pause st = Some d \<Longrightarrow>
    rollout_step steps (Rolling i w False) (Rolling i w True)"
| wait: "stepAt steps i = Some st \<Longrightarrow> cs_SetWeight st = None \<Longrightarrow> cs_Pause st = Some d \<Longrightarrow>
    rollout_step steps (Rolling i w True) (Rolling i w True)"
| resume: "stepAt steps i = Some st \<Longrightarrow> cs_SetWeight st = None \<Longrightarrow> cs_Pause st = Some d \<Longrightarrow>
    rollout_step steps (Rolling i w True) (Rolling (i + 1) w False)"
| breach: "stepAt steps i = Some st \<Longrightarrow> cs_SetWeight st = None \<Longrightarrow> cs_Pause st = Some d \<Longrightarrow>
    rollout_step steps (Rolling i w True) Failed"
| malformed: "stepAt steps i = Some st \<Longrightarrow> cs_SetWeight st = None \<Longrightarrow> cs_Pause st = None \<Longrightarrow>
    rollout_step steps (Rolling i w p) Failed"
| finish: "int (length steps) \<le> i \<Longrightarrow> rollout_step steps (Rolling i w p) Promoted"

lemma rolloutState_stat: "ad_stat a = ad_stat b \<Longrightarrow> rolloutState a = rolloutState b"
proof -
  have "rolloutState ad = standing (status_Phase (ad_stat ad)) (status_CanaryStepIndex (ad_stat ad))
      (status_CanaryWeight (ad_stat ad)) (status_PauseStartedAt (ad_stat ad) \<noteq> None)" for ad
    by (simp add: rolloutState_def ad_stat_def)
  then show "ad_stat a = ad_stat b \<Longrightarrow> rolloutState a = rolloutState b" by simp
qed

text \<open>\<open>sameRollout ad' ad\<close>: the same object, standing at the same point of the rollout.\<close>

definition sameRollout :: "AgentDeployment \<Rightarrow> AgentDeployment \<Rightarrow> bool" where
  "sameRollout ad' ad \<longleftrightarrow> ad_Key ad' = ad_Key ad \<and> ad_spec ad' = ad_spec ad \<and> rolloutState ad' = rolloutState ad \<and>
     status_StableVersion (ad_Status ad') = status_StableVersion (ad_Status ad) \<and>
     status_CanaryVersion (ad_Status ad') = status_CanaryVersion (ad_Status ad)"

lemma sameRollout_refl [simp]: "sameRollout ad ad"
  by (simp add: sameRollout_def)

lemma stat_versions:
  "ad_stat a = ad_stat b \<Longrightarrow> status_StableVersion (ad_Status a) = status_StableVersion (ad_Status b) \<and>
     status_CanaryVersion (ad_Status a) = status_CanaryVersion (ad_Status b)"
  by (auto simp: ad_stat_def dest!: arg_cong [where f = "\<lambda>st. (status_StableVersion st, status_CanaryVersion st)"])

definition promFrame :: "('s \<Rightarrow> cluster) \<Rightarrow> 's Client \<Rightarrow> bool" where
  "promFrame view pc \<longleftrightarrow> (\<forall>url q s r s'. pc_Do pc url q s = (r, s') \<longrightarrow> view s' = view s)"

lemma wp_liftResult [wp_simps]: "wp (liftResult r) E Q = (case r of Inl e \<Rightarrow> E e | Inr x \<Rightarrow> Q x)"
  by (cases r) (simp_all add: liftResult_def wp_simps)

lemma wp_view_trans:
  assumes "wp m (\<lambda>_ s'. view s' = view s) (\<lambda>_ s'. view s' = view s) s"
    and "\<And>x s'. view s' = view s \<Longrightarrow> Q x s'" and "\<And>e s'. view s' = view s \<Longrightarrow> E e s'"
  shows "wp m E Q s"
  using assms by (auto elim: wp_mono)

lemma QueryScalar_view: "promFrame view pc \<Longrightarrow> wp (QueryScalar pc q) (\<lambda>_ s'. view s' = view s) (\<lambda>_ s'. view s' = view s) s"
  unfolding QueryScalar_def wp_simps
  by (rule wpI) (auto simp: promFrame_def wp_simps split: sum.splits)

lemma Evaluate_view:
  assumes "promFrame view pc"
  shows "wp (Evaluate pc ad d) (\<lambda>_ s'. view s' = view s) (\<lambda>_ s'. view s' = view s) s"
  unfolding Evaluate_def Let_def wp_simps
  by (auto simp: wp_simps split: sum.splits intro!: wp_view_trans [OF QueryScalar_view [OF assms]])

lemma wp_Evaluate:
  assumes "promFrame view pc"
    and "\<And>r s'. Evaluate pc ad d s = (Inr r, s') \<Longrightarrow> view s' = view s \<Longrightarrow> Q r s'"
    and "\<And>e s'. Evaluate pc ad d s = (Inl e, s') \<Longrightarrow> view s' = view s \<Longrightarrow> E e s'"
  shows "wp (Evaluate pc ad d) E Q s"
  using assms(2,3) Evaluate_view [OF assms(1), of ad d s] by (auto intro!: wpI dest: wp_Inr wp_Inl)

lemma rolloutFrame_key: "ad_Key a = ad_Key b \<Longrightarrow> rolloutFrame a = rolloutFrame b"
  by (auto simp: rolloutFrame_def fun_eq_iff)

lemma noCanary_key: "ad_Key a = ad_Key b \<Longrightarrow> noCanary a = noCanary b"
  by (auto simp: noCanary_def fun_eq_iff)

lemma rolloutFrame_ad: "rolloutFrame ad v (cl_ad_update (\<lambda>m. m(ad_Key ad \<mapsto> l)) v)"
  by (simp add: rolloutFrame_def)

text \<open>The writes that keep the rollout where it stands, and the one that advances it.\<close>

lemma sameRollout_stat:
  assumes "ad_Key l' = ad_Key l" and "ad_spec l' = ad_spec l" and "ad_stat l' = ad_stat m" and "rolloutState m = rolloutState l"
    and "status_StableVersion (ad_Status m) = status_StableVersion (ad_Status l)"
    and "status_CanaryVersion (ad_Status m) = status_CanaryVersion (ad_Status l)"
  shows "sameRollout l' l"
  using assms rolloutState_stat [OF assms(3)] stat_versions [OF assms(3)] by (simp add: sameRollout_def)

context kube_laws
begin

lemma wp_write:
  assumes "cl_ad (view s) (ad_Key l) = Some old" and "ad_Meta m = ad_Meta l"
    and "\<And>l' s'. view s' = cl_ad_update (\<lambda>ads. ads(ad_Key l \<mapsto> l')) (view s) \<Longrightarrow> ad_Key l' = ad_Key l \<Longrightarrow>
      ad_spec l' = ad_spec old \<Longrightarrow> ad_stat l' = ad_stat m \<Longrightarrow> Q l' s'"
    and "\<And>e s'. view s' = view s \<Longrightarrow> E e s'"
  shows "wp (r_StatusUpdate (k_ad K) m) E Q s"
  by (rule ads.wp_status, rule assms(3)) (use assms(1,2) in \<open>auto simp: metaKey_eq_ad_Key intro: assms(4)\<close>)

lemma wp_write_same:
  assumes "cl_ad (view s) (ad_Key l) = Some l" and "ad_Meta m = ad_Meta l" and "rolloutState m = rolloutState l"
    and "status_StableVersion (ad_Status m) = status_StableVersion (ad_Status l)"
    and "status_CanaryVersion (ad_Status m) = status_CanaryVersion (ad_Status l)"
    and "\<And>l' s'. view s' = cl_ad_update (\<lambda>ads. ads(ad_Key l \<mapsto> l')) (view s) \<Longrightarrow> sameRollout l' l \<Longrightarrow> Q l' s'"
    and "\<And>e s'. view s' = view s \<Longrightarrow> E e s'"
  shows "wp (r_StatusUpdate (k_ad K) m) E Q s"
  by (rule wp_write [OF assms(1,2)], erule assms(6)) (use assms(3-5) in \<open>auto intro: sameRollout_stat assms(7)\<close>)

lemma wp_clearUnreachable:
  assumes l: "cl_ad (view s) (ad_Key l) = Some l"
    and Q: "\<And>l' s'. view s' = cl_ad_update (\<lambda>ads. ads(ad_Key l \<mapsto> l')) (view s) \<Longrightarrow> sameRollout l' l \<Longrightarrow> Q l' s'"
    and E: "\<And>e s'. view s' = view s \<Longrightarrow> E e s'"
  shows "wp (clearUnreachable K l) E Q s"
  unfolding clearUnreachable_def wp_simps
  using l Q [of s l] by (intro if_intro wp_write_same [OF l] Q) (auto simp: fun_upd_idem rolloutState_def intro: E)

lemma wp_markUnreachable:
  assumes l: "cl_ad (view s) (ad_Key l) = Some l"
    and Q: "\<And>l' now' since s'. view s' = cl_ad_update (\<lambda>ads. ads(ad_Key l \<mapsto> l')) (view s) \<Longrightarrow> sameRollout l' l \<Longrightarrow>
      (case status_PromUnreachableSince (ad_Status l) of Some t \<Rightarrow> now' = now \<and> since = t | None \<Rightarrow> now' = since) \<Longrightarrow> Q (l', now', since) s'"
    and E: "\<And>e s' l'. view s' = cl_ad_update (\<lambda>ads. ads(ad_Key l \<mapsto> l')) (view s) \<Longrightarrow> sameRollout l' l \<Longrightarrow> E e s'"
  shows "wp (markUnreachable K now l) E Q s"
proof (cases "status_PromUnreachableSince (ad_Status l)")
  case None
  then show ?thesis
    unfolding markUnreachable_def wp_simps
    by (simp, intro wp_write_same [OF l])
      (use l E [of _ l] None in \<open>auto simp: rolloutState_def wp_simps fun_upd_idem split: option.split intro: Q E\<close>)
next
  case (Some since)
  then show ?thesis
    using Q [of s l now since] l by (simp add: markUnreachable_def wp_simps fun_upd_idem)
qed

lemma wp_finishPause:
  assumes l: "cl_ad (view s) (ad_Key l) = Some l"
    and wait: "elapsed < d \<Longrightarrow> Q (RequeueAfter (dur_sub d elapsed)) s"
    and advance: "\<And>l' s'. view s' = cl_ad_update (\<lambda>ads. ads(ad_Key l \<mapsto> l')) (view s) \<Longrightarrow> d \<le> elapsed \<Longrightarrow> ad_Key l' = ad_Key l \<Longrightarrow>
      ad_spec l' = ad_spec l \<Longrightarrow>
      rolloutState l' = rolloutState (l\<lparr>ad_Status := (ad_Status l)\<lparr>status_CanaryStepIndex := idx + 1, status_PauseStartedAt := None\<rparr>\<rparr>) \<Longrightarrow>
      Q (RequeueAfter Second) s'"
    and E: "\<And>e s'. view s' = view s \<Longrightarrow> E e s'"
  shows "wp (finishPause K idx d elapsed l) E Q s"
  unfolding finishPause_def wp_simps
proof (intro if_intro wp_write [OF l] wait E, goal_cases)
  case (3 l' s')
  then show ?case
    using rolloutState_stat [OF 3(5)] by (intro advance [of s' l']) (auto simp: rolloutState_def)
qed auto

end

lemma sameRollout_trans: "sameRollout a b \<Longrightarrow> sameRollout b c \<Longrightarrow> sameRollout a c"
  by (simp add: sameRollout_def)

lemma sameRolloutD:
  "sameRollout a b \<Longrightarrow> ad_Key a = ad_Key b \<and> ad_spec a = ad_spec b \<and> rolloutState a = rolloutState b"
  by (simp add: sameRollout_def)

text \<open>How long Prometheus has been unreachable.\<close>

definition unreachableFor :: "time \<Rightarrow> AgentDeployment \<Rightarrow> duration" where
  "unreachableFor now l = (case status_PromUnreachableSince (ad_Status l) of Some since \<Rightarrow> time_sub now since | None \<Rightarrow> 0)"

text \<open>A rollback of \<open>ad\<close> from the cluster \<open>v\<close> to \<open>v'\<close>.\<close>

definition rollbackDone :: "'s kube \<Rightarrow> AgentDeployment \<Rightarrow> string \<Rightarrow> string \<Rightarrow> cluster \<Rightarrow> cluster \<Rightarrow> bool" where
  "rollbackDone K ad reason message v v' \<longleftrightarrow>
     rolloutFrame ad v v' \<and> cl_cm v' = cl_cm v \<and> noCanary ad v' \<and>
     (status_StableVersion (ad_Status ad) \<noteq> [] \<longrightarrow> runs (status_StableVersion (ad_Status ad)) (cl_dep v' (ad_Key ad))) \<and>
     map_option hpa_spec (cl_hpa v' (ad_Key ad)) = Some (hpa_spec (BuildHPA ad 0)) \<and>
     statusWritten (rolledBack K ad reason message) ad v v'"

context kube_laws
begin

lemma wp_Rollback_done:
  assumes "cc_Client c = K"
    and "\<And>s'. rollbackDone K ad reason message (view s) (view s') \<Longrightarrow> Q () s'"
    and "\<And>e s'. rolloutFrame ad (view s) (view s') \<Longrightarrow> cl_ad (view s') = cl_ad (view s) \<Longrightarrow> E e s'"
  shows "wp (Rollback c ad reason message) E Q s"
  by (rule wp_mono [OF wp_Rollback [OF assms(1)]]) (auto simp: rollbackDone_def intro!: assms(2,3))

lemma wp_extendPause:
  assumes l: "cl_ad (view s) (ad_Key l) = Some l"
    and wait: "\<And>l' r s'. view s' = cl_ad_update (\<lambda>ads. ads(ad_Key l \<mapsto> l')) (view s) \<Longrightarrow> sameRollout l' l \<Longrightarrow> Q r s'"
    and advance: "\<And>l0 l' s'. view s' = cl_ad_update (\<lambda>ads. ads(ad_Key l \<mapsto> l')) (view s) \<Longrightarrow> d \<le> elapsed \<Longrightarrow> maxWait d \<le> elapsed \<Longrightarrow>
      sameRollout l0 l \<Longrightarrow> ad_Key l' = ad_Key l \<Longrightarrow> ad_spec l' = ad_spec l \<Longrightarrow>
      rolloutState l' = rolloutState (l0\<lparr>ad_Status := (ad_Status l0)\<lparr>status_CanaryStepIndex := idx + 1, status_PauseStartedAt := None\<rparr>\<rparr>) \<Longrightarrow>
      Q (RequeueAfter Second) s'"
    and E: "\<And>e s' l'. view s' = cl_ad_update (\<lambda>ads. ads(ad_Key l \<mapsto> l')) (view s) \<Longrightarrow> sameRollout l' l \<Longrightarrow> E e s'"
  shows "wp (extendPause K idx d elapsed ev l) E Q s"
  unfolding extendPause_def wp_simps
proof (rule wp_write_same [OF l], goal_cases)
  case (5 l' s')
  then have k: "ad_Key l' = ad_Key l" and l': "cl_ad (view s') (ad_Key l') = Some l'"
    by (auto dest: sameRolloutD)
  have "wp (finishPause K idx d elapsed l') E Q s'" if "\<not> elapsed < maxWait d"
    by (rule wp_finishPause [OF l'])
      (use 5 k that in \<open>auto intro: wait E elim!: advance dest: sameRolloutD simp: comp_def\<close>)
  then show ?case
    using 5 by (auto simp: wp_simps intro: wait E)
next
  case (6 e s')
  then show ?case using l E [of s' l] by (simp add: fun_upd_idem)
qed (simp_all add: rolloutState_def)

lemma wp_promUnreachable:
  assumes c: "cc_Client c = K" and l: "cl_ad (view s) (ad_Key l) = Some l"
    and wait: "\<And>l' r s'. view s' = cl_ad_update (\<lambda>ads. ads(ad_Key l \<mapsto> l')) (view s) \<Longrightarrow> sameRollout l' l \<Longrightarrow> Q r s'"
    and failed: "\<And>l' reason message v s'. v = cl_ad_update (\<lambda>ads. ads(ad_Key l \<mapsto> l')) (view s) \<Longrightarrow> sameRollout l' l \<Longrightarrow>
      cc_FailSafeTimeout c \<le> unreachableFor now l \<Longrightarrow> rollbackDone K l' reason message v (view s') \<Longrightarrow> Q NoRequeue s'"
    and E: "\<And>e s' l' v. v = cl_ad_update (\<lambda>ads. ads(ad_Key l \<mapsto> l')) (view s) \<Longrightarrow> sameRollout l' l \<Longrightarrow>
      rolloutFrame l v (view s') \<Longrightarrow> cl_ad (view s') = cl_ad v \<Longrightarrow> E e s'"
  shows "wp (promUnreachable c now l) E Q s"
  unfolding promUnreachable_def c wp_simps Let_def
proof (rule wp_markUnreachable [OF l], goal_cases)
  case (1 l' now' since s')
  then have k: "rolloutFrame l' = rolloutFrame l"
    by (intro rolloutFrame_key) (simp add: sameRolloutD)
  have since: "time_sub now' since = unreachableFor now l"
    using 1(3) by (auto simp: unreachableFor_def time_sub_def split: option.splits)
  show ?case
    by (auto simp: wp_simps since intro!: wp_Rollback_done [OF c]) (use 1 k in \<open>auto intro: wait failed E\<close>)
next
  case (2 e s' l')
  then show ?case by (auto intro: E)
qed

end

context kube_laws
begin

lemma wp_Now:
  assumes "\<And>now s'. k_Now K s = (Inr now, s') \<Longrightarrow> view s' = view s \<Longrightarrow> Q now s'" and "\<And>e s'. view s' = view s \<Longrightarrow> E e s'"
  shows "wp (k_Now K) E Q s"
  by (rule wpI) (use assms in \<open>blast dest: now_view\<close>)+

lemma wp_afterEvaluation:
  assumes c: "cc_Client c = K" and l: "cl_ad (view s) (ad_Key l) = Some l"
    and wait: "\<And>l' r s'. view s' = cl_ad_update (\<lambda>ads. ads(ad_Key l \<mapsto> l')) (view s) \<Longrightarrow> sameRollout l' l \<Longrightarrow> Q r s'"
    and advance: "\<And>l0 l' s'. view s' = cl_ad_update (\<lambda>ads. ads(ad_Key l \<mapsto> l')) (view s) \<Longrightarrow> \<not> ev_ThresholdBreached ev \<Longrightarrow>
      (ev_SampleTooSmall ev \<Longrightarrow> maxWait d \<le> elapsed) \<Longrightarrow> d \<le> elapsed \<Longrightarrow>
      sameRollout l0 l \<Longrightarrow> ad_Key l' = ad_Key l \<Longrightarrow> ad_spec l' = ad_spec l \<Longrightarrow>
      rolloutState l' = rolloutState (l0\<lparr>ad_Status := (ad_Status l0)\<lparr>status_CanaryStepIndex := idx + 1, status_PauseStartedAt := None\<rparr>\<rparr>) \<Longrightarrow>
      Q (RequeueAfter Second) s'"
    and failed: "\<And>l' reason message v s'. v = cl_ad_update (\<lambda>ads. ads(ad_Key l \<mapsto> l')) (view s) \<Longrightarrow> sameRollout l' l \<Longrightarrow>
      ev_ThresholdBreached ev \<Longrightarrow> rollbackDone K l' reason message v (view s') \<Longrightarrow> Q NoRequeue s'"
    and E: "\<And>e s' l' v. v = cl_ad_update (\<lambda>ads. ads(ad_Key l \<mapsto> l')) (view s) \<Longrightarrow> sameRollout l' l \<Longrightarrow>
      rolloutFrame l v (view s') \<Longrightarrow> cl_ad (view s') = cl_ad v \<Longrightarrow> E e s'"
  shows "wp (afterEvaluation c idx d elapsed l ev) E Q s"
  unfolding afterEvaluation_def Let_def c wp_simps
proof (rule wp_clearUnreachable [OF l], goal_cases)
  case (1 l2 s3)
  note s3 = 1(1) and same = 1(2)
  then have key2: "ad_Key l2 = ad_Key l" and spec2: "ad_spec l2 = ad_spec l" and l2: "cl_ad (view s3) (ad_Key l2) = Some l2"
    by (simp_all add: sameRollout_def)
  have frame2: "rolloutFrame l2 = rolloutFrame l" by (rule rolloutFrame_key) (rule key2)
  have upd: "view s' = cl_ad_update (\<lambda>ads. ads(ad_Key l2 \<mapsto> l')) (view s3) \<Longrightarrow>
      view s' = cl_ad_update (\<lambda>ads. ads(ad_Key l \<mapsto> l')) (view s)" for s' l'
    by (simp add: s3 key2 comp_def)
  have E1: "E e s'" if "view s' = cl_ad_update (\<lambda>ads. ads(ad_Key l \<mapsto> l')) (view s)" "sameRollout l' l" for e s' l'
    using that by (auto intro: E)
  have "wp (Rollback c l2 reason message) E (\<lambda>_. Q NoRequeue) s3" if "ev_ThresholdBreached ev" for reason message
    by (rule wp_Rollback_done [OF c]) (auto simp: s3 frame2 same that intro: failed [OF refl same] E [OF refl same])
  moreover have "wp (extendPause K idx d elapsed ev l2) E Q s3" if "\<not> ev_ThresholdBreached ev"
  proof (rule wp_extendPause [OF l2], goal_cases)
    case 1 then show ?case by (intro wait [OF upd [OF 1(1)]] sameRollout_trans [OF _ same])
  next
    case 2 then show ?case
      by (intro advance [OF upd [OF 2(1)] that _ _ sameRollout_trans [OF _ same]]) (auto simp: key2 spec2)
  next
    case 3 then show ?case by (intro E1 [OF upd [OF 3(1)]] sameRollout_trans [OF _ same])
  qed
  moreover have "wp (finishPause K idx d elapsed l2) E Q s3" if "\<not> ev_ThresholdBreached ev" "\<not> ev_SampleTooSmall ev"
    by (rule wp_finishPause [OF l2], rule wait [OF s3 same], erule advance [OF upd])
      (use that key2 spec2 same in \<open>auto intro: sameRollout_trans E1 simp: s3\<close>)
  ultimately show ?case by (simp add: wp_simps)
next
  case (2 e s')
  then show ?case using l by (intro E [of _ l]) (auto simp: fun_upd_idem)
qed

text \<open>A pause, branch by branch: it starts, waits, advances, or ends in a rollback.\<close>

lemma wp_executePause:
  assumes c: "cc_Client c = K" and prom: "promFrame view (cc_PromClient c)"
    and l: "cl_ad (view s) (ad_Key ad) = Some l"
    and start: "\<And>now l' s'. view s' = cl_ad_update (\<lambda>ads. ads(ad_Key ad \<mapsto> l')) (view s) \<Longrightarrow>
      status_PauseStartedAt (ad_Status l) = None \<Longrightarrow> ad_Key l' = ad_Key ad \<Longrightarrow> ad_spec l' = ad_spec l \<Longrightarrow>
      ad_stat l' = ad_stat (l\<lparr>ad_Status := (ad_Status l)\<lparr>status_PauseStartedAt := Some now\<rparr>\<rparr>) \<Longrightarrow> Q (RequeueAfter d) s'"
    and wait: "\<And>l' r s'. view s' = cl_ad_update (\<lambda>ads. ads(ad_Key ad \<mapsto> l')) (view s) \<Longrightarrow>
      status_PauseStartedAt (ad_Status l) \<noteq> None \<Longrightarrow> sameRollout l' l \<Longrightarrow> Q r s'"
    and advance: "\<And>started now s0 s1 ev s2 l0 l' s'. view s' = cl_ad_update (\<lambda>ads. ads(ad_Key ad \<mapsto> l')) (view s) \<Longrightarrow>
      status_PauseStartedAt (ad_Status l) = Some started \<Longrightarrow> k_Now K s = (Inr now, s0) \<Longrightarrow>
      Evaluate (cc_PromClient c) l d s1 = (Inr ev, s2) \<Longrightarrow> \<not> ev_ThresholdBreached ev \<Longrightarrow>
      (ev_SampleTooSmall ev \<Longrightarrow> maxWait d \<le> time_sub now started) \<Longrightarrow> d \<le> time_sub now started \<Longrightarrow>
      sameRollout l0 l \<Longrightarrow> ad_Key l' = ad_Key ad \<Longrightarrow> ad_spec l' = ad_spec l \<Longrightarrow>
      rolloutState l' = rolloutState (l0\<lparr>ad_Status := (ad_Status l0)\<lparr>status_CanaryStepIndex := idx + 1, status_PauseStartedAt := None\<rparr>\<rparr>) \<Longrightarrow>
      Q (RequeueAfter Second) s'"
    and failed: "\<And>l' reason message v s'. v = cl_ad_update (\<lambda>ads. ads(ad_Key ad \<mapsto> l')) (view s) \<Longrightarrow>
      status_PauseStartedAt (ad_Status l) \<noteq> None \<Longrightarrow> sameRollout l' l \<Longrightarrow>
      (\<exists>s1 ev s2. Evaluate (cc_PromClient c) l d s1 = (Inr ev, s2) \<and> ev_ThresholdBreached ev) \<or>
      (\<exists>now s0 s1 e s2. k_Now K s = (Inr now, s0) \<and> Evaluate (cc_PromClient c) l d s1 = (Inl e, s2) \<and>
        cc_FailSafeTimeout c \<le> unreachableFor now l) \<Longrightarrow>
      rollbackDone K l' reason message v (view s') \<Longrightarrow> Q NoRequeue s'"
    and E: "\<And>e s' l' v. v = cl_ad_update (\<lambda>ads. ads(ad_Key ad \<mapsto> l')) (view s) \<Longrightarrow> sameRollout l' l \<Longrightarrow>
      rolloutFrame ad v (view s') \<Longrightarrow> cl_ad (view s') = cl_ad v \<Longrightarrow> E e s'"
  shows "wp (executePause c ad idx d) E Q s"
proof -
  have E0: "E e s'" if "view s' = view s" for e s'
    using that l by (intro E [of _ l]) (auto simp: fun_upd_idem)
  show ?thesis
    unfolding executePause_def Let_def c wp_simps
  proof (intro wp_Now ads.wp_get E0, goal_cases)
    case (1 now s0 l1 s1)
    from 1 have [simp]: "l1 = l" and key: "ad_Key l = ad_Key ad" and v: "view s1 = view s" and l1: "cl_ad (view s1) (ad_Key l) = Some l"
      using l by (auto simp: metaKey_def)
    have frame: "rolloutFrame l = rolloutFrame ad" by (rule rolloutFrame_key) (rule key)
    show ?case
    proof (cases "status_PauseStartedAt (ad_Status l)")
      case None
      then show ?thesis
        by (simp add: wp_simps, intro wp_write [OF l1]) (auto simp: v key intro: E0 start)
    next
      case (Some started)
      have breach: "Q NoRequeue s'" if "Evaluate (cc_PromClient c) l d s1 = (Inr ev, s2)" "ev_ThresholdBreached ev" "sameRollout l' l"
          "rollbackDone K l' reason message (cl_ad_update (\<lambda>ads. ads(ad_Key ad \<mapsto> l')) (view s)) (view s')" for ev s2 l' reason message s'
        using that Some by (intro failed [OF refl _ that(3) _ that(4)]) auto
      have down: "Q NoRequeue s'" if "Evaluate (cc_PromClient c) l d s1 = (Inl e, s2)" "cc_FailSafeTimeout c \<le> unreachableFor now l"
          "sameRollout l' l" "rollbackDone K l' reason message (cl_ad_update (\<lambda>ads. ads(ad_Key ad \<mapsto> l')) (view s)) (view s')"
        for e s2 l' reason message s'
        using that Some 1(1) by (intro failed [OF refl _ that(3) _ that(4)]) auto
      have "wp (afterEvaluation c idx d (time_sub now started) l ev) E Q s2"
        if "Evaluate (cc_PromClient c) l d s1 = (Inr ev, s2)" "view s2 = view s1" for ev s2
        by (rule wp_afterEvaluation [OF c], rule l1 [folded that(2)])
          (use 1(1) that in \<open>auto simp: v key frame Some intro: wait breach E advance [OF _ Some]\<close>)
      moreover have "wp (promUnreachable c now l) E Q s2"
        if "Evaluate (cc_PromClient c) l d s1 = (Inl e, s2)" "view s2 = view s1" for e s2
        by (rule wp_promUnreachable [OF c]) (use 1 l that in \<open>auto simp: v key frame Some intro: wait down E\<close>)
      ultimately show ?thesis
        by (simp add: Some wp_simps wp_Evaluate [OF prom])
    qed
  qed auto
qed

end

text \<open>The split that the route of \<open>ad\<close> serves, unless the route is being deleted.\<close>

definition routed :: "'s Controller \<Rightarrow> AgentDeployment \<Rightarrow> int32 \<Rightarrow> int32 \<Rightarrow> cluster \<Rightarrow> cluster \<Rightarrow> bool" where
  "routed c ad w w' v v' \<longleftrightarrow> (case cl_route v' (ad_Key ad) of
     None \<Rightarrow> deleted hr_Meta (cl_route v (ad_Key ad))
   | Some r \<Rightarrow> hr_Spec r = hr_Spec (desiredHTTPRoute c ad w w'))"

definition weightSet :: "int \<Rightarrow> int32 \<Rightarrow> AgentDeployment \<Rightarrow> AgentDeployment" where
  "weightSet idx w l = l\<lparr>ad_Status := (ad_Status l)\<lparr>status_CanaryWeight := w, status_CanaryStepIndex := idx + 1,
     status_PauseStartedAt := None\<rparr>\<rparr>"

text \<open>\<open>canaryRuns ad v\<close>: one pod of the canary version, behind a Service that selects only its labels.\<close>

definition canaryRuns :: "AgentDeployment \<Rightarrow> cluster \<Rightarrow> bool" where
  "canaryRuns ad v \<longleftrightarrow> (\<exists>d svc. cl_dep v (canaryKey ad) = Some d \<and> cl_svc v (canaryKey ad) = Some svc \<and>
     map ct_Image (dep_Containers d) = [status_CanaryVersion (ad_Status ad)] \<and> dep_Replicas d = Some 1 \<and>
     dep_TemplateLabels d = canaryLabels ad \<and> svc_Selector svc = canaryLabels ad)"

context kube_laws
begin

lemma wp_executeSetWeight:
  assumes c: "cc_Client c = K"
  shows "wp (executeSetWeight c ad idx w)
    (\<lambda>e s'. rolloutFrame ad (view s) (view s') \<and> cl_ad (view s') = cl_ad (view s) \<and>
      cl_dep (view s') (ad_Key ad) = cl_dep (view s) (ad_Key ad))
    (\<lambda>r s'. r = RequeueAfter Second \<and> rolloutFrame ad (view s) (view s') \<and>
      cl_dep (view s') (ad_Key ad) = cl_dep (view s) (ad_Key ad) \<and> canaryRuns ad (view s') \<and>
      routed c ad (100 - w) w (view s) (view s') \<and> statusWritten (weightSet idx w) ad (view s) (view s')) s"
  unfolding executeSetWeight_def Let_def c wp_simps
  by (intro wp_ensureCanaryDeployment wp_ensureCanaryService wp_ensureHTTPRoute ads.wp_get ads.wp_status c)
    (auto simp: rolloutFrame_def routed_def canaryRuns_def statusWritten_def weightSet_def metaKey_def split: option.splits)

lemma wp_selfHeal:
  assumes c: "cc_Client c = K"
    and "\<And>s'. rolloutFrame ad (view s) (view s') \<Longrightarrow> cl_ad (view s') = cl_ad (view s) \<Longrightarrow> Q () s'"
    and "\<And>e s'. rolloutFrame ad (view s) (view s') \<Longrightarrow> cl_ad (view s') = cl_ad (view s) \<Longrightarrow> E e s'"
  shows "wp (selfHeal c ad) E Q s"
  unfolding selfHeal_def Let_def wp_simps
  by (intro if_intro wp_ensureCanaryDeployment wp_ensureCanaryService wp_ensureHTTPRoute c assms(2,3))
    (auto simp: rolloutFrame_def)

end

lemma statusWritten_state:
  assumes "statusWritten f ad v v'" and "cl_ad v (ad_Key ad) = Some l"
  shows "\<exists>ad'. cl_ad v' (ad_Key ad) = Some ad' \<and> ad_spec ad' = ad_spec l \<and> rolloutState ad' = rolloutState (f l)"
  using assms by (auto simp: statusWritten_def dest: rolloutState_stat)

lemma rolled_states:
  "rolloutState (weightSet idx w l) = standing (status_Phase (ad_Status l)) (idx + 1) w False"
  "rolloutState (rolledBack K ad reason message l) = Failed"
  "rolloutState (promoted K version l) = Promoted"
  by (simp_all add: rolloutState_def weightSet_def rolledBack_def promoted_def standing_def)

text \<open>One cycle moves the rollout by one step of the machine (\<open>stepped\<close>), or leaves it where it stands
  (\<open>stayed\<close>); both touch nothing but the objects of the agent.\<close>

definition stayed :: "AgentDeployment \<Rightarrow> cluster \<Rightarrow> cluster \<Rightarrow> bool" where
  "stayed ad v v' \<longleftrightarrow> rolloutFrame ad v v' \<and>
     (\<exists>ad'. cl_ad v' (ad_Key ad) = Some ad' \<and> ad_spec ad' = ad_spec ad \<and> rolloutState ad' = rolloutState ad)"

definition stepped :: "AgentDeployment \<Rightarrow> cluster \<Rightarrow> cluster \<Rightarrow> bool" where
  "stepped ad v v' \<longleftrightarrow> rolloutFrame ad v v' \<and>
     (\<exists>ad'. cl_ad v' (ad_Key ad) = Some ad' \<and> ad_spec ad' = ad_spec ad \<and>
       rollout_step (ro_Steps (spec_Rollout (ad_Spec ad))) (rolloutState ad) (rolloutState ad'))"

lemma stayed_same: "rolloutFrame ad v v' \<Longrightarrow> cl_ad v' (ad_Key ad) = Some ad \<Longrightarrow> stayed ad v v'"
  by (auto simp: stayed_def)

lemma rolloutState_advanced:
  "rolloutState l = Rolling i w p \<Longrightarrow>
   rolloutState (l\<lparr>ad_Status := (ad_Status l)\<lparr>status_CanaryStepIndex := j, status_PauseStartedAt := None\<rparr>\<rparr>) = Rolling j w False"
  by (auto simp: rolloutState_def standing_def split: Phase.splits)

context kube_laws
begin

lemma Step_weight:
  assumes "cc_Client c = K" and "cl_ad (view s) (ad_Key ad) = Some ad" and "rolloutState ad = Rolling i w p"
    and "stepAt (ro_Steps (spec_Rollout (ad_Spec ad))) i = Some st" and "cs_SetWeight st = Some w'"
    and "status_Phase (ad_Status ad) = PhaseRolloutInProgress" and "rolloutFrame ad v (view s)"
  shows "wp (executeSetWeight c ad i w') (\<lambda>e s'. stayed ad v (view s')) (\<lambda>r s'. stepped ad v (view s')) s"
  by (rule wp_mono [OF wp_executeSetWeight [OF assms(1)]])
    (use assms(2-) in \<open>auto simp: stayed_def stepped_def rolled_states standing_def
      intro: rolloutFrame_trans rollout_step.weight dest!: statusWritten_state [of _ ad _ _ ad]\<close>)

lemma Step_malformed:
  assumes "cc_Client c = K" and "cl_ad (view s) (ad_Key ad) = Some ad" and "rolloutState ad = Rolling i w p"
    and "stepAt (ro_Steps (spec_Rollout (ad_Spec ad))) i = Some st" and "cs_SetWeight st = None" and "cs_Pause st = None"
    and "rolloutFrame ad v (view s)"
  shows "wp (Rollback c ad reason message) (\<lambda>e s'. stayed ad v (view s')) (\<lambda>r s'. stepped ad v (view s')) s"
  by (rule wp_Rollback_done [OF assms(1)])
    (use assms(2-) in \<open>auto simp: stayed_def stepped_def rollbackDone_def rolled_states
      intro: rolloutFrame_trans rollout_step.malformed dest!: statusWritten_state [of _ ad _ _ ad]\<close>)

lemma Step_promote:
  assumes "cc_Client c = K" and "\<And>A. cc_Registrar c = Some A \<Longrightarrow> agent_registrar A isIn view"
    and "cl_ad (view s) (ad_Key ad) = Some ad" and "rolloutState ad = Rolling i w p"
    and "int (length (ro_Steps (spec_Rollout (ad_Spec ad)))) \<le> i" and "rolloutFrame ad v (view s)"
  shows "wp (promote c ad) (\<lambda>e s'. stayed ad v (view s')) (\<lambda>r s'. stepped ad v (view s')) s"
  by (rule wp_mono [OF wp_promote [OF assms(1,2)]])
    (use assms(3-) in \<open>auto simp: stayed_def stepped_def rolled_states
      intro: rolloutFrame_trans rollout_step.finish dest!: statusWritten_state [of _ ad _ _ ad]\<close>)

lemma Step_pause:
  assumes "cc_Client c = K" and "promFrame view (cc_PromClient c)"
    and "cl_ad (view s) (ad_Key ad) = Some ad" and "rolloutState ad = Rolling i w p"
    and "stepAt (ro_Steps (spec_Rollout (ad_Spec ad))) i = Some st" and "cs_SetWeight st = None" and "cs_Pause st = Some d"
    and "status_Phase (ad_Status ad) = PhaseRolloutInProgress" and "rolloutFrame ad v (view s)"
  shows "wp (executePause c ad i d) (\<lambda>e s'. stayed ad v (view s')) (\<lambda>r s'. stepped ad v (view s')) s"
proof (rule wp_executePause [OF assms(1-3)], goal_cases)
  case (1 now l' s')
  then have "rolloutState l' = Rolling i w True" "p = False"
    using assms(4,8) by (auto simp: rolloutState_def standing_def dest!: rolloutState_stat)
  then show ?case
    using 1 assms by (auto simp: stepped_def intro: rolloutFrame_trans rolloutFrame_ad rollout_step.start)
next
  case (2 l' r s')
  then have "rolloutState l' = Rolling i w True" "ad_spec l' = ad_spec ad"
    using assms(4,8) by (auto simp: sameRollout_def rolloutState_def standing_def)
  then show ?case
    using 2 assms by (auto simp: stepped_def rolloutState_def standing_def intro: rolloutFrame_trans rolloutFrame_ad rollout_step.wait)
next
  case (3 started now s0 s1 ev s2 l0 l' s')
  then have "rolloutState l0 = Rolling i w p" "p = True"
    using assms(4,8) by (auto simp: sameRollout_def rolloutState_def standing_def)
  then have "rolloutState l' = Rolling (i + 1) w False" "p = True"
    using 3(11) by (simp_all add: rolloutState_advanced)
  then show ?case
    using 3 assms by (auto simp: stepped_def intro: rolloutFrame_trans rolloutFrame_ad rollout_step.resume)
next
  case (4 l' reason message v' s')
  then have "p = True" and key: "ad_Key l' = ad_Key ad" and spec: "ad_spec l' = ad_spec ad"
    using assms(4,8) by (auto simp: sameRollout_def rolloutState_def standing_def)
  have "rolloutFrame ad v' (view s')" "statusWritten (rolledBack K l' reason message) l' v' (view s')"
    using 4(5) rolloutFrame_key [OF key] by (simp_all add: rollbackDone_def)
  moreover have "cl_ad v' (ad_Key l') = Some l'" "rolloutFrame ad (view s) v'"
    using 4(1) key by (simp_all add: rolloutFrame_ad)
  ultimately show ?case
    using assms \<open>p = True\<close> key spec
    by (auto simp: stepped_def rolled_states intro: rolloutFrame_trans rollout_step.breach dest!: statusWritten_state [of _ l' _ _ l'])
next
  case (5 e s' l' v')
  then show ?case
    using assms by (auto simp: stayed_def sameRollout_def intro: rolloutFrame_trans [OF rolloutFrame_trans [OF _ rolloutFrame_ad]])
qed

end

context kube_laws
begin

lemma wp_Step:
  assumes c: "cc_Client c = K" and prom: "promFrame view (cc_PromClient c)"
    and reg: "\<And>A. cc_Registrar c = Some A \<Longrightarrow> agent_registrar A isIn view"
    and ad: "cl_ad (view s) (ad_Key ad) = Some ad" and ph: "status_Phase (ad_Status ad) = PhaseRolloutInProgress"
  shows "wp (Step c ad) (\<lambda>e s'. stayed ad (view s) (view s')) (\<lambda>r s'. stepped ad (view s) (view s')) s"
  unfolding Step_def Let_def wp_simps
proof (rule wp_selfHeal [OF c], goal_cases)
  case (1 s1)
  let ?i = "status_CanaryStepIndex (ad_Status ad)" and ?steps = "ro_Steps (spec_Rollout (ad_Spec ad))"
  have st: "rolloutState ad = Rolling ?i (status_CanaryWeight (ad_Status ad)) (status_PauseStartedAt (ad_Status ad) \<noteq> None)"
    by (simp add: rolloutState_def standing_def ph)
  have ad1: "cl_ad (view s1) (ad_Key ad) = Some ad" using 1 ad by simp
  have here: "stayed ad (view s) (view s1)" using 1 ad1 by (simp add: stayed_same)
  have at: "stepAt ?steps ?i = Some (?steps ! nat ?i)" if "\<not> int (length ?steps) \<le> ?i" "\<not> ?i < 0"
    using that by (simp add: stepAt_def)
  show ?case
    using Step_promote [OF c reg ad1 st _ 1(1)] Step_weight [OF c ad1 st at _ ph 1(1)] Step_pause [OF c prom ad1 st at _ _ ph 1(1)]
      Step_malformed [OF c ad1 st at _ _ 1(1)] here
    by (auto simp: wp_simps split: option.splits)
next
  case (2 e s')
  then show ?case using ad by (simp add: stayed_same)
qed

end

section \<open>Runs of the machine\<close>

inductive_cases rollout_stepE: "rollout_step steps (Rolling i w p) r"

text \<open>The share that a list of steps ends with, and how far a rollout is from its end.\<close>

definition shareAfter :: "CanaryStep list \<Rightarrow> int32" where
  "shareAfter steps = fold (\<lambda>st w. case cs_SetWeight st of Some w' \<Rightarrow> w' | None \<Rightarrow> w) steps 0"

definition rolloutMeasure :: "CanaryStep list \<Rightarrow> rollout \<Rightarrow> nat" where
  "rolloutMeasure steps r = (case r of
     Rolling i w p \<Rightarrow> 2 * nat (int (length steps) - i) + (if p then 0 else 1) + 1 | _ \<Rightarrow> 0)"

definition rolloutInv :: "CanaryStep list \<Rightarrow> rollout \<Rightarrow> bool" where
  "rolloutInv steps r = (case r of
     Rolling i w p \<Rightarrow> 0 \<le> i \<and> i \<le> int (length steps) \<and> w = shareAfter (take (nat i) steps) \<and>
       (p \<longrightarrow> (\<exists>st d. stepAt steps i = Some st \<and> cs_SetWeight st = None \<and> cs_Pause st = Some d))
   | _ \<Rightarrow> True)"

lemma take_stepAt: "stepAt steps i = Some st \<Longrightarrow> take (nat (i + 1)) steps = take (nat i) steps @ [st] \<and> 0 \<le> i \<and> i + 1 \<le> int (length steps)"
  by (auto simp: stepAt_def nat_add_distrib take_Suc_conv_app_nth split: if_splits)

lemma shareAfter_snoc: "shareAfter (steps @ [st]) = (case cs_SetWeight st of Some w \<Rightarrow> w | None \<Rightarrow> shareAfter steps)"
  by (simp add: shareAfter_def split: option.split)

lemma rolloutInv_step: "rollout_step steps a b \<Longrightarrow> rolloutInv steps a \<Longrightarrow> rolloutInv steps b"
  by (induction rule: rollout_step.induct) (auto simp: rolloutInv_def shareAfter_snoc dest!: take_stepAt)

lemma rolloutInv_reachable: "(rollout_step steps)\<^sup>*\<^sup>* a b \<Longrightarrow> rolloutInv steps a \<Longrightarrow> rolloutInv steps b"
  by (induction rule: rtranclp_induct) (auto intro: rolloutInv_step)

lemma rolloutMeasure_step: "rollout_step steps a b \<Longrightarrow> b = a \<or> rolloutMeasure steps b < rolloutMeasure steps a"
  by (induction rule: rollout_step.induct) (auto simp: rolloutMeasure_def stepAt_def split: if_splits)

text \<open>A rollout is promoted only after every step was passed, and every pause among them entered.\<close>

definition isPause :: "CanaryStep \<Rightarrow> bool" where
  "isPause st \<longleftrightarrow> cs_SetWeight st = None \<and> cs_Pause st \<noteq> None"

definition passed :: "CanaryStep list \<Rightarrow> int \<Rightarrow> bool" where
  "passed steps i \<longleftrightarrow> (\<forall>j st. stepAt steps j = Some st \<and> j < i \<longrightarrow>
     (\<exists>w. (rollout_step steps)\<^sup>*\<^sup>* (Rolling 0 0 False) (Rolling j w (isPause st))))"

lemma passed_step:
  assumes "rollout_step steps a b" and "(rollout_step steps)\<^sup>*\<^sup>* (Rolling 0 0 False) a" and "rolloutInv steps a"
    and "\<And>i w p. a = Rolling i w p \<Longrightarrow> passed steps i"
  shows "(b = Promoted \<longrightarrow> passed steps (int (length steps))) \<and> (\<forall>i w p. b = Rolling i w p \<longrightarrow> passed steps i)"
  using assms
proof (induction rule: rollout_step.induct)
  case (weight i st w' w p)
  then have "\<not> p" "\<not> isPause st"
    by (auto simp: rolloutInv_def isPause_def)
  with weight have "passed steps (i + 1)"
    unfolding passed_def by (metis option.inject zless_add1_eq)
  then show ?case by simp
next
  case (resume i st d w)
  then have "isPause st" by (simp add: isPause_def)
  with resume have "passed steps (i + 1)"
    unfolding passed_def by (metis option.inject zless_add1_eq)
  then show ?case by simp
next
  case (finish i w p)
  then have "passed steps i" by blast
  then have "passed steps (int (length steps))"
    using finish.hyps by (auto simp: passed_def)
  then show ?case by simp
qed auto

lemma reachable_passed:
  "(rollout_step steps)\<^sup>*\<^sup>* (Rolling 0 0 False) r \<Longrightarrow>
   rolloutInv steps r \<and> (r = Promoted \<longrightarrow> passed steps (int (length steps))) \<and> (\<forall>i w p. r = Rolling i w p \<longrightarrow> passed steps i)"
proof (induction rule: rtranclp_induct)
  case base
  then show ?case by (auto simp: rolloutInv_def shareAfter_def passed_def stepAt_def split: if_splits)
next
  case (step a b)
  then show ?case
    using passed_step [OF step.hyps(2,1)] rolloutInv_step [OF step.hyps(2)] by blast
qed

text \<open>The cycles of one rollout, with anything in between that leaves the AgentDeployment alone.\<close>

inductive rollout_run :: "'s Controller \<Rightarrow> ('s \<Rightarrow> cluster) \<Rightarrow> NamespacedName \<Rightarrow> 's \<Rightarrow> 's \<Rightarrow> bool" for c view k s where
  begin_run: "rollout_run c view k s s"
| cycle: "rollout_run c view k s s1 \<Longrightarrow> cl_ad (view s1) k = Some ad \<Longrightarrow> ad_Key ad = k \<Longrightarrow>
    status_Phase (ad_Status ad) = PhaseRolloutInProgress \<Longrightarrow> Step c ad s1 = (r, s2) \<Longrightarrow> rollout_run c view k s s2"
| other: "rollout_run c view k s s1 \<Longrightarrow> cl_ad (view s2) k = cl_ad (view s1) k \<Longrightarrow> rollout_run c view k s s2"

lemma rollout_run_reachable:
  assumes "kube_laws (cc_Client c) view" and "promFrame view (cc_PromClient c)"
    and "\<And>A. cc_Registrar c = Some A \<Longrightarrow> agent_registrar A isIn view"
    and "rollout_run c view k s s'" and "cl_ad (view s) k = Some ad"
  shows "\<exists>ad'. cl_ad (view s') k = Some ad' \<and> ad_spec ad' = ad_spec ad \<and>
    (rollout_step (ro_Steps (spec_Rollout (ad_Spec ad))))\<^sup>*\<^sup>* (rolloutState ad) (rolloutState ad')"
  using assms(4)
proof (induction rule: rollout_run.induct)
  case begin_run
  then show ?case using assms(5) by auto
next
  case (cycle s1 ad1 r s2)
  have "wp (Step c ad1) (\<lambda>e s'. stayed ad1 (view s1) (view s')) (\<lambda>r s'. stepped ad1 (view s1) (view s')) s1"
    using cycle.hyps by (intro kube_laws.wp_Step [OF assms(1) refl assms(2,3)]) auto
  then have "stayed ad1 (view s1) (view s2) \<or> stepped ad1 (view s1) (view s2)"
    using cycle.hyps(5) by (cases r) (auto dest: wp_Inl wp_Inr)
  then show ?case
    using cycle.hyps cycle.IH by (auto simp: stayed_def stepped_def ad_spec_def)
next
  case (other s1 s2)
  then show ?case by simp
qed

section \<open>Sample rollout\<close>

text \<open>An agent in the middle of a rollout, in a store with its stable Deployment, and a Prometheus
  that answers every query by the same value.\<close>

definition sample_steps :: "CanaryStep list" where
  "sample_steps = [\<lparr>cs_SetWeight = Some 20, cs_Pause = None\<rparr>, \<lparr>cs_SetWeight = None, cs_Pause = Some (5 * Minute)\<rparr>]"

definition sample_canary :: "int \<Rightarrow> int32 \<Rightarrow> time option \<Rightarrow> AgentDeployment" where
  "sample_canary idx w pause =
    \<lparr>ad_Meta = zero_ObjectMeta\<lparr>om_Name := ''a'', om_Namespace := ''ns''\<rparr>,
     ad_Spec = (sample_spec ''t'' ''0'' 5)\<lparr>spec_Image := ''img:v2'', spec_Rollout := \<lparr>ro_Strategy = ''Canary'', ro_Steps = sample_steps,
       ro_Rollback = \<lparr>rb_MaxErrorRate = ''5%'', rb_MaxP99LatencyMs = 500, rb_MinRequestSample = 10\<rparr>, ro_Abort = False\<rparr>\<rparr>,
     ad_Status = zero_AgentDeploymentStatus\<lparr>status_Phase := PhaseRolloutInProgress, status_StableVersion := ''img:v1'',
       status_CanaryVersion := ''img:v2'', status_CanaryStepIndex := idx, status_CanaryWeight := w, status_PauseStartedAt := pause\<rparr>\<rparr>"

definition sample_cluster :: "AgentDeployment \<Rightarrow> mem" where
  "sample_cluster ad = empty_mem\<lparr>m_ad := [ad], m_clock := 600 * Second,
     m_dep := [(desiredCanaryDeployment ad (ad_Name ad))\<lparr>dep_Containers :=
       [\<lparr>ct_Name = ''agent'', ct_Image = ''img:v1'', ct_Ports = [], ct_Resources = \<lparr>res_Requests = [], res_Limits = []\<rparr>, ct_Env = [], ct_Args = []\<rparr>]\<rparr>]\<rparr>"

definition sample_canary_controller :: "string \<Rightarrow> mem Controller" where
  "sample_canary_controller x = \<lparr>cc_Client = mem_kube, cc_PromClient = constant_prom x, cc_Registrar = None,
     cc_GatewayName = ''gw'', cc_GatewayNamespace = ''gwns'', cc_FailSafeTimeout = 5 * Minute\<rparr>"

lemma constant_prom_frame: "promFrame view (constant_prom x)"
  by (simp add: promFrame_def constant_prom_def)

lemma sample_canary_controller_simps [simp]:
  "cc_Client (sample_canary_controller x) = mem_kube" "cc_Registrar (sample_canary_controller x) = None"
  "cc_PromClient (sample_canary_controller x) = constant_prom x"
  by (simp_all add: sample_canary_controller_def)

section \<open>Properties\<close>


lemma sample_stored: "cl_ad (mem_view (sample_cluster ad)) (ad_Key ad) = Some ad"
  by (simp add: sample_cluster_def mem_view_def metaKey_def empty_mem_def)

lemma sample_phase [simp]: "status_Phase (ad_Status (sample_canary i w p)) = PhaseRolloutInProgress"
  by (simp add: sample_canary_def)




text \<open>C8. Rollouts end: every cycle that returns either waits in a pause or strictly decreases a measure
  that starts at \<open>2 * length steps + 2\<close>, so a rollout takes at most that many cycles besides waiting.\<close>

theorem Step_terminates:
  assumes "kube_laws (cc_Client c) view" and "promFrame view (cc_PromClient c)"
    and "\<And>A. cc_Registrar c = Some A \<Longrightarrow> agent_registrar A isIn view"
    and "cl_ad (view s) (ad_Key ad) = Some ad" and "status_Phase (ad_Status ad) = PhaseRolloutInProgress"
    and "Step c ad s = (Inr r, s')"
  shows "\<exists>ad'. cl_ad (view s') (ad_Key ad) = Some ad' \<and>
    (rolloutState ad' = rolloutState ad \<and> status_PauseStartedAt (ad_Status ad) \<noteq> None \<or>
     rolloutMeasure (ro_Steps (spec_Rollout (ad_Spec ad))) (rolloutState ad') <
       rolloutMeasure (ro_Steps (spec_Rollout (ad_Spec ad))) (rolloutState ad))"
proof -
  obtain ad' where ad': "cl_ad (view s') (ad_Key ad) = Some ad'"
    and step: "rollout_step (ro_Steps (spec_Rollout (ad_Spec ad))) (rolloutState ad) (rolloutState ad')"
    using wp_Inr [OF kube_laws.wp_Step [OF assms(1) refl assms(2-5)] assms(6)] by (auto simp: stepped_def)
  have "rolloutState ad' = rolloutState ad \<Longrightarrow> status_PauseStartedAt (ad_Status ad) \<noteq> None"
    using step by (auto simp: rolloutState_def standing_def assms(5) elim!: rollout_stepE)
  with ad' rolloutMeasure_step [OF step] show ?thesis by auto
qed

theorem Step_terminates_witness:
  "\<exists>ad'. cl_ad (mem_view (snd (Step (sample_canary_controller ''0'') (sample_canary 0 0 None) (sample_cluster (sample_canary 0 0 None)))))
      (ad_Key (sample_canary 0 0 None)) = Some ad' \<and>
    rolloutMeasure sample_steps (rolloutState ad') < rolloutMeasure sample_steps (rolloutState (sample_canary 0 0 None))"
proof -
  let ?ad = "sample_canary 0 0 None" and ?c = "sample_canary_controller ''0''"
  have "fst (Step ?c ?ad (sample_cluster ?ad)) = Inr (RequeueAfter Second)"
    by code_simp
  then have "Step ?c ?ad (sample_cluster ?ad) = (Inr (RequeueAfter Second), snd (Step ?c ?ad (sample_cluster ?ad)))"
    by (simp add: prod_eq_iff)
  from Step_terminates [where isIn = "\<lambda>_ _ _. True" and view = mem_view, OF _ _ _ _ _ this] show ?thesis
    by (simp add: mem.kube_laws_axioms constant_prom_frame sample_stored) (simp add: sample_canary_def zero_AgentDeploymentStatus_def)
qed

text \<open>Reading the status that was written.\<close>

lemma stat_proj:
  assumes "ad_stat a = ad_stat b"
  shows "status_Phase (ad_Status a) = status_Phase (ad_Status b)"
    and "status_StableVersion (ad_Status a) = status_StableVersion (ad_Status b)"
    and "status_CanaryVersion (ad_Status a) = status_CanaryVersion (ad_Status b)"
    and "status_CanaryWeight (ad_Status a) = status_CanaryWeight (ad_Status b)"
    and "status_CanaryStepIndex (ad_Status a) = status_CanaryStepIndex (ad_Status b)"
    and "status_PauseStartedAt (ad_Status b) = None \<Longrightarrow> status_PauseStartedAt (ad_Status a) = None"
    and "status_PromUnreachableSince (ad_Status b) = None \<Longrightarrow> status_PromUnreachableSince (ad_Status a) = None"
    and "status_Registered (ad_Status a) = status_Registered (ad_Status b)"
    and "status_Conditions (ad_Status a) = status_Conditions (ad_Status b)"
    and "status_CurrentReplicas (ad_Status a) = status_CurrentReplicas (ad_Status b)"
proof -
  note proj = arg_cong [OF assms]
  show "status_Phase (ad_Status a) = status_Phase (ad_Status b)" using proj [of status_Phase] by (simp add: ad_stat_def)
  show "status_StableVersion (ad_Status a) = status_StableVersion (ad_Status b)" using proj [of status_StableVersion] by (simp add: ad_stat_def)
  show "status_CanaryVersion (ad_Status a) = status_CanaryVersion (ad_Status b)" using proj [of status_CanaryVersion] by (simp add: ad_stat_def)
  show "status_CanaryWeight (ad_Status a) = status_CanaryWeight (ad_Status b)" using proj [of status_CanaryWeight] by (simp add: ad_stat_def)
  show "status_CanaryStepIndex (ad_Status a) = status_CanaryStepIndex (ad_Status b)" using proj [of status_CanaryStepIndex] by (simp add: ad_stat_def)
  show "status_PauseStartedAt (ad_Status b) = None \<Longrightarrow> status_PauseStartedAt (ad_Status a) = None"
    using proj [of status_PauseStartedAt] by (simp add: ad_stat_def)
  show "status_PromUnreachableSince (ad_Status b) = None \<Longrightarrow> status_PromUnreachableSince (ad_Status a) = None"
    using proj [of status_PromUnreachableSince] by (simp add: ad_stat_def)
  show "status_Registered (ad_Status a) = status_Registered (ad_Status b)" using proj [of status_Registered] by (simp add: ad_stat_def)
  show "status_Conditions (ad_Status a) = status_Conditions (ad_Status b)" using proj [of status_Conditions] by (simp add: ad_stat_def)
  show "status_CurrentReplicas (ad_Status a) = status_CurrentReplicas (ad_Status b)" using proj [of status_CurrentReplicas] by (simp add: ad_stat_def)
qed

lemma rolledBack_status:
  assumes "kube_laws K view" and "ad_stat ad' = ad_stat (rolledBack K ad reason message latest)"
  shows "status_Phase (ad_Status ad') = PhaseRolloutFailed \<and>
    status_StableVersion (ad_Status ad') = status_StableVersion (ad_Status latest) \<and>
    status_CanaryVersion (ad_Status ad') = (if status_CanaryVersion (ad_Status latest) = [] then spec_Image (ad_Spec ad)
      else status_CanaryVersion (ad_Status latest)) \<and>
    status_CanaryStepIndex (ad_Status ad') = 0 \<and> status_CanaryWeight (ad_Status ad') = 0 \<and>
    status_PauseStartedAt (ad_Status ad') = None \<and> status_PromUnreachableSince (ad_Status ad') = None \<and>
    findCondition (status_Conditions (ad_Status ad')) ''RolloutFailed'' =
      Some \<lparr>cond_Type = ''RolloutFailed'', cond_Status = ConditionTrue, cond_Reason = reason, cond_Message = message,
        cond_ObservedGeneration = om_Generation (ad_Meta latest)\<rparr> \<and>
    findCondition (status_Conditions (ad_Status ad')) ConditionSampleInsufficient = None"
  using stat_proj [OF assms(2)]
  by (simp add: rolledBack_def kube_laws.set_condition [OF assms(1)] kube_laws.remove_condition [OF assms(1)])

lemma promoted_status:
  assumes "kube_laws K view"
    and "ad_stat ad' = ad_stat (promoted K version (latest\<lparr>ad_Status := (ad_Status latest)\<lparr>status_Registered := b\<rparr>\<rparr>))"
  shows "status_Phase (ad_Status ad') = PhaseRunning \<and>
    status_StableVersion (ad_Status ad') = version \<and> status_CanaryVersion (ad_Status ad') = [] \<and>
    status_CanaryStepIndex (ad_Status ad') = 0 \<and> status_CanaryWeight (ad_Status ad') = 0 \<and>
    status_PauseStartedAt (ad_Status ad') = None \<and> status_PromUnreachableSince (ad_Status ad') = None \<and>
    findCondition (status_Conditions (ad_Status ad')) ''RolloutFailed'' = None \<and>
    findCondition (status_Conditions (ad_Status ad')) ConditionSampleInsufficient = None"
  using stat_proj [OF assms(2)] by (simp add: promoted_def kube_laws.remove_condition [OF assms(1)])

text \<open>C4. A rollback that succeeds leaves the stable Deployment on the stable image, no canary
  Deployment, Service or route, the HPA restored, and the status failed at step 0 without share or
  pause, with the reason recorded and the versions kept; it touched nothing else. A rollback that
  fails half-way has not written the status, so that the next cycle repeats it.\<close>

theorem Rollback_restores_stable:
  assumes "kube_laws (cc_Client c) view"
  shows "case Rollback c ad reason message s of
     (Inl e, s') \<Rightarrow> rolloutFrame ad (view s) (view s') \<and> cl_ad (view s') = cl_ad (view s)
   | (Inr u, s') \<Rightarrow> rolloutFrame ad (view s) (view s') \<and> cl_cm (view s') = cl_cm (view s) \<and> noCanary ad (view s') \<and>
       (status_StableVersion (ad_Status ad) \<noteq> [] \<longrightarrow> runs (status_StableVersion (ad_Status ad)) (cl_dep (view s') (ad_Key ad))) \<and>
       map_option hpa_spec (cl_hpa (view s') (ad_Key ad)) = Some (hpa_spec (BuildHPA ad 0)) \<and>
       (\<exists>latest ad'. cl_ad (view s) (ad_Key ad) = Some latest \<and> cl_ad (view s') (ad_Key ad) = Some ad' \<and>
         ad_spec ad' = ad_spec latest \<and> status_Phase (ad_Status ad') = PhaseRolloutFailed \<and>
         status_StableVersion (ad_Status ad') = status_StableVersion (ad_Status latest) \<and>
         status_CanaryVersion (ad_Status ad') = (if status_CanaryVersion (ad_Status latest) = [] then spec_Image (ad_Spec ad)
           else status_CanaryVersion (ad_Status latest)) \<and>
         status_CanaryStepIndex (ad_Status ad') = 0 \<and> status_CanaryWeight (ad_Status ad') = 0 \<and>
         status_PauseStartedAt (ad_Status ad') = None \<and> status_PromUnreachableSince (ad_Status ad') = None \<and>
         findCondition (status_Conditions (ad_Status ad')) ''RolloutFailed'' =
           Some \<lparr>cond_Type = ''RolloutFailed'', cond_Status = ConditionTrue, cond_Reason = reason, cond_Message = message,
             cond_ObservedGeneration = om_Generation (ad_Meta latest)\<rparr> \<and>
         findCondition (status_Conditions (ad_Status ad')) ConditionSampleInsufficient = None)"
proof -
  have "wp (Rollback c ad reason message)
    (\<lambda>e s'. rolloutFrame ad (view s) (view s') \<and> cl_ad (view s') = cl_ad (view s))
    (\<lambda>_ s'. rollbackDone (cc_Client c) ad reason message (view s) (view s')) s"
    by (rule kube_laws.wp_Rollback_done [OF assms refl]) auto
  then show ?thesis
    unfolding wp_def rollbackDone_def
    by (auto simp: statusWritten_def rolledBack_status [OF assms] split: prod.splits sum.splits)
qed

theorem Rollback_restores_stable_witness:
  "case Rollback (sample_canary_controller ''0'') (sample_canary 1 20 None) ''ManualAbort'' ''abort'' (sample_cluster (sample_canary 1 20 None)) of
     (Inl e, s') \<Rightarrow> False
   | (Inr u, s') \<Rightarrow> noCanary (sample_canary 1 20 None) (mem_view s') \<and>
       runs ''img:v1'' (cl_dep (mem_view s') (ad_Key (sample_canary 1 20 None)))"
proof -
  let ?r = "Rollback (sample_canary_controller ''0'') (sample_canary 1 20 None) ''ManualAbort'' ''abort'' (sample_cluster (sample_canary 1 20 None))"
  have "fst ?r = Inr ()" by code_simp
  moreover have "status_StableVersion (ad_Status (sample_canary 1 20 None)) = ''img:v1''" by code_simp
  ultimately show ?thesis
    using Rollback_restores_stable [where c = "sample_canary_controller ''0''" and view = mem_view and ad = "sample_canary 1 20 None"
        and reason = "''ManualAbort''" and message = "''abort''" and s = "sample_cluster (sample_canary 1 20 None)"]
    by (cases ?r) (simp add: mem.kube_laws_axioms)
qed

text \<open>C5. A promotion that succeeds had a canary version, puts it into the stable Deployment and into
  \<open>status.stableVersion\<close>, removes every canary object, restores the HPA and clears the rollout's
  status and conditions. One that fails has not written the status. Failing to register the agent
  again never makes it fail.\<close>

theorem promote_replaces_stable:
  assumes "kube_laws (cc_Client c) view" and "\<And>A. cc_Registrar c = Some A \<Longrightarrow> agent_registrar A isIn view"
  shows "case promote c ad s of
     (Inl e, s') \<Rightarrow> rolloutFrame ad (view s) (view s') \<and> cl_ad (view s') = cl_ad (view s)
   | (Inr u, s') \<Rightarrow> status_CanaryVersion (ad_Status ad) \<noteq> [] \<and> rolloutFrame ad (view s) (view s') \<and> noCanary ad (view s') \<and>
       runs (status_CanaryVersion (ad_Status ad)) (cl_dep (view s') (ad_Key ad)) \<and>
       map_option hpa_spec (cl_hpa (view s') (ad_Key ad)) = Some (hpa_spec (BuildHPA ad 0)) \<and>
       (\<exists>latest ad'. cl_ad (view s) (ad_Key ad) = Some latest \<and> cl_ad (view s') (ad_Key ad) = Some ad' \<and>
         ad_spec ad' = ad_spec latest \<and> status_Phase (ad_Status ad') = PhaseRunning \<and>
         status_StableVersion (ad_Status ad') = status_CanaryVersion (ad_Status ad) \<and> status_CanaryVersion (ad_Status ad') = [] \<and>
         status_CanaryStepIndex (ad_Status ad') = 0 \<and> status_CanaryWeight (ad_Status ad') = 0 \<and>
         status_PauseStartedAt (ad_Status ad') = None \<and> status_PromUnreachableSince (ad_Status ad') = None \<and>
         findCondition (status_Conditions (ad_Status ad')) ''RolloutFailed'' = None \<and>
         findCondition (status_Conditions (ad_Status ad')) ConditionSampleInsufficient = None)"
  using kube_laws.wp_promote [OF assms(1) refl assms(2), of ad s]
  unfolding wp_def
  by (auto simp: statusWritten_def promoted_status [OF assms(1)] split: prod.splits sum.splits)

theorem promote_replaces_stable_witness:
  "case promote (sample_canary_controller ''0'') (sample_canary 2 20 None) (sample_cluster (sample_canary 2 20 None)) of
     (Inl e, s') \<Rightarrow> False
   | (Inr u, s') \<Rightarrow> noCanary (sample_canary 2 20 None) (mem_view s') \<and>
       runs ''img:v2'' (cl_dep (mem_view s') (ad_Key (sample_canary 2 20 None)))"
proof -
  let ?r = "promote (sample_canary_controller ''0'') (sample_canary 2 20 None) (sample_cluster (sample_canary 2 20 None))"
  have "fst ?r = Inr ()" by code_simp
  moreover have "status_CanaryVersion (ad_Status (sample_canary 2 20 None)) = ''img:v2''" by code_simp
  ultimately show ?thesis
    using promote_replaces_stable [where isIn = "\<lambda>_ _ _. True" and c = "sample_canary_controller ''0''" and view = mem_view
        and ad = "sample_canary 2 20 None" and s = "sample_cluster (sample_canary 2 20 None)"]
    by (cases ?r) (simp add: mem.kube_laws_axioms)
qed


text \<open>C6. The gate of a pause. A pause is left for the next step only if it has lasted its configured
  duration and the metrics were evaluated without a breach, and, where the sample is too small, only
  after the longest extension of the pause; a pause ends in a rollback only on a breach, or
  when Prometheus has been unreachable for the fail-safe timeout.\<close>

theorem executePause_gate:
  assumes "kube_laws (cc_Client c) view" and "promFrame view (cc_PromClient c)"
    and "cl_ad (view s) (ad_Key ad) = Some ad" and "rolloutState ad = Rolling i w p"
    and "executePause c ad idx d s = (Inr r, s')" and "cl_ad (view s') (ad_Key ad) = Some ad'"
  shows "case rolloutState ad' of
     Rolling j w' p' \<Rightarrow> j \<noteq> i \<longrightarrow> j = idx + 1 \<and> (\<exists>started now s0 s1 ev s2.
       status_PauseStartedAt (ad_Status ad) = Some started \<and> k_Now (cc_Client c) s = (Inr now, s0) \<and>
       Evaluate (cc_PromClient c) ad d s1 = (Inr ev, s2) \<and> \<not> ev_ThresholdBreached ev \<and>
       d \<le> time_sub now started \<and> (ev_SampleTooSmall ev \<longrightarrow> maxWait d \<le> time_sub now started))
   | Failed \<Rightarrow> (\<exists>s1 ev s2. Evaluate (cc_PromClient c) ad d s1 = (Inr ev, s2) \<and> ev_ThresholdBreached ev) \<or>
       (\<exists>now s0 s1 e s2. k_Now (cc_Client c) s = (Inr now, s0) \<and> Evaluate (cc_PromClient c) ad d s1 = (Inl e, s2) \<and>
         cc_FailSafeTimeout c \<le> unreachableFor now ad)
   | _ \<Rightarrow> False" (is "?gate ad'")
proof -
  have "wp (executePause c ad idx d) (\<lambda>_ _. True) (\<lambda>r s'. \<forall>ad'. cl_ad (view s') (ad_Key ad) = Some ad' \<longrightarrow> ?gate ad') s"
  proof (rule kube_laws.wp_executePause [OF assms(1) refl assms(2,3)], goal_cases)
    case (1 now l' s')
    then have "\<exists>p'. rolloutState l' = Rolling i w p'"
      using assms(4) by (auto simp: rolloutState_def standing_def split: Phase.splits dest!: rolloutState_stat)
    with 1 show ?case by auto
  next
    case (2 l' r s')
    then show ?case using assms(4) by (auto simp: sameRollout_def)
  next
    case (3 started now s0 s1 ev s2 l0 l' s')
    then have "rolloutState l' = Rolling (idx + 1) w False"
      using assms(4) by (simp add: sameRollout_def rolloutState_advanced)
    with 3(1-7) show ?case by auto
  next
    case (4 l' reason message v s')
    then have "ad_Key l' = ad_Key ad" "cl_ad v (ad_Key l') = Some l'"
      by (auto simp: sameRollout_def)
    with 4(5) obtain ad' where "cl_ad (view s') (ad_Key ad) = Some ad'" "rolloutState ad' = Failed"
      by (auto simp: rollbackDone_def rolled_states dest!: statusWritten_state [of _ l' _ _ l'])
    with 4(4) show ?case by simp
  qed simp
  with assms(5,6) show ?thesis by (auto dest: wp_Inr)
qed

theorem executePause_gate_witness:
  "\<exists>ad'. cl_ad (mem_view (snd (executePause (sample_canary_controller ''0'') (sample_canary 1 20 (Some (- (400 * Second)))) 1 (5 * Minute)
      (sample_cluster (sample_canary 1 20 (Some (- (400 * Second)))))))) (ad_Key (sample_canary 1 20 (Some (- (400 * Second))))) = Some ad' \<and>
    rolloutState ad' = Rolling 2 20 False \<and>
    (\<exists>started now s1 ev s2. status_PauseStartedAt (ad_Status (sample_canary 1 20 (Some (- (400 * Second))))) = Some started \<and>
      Evaluate (constant_prom ''0'' :: mem Client) (sample_canary 1 20 (Some (- (400 * Second)))) (5 * Minute) s1 = (Inr ev, s2) \<and>
      \<not> ev_ThresholdBreached ev \<and> 5 * Minute \<le> time_sub now started)"
proof -
  let ?ad = "sample_canary 1 20 (Some (- (400 * Second)))" and ?c = "sample_canary_controller ''0''"
  let ?r = "executePause ?c ?ad 1 (5 * Minute) (sample_cluster ?ad)"
  have "fst ?r = Inr (RequeueAfter Second) \<and>
      map_option rolloutState (cl_ad (mem_view (snd ?r)) (ad_Key ?ad)) = Some (Rolling 2 20 False) \<and>
      rolloutState ?ad = Rolling 1 20 True"
    by code_simp
  then obtain ad' where ad': "cl_ad (mem_view (snd ?r)) (ad_Key ?ad) = Some ad'" "rolloutState ad' = Rolling 2 20 False"
    and r: "?r = (Inr (RequeueAfter Second), snd ?r)" and st: "rolloutState ?ad = Rolling 1 20 True"
    by (auto simp: prod_eq_iff)
  show ?thesis
    using executePause_gate [where view = mem_view, OF _ _ _ st r ad'(1)] ad'
    by (simp add: mem.kube_laws_axioms constant_prom_frame sample_stored) blast
qed

text \<open>The canary objects are found by name only: rolling back the agent \<open>a\<close> deletes the Deployment
  \<open>a-canary\<close> also when it is the stable Deployment of another agent, called \<open>a-canary\<close>.\<close>

lemma Rollback_deletes_homonym:
  "let ad = sample_canary 1 20 None; other = \<lparr>nn_Namespace = ''ns'', nn_Name = ''a-canary''\<rparr>;
       s = sample_cluster ad;
       s1 = s\<lparr>m_dep := (desiredCanaryDeployment ad ''a-canary'')\<lparr>dep_Meta := zero_ObjectMeta\<lparr>om_Name := ''a-canary'', om_Namespace := ''ns'',
         om_OwnerReferences := [''a-canary'']\<rparr>\<rparr> # m_dep s\<rparr>
   in cl_dep (mem_view s1) other \<noteq> None \<and>
      cl_dep (mem_view (snd (Rollback (sample_canary_controller ''0'') ad ''ManualAbort'' ''abort'' s1))) other = None"
  by code_simp

end
