(* ===== verification/Quota.thy ===== *)
theory Quota
  imports Api_Types "HOL-Library.Multiset"
begin

text \<open>
  The quota enforcer, \<^verbatim>\<open>internal/quota/enforcer.go\<close>: the quota arithmetic and the map of
  in-flight reservations. The mutex \<open>mu\<close> makes each method atomic, so each method is one
  function on the \<open>Enforcer\<close> state; the clock \<open>nowFn\<close> is the argument \<open>now\<close> (a method that
  reads it once takes it once). \<open>Quantity.Value\<close> of apimachinery is the argument \<open>qv\<close>.
\<close>

section \<open>State\<close>

abbreviation DefaultGPUResourceName :: string where
  "DefaultGPUResourceName \<equiv> ''nvidia.com/gpu''"

record reservationEntry =
  re_agents :: int32
  re_gpus :: int32
  re_replicas :: int32
  re_expiry :: time

record Enforcer =
  gpuResourceName :: string
  reservations :: "(string \<times> reservationEntry) list"
  enf_done :: bool

definition NewEnforcer :: "string \<Rightarrow> Enforcer" where
  "NewEnforcer gpuName =
    \<lparr>gpuResourceName = (if gpuName = '''' then DefaultGPUResourceName else gpuName),
     reservations = [], enf_done = False\<rparr>"

text \<open>\<open>stopOnce.Do(close(done))\<close>: closing twice would panic, so only the first call closes.\<close>

definition Stop :: "Enforcer \<Rightarrow> Enforcer" where
  "Stop e = (if enf_done e then e else e\<lparr>enf_done := True\<rparr>)"

section \<open>The sweeper\<close>

definition sweepExpired :: "time \<Rightarrow> Enforcer \<Rightarrow> Enforcer" where
  "sweepExpired now e =
    e\<lparr>reservations := filter (\<lambda>(k, v). \<not> time_after now (re_expiry v)) (reservations e)\<rparr>"

text \<open>What the goroutine of \<open>sweepLoop\<close> receives: ticks of the ticker (with the time the
  sweep reads) until the channel \<open>done\<close> is closed.\<close>

datatype sweepEvent = Ticked time | DoneClosed

fun sweepLoop :: "sweepEvent list \<Rightarrow> Enforcer \<Rightarrow> Enforcer" where
  "sweepLoop [] e = e"
| "sweepLoop (Ticked now # evs) e = sweepLoop evs (sweepExpired now e)"
| "sweepLoop (DoneClosed # evs) e = e"

section \<open>Quota arithmetic\<close>

definition extractGPUs :: "(Quantity \<Rightarrow> int64) \<Rightarrow> Enforcer \<Rightarrow> ResourceRequirements \<Rightarrow> int64" where
  "extractGPUs qv e res =
    (case map_of (res_Limits res) (gpuResourceName e) of None \<Rightarrow> 0 | Some qty \<Rightarrow> qv qty)"

definition gpusForAD :: "(Quantity \<Rightarrow> int64) \<Rightarrow> Enforcer \<Rightarrow> AgentDeploymentSpec \<Rightarrow> int32" where
  "gpusForAD qv e ad =
    (let perReplica = extractGPUs qv e (spec_Resources ad); maxReplicas = sp_Max (spec_Replicas ad) in
     if perReplica <s 0 \<or> maxReplicas <s 0 then MaxInt32
     else if 0 <s perReplica \<and> div_int64 MaxInt64 perReplica <s to_int64 maxReplicas then MaxInt32
     else
       (let total = perReplica * to_int64 maxReplicas in
        if to_int64 MaxInt32 <s total then MaxInt32 else to_int32 total))"

definition ComputeUsage :: "(Quantity \<Rightarrow> int64) \<Rightarrow> Enforcer \<Rightarrow> AgentDeploymentSpec list \<Rightarrow> TenantQuotaStatus" where
  "ComputeUsage qv e ads =
    foldl (\<lambda>status ad. status\<lparr>
        tq_UsedAgents := tq_UsedAgents status + 1,
        tq_UsedTotalReplicas := tq_UsedTotalReplicas status + sp_Max (spec_Replicas ad),
        tq_UsedGPUs := tq_UsedGPUs status + gpusForAD qv e ad\<rparr>)
      zero_TenantQuotaStatus ads"

definition sameTenantUpdate :: "AgentDeploymentSpec \<Rightarrow> AgentDeploymentSpec option \<Rightarrow> bool" where
  "sameTenantUpdate requested oldSpec =
    (case oldSpec of None \<Rightarrow> False | Some old \<Rightarrow> spec_TenantRef requested = spec_TenantRef old)"

text \<open>The entry that \<open>computeDelta\<close> returns has the zero time as its expiry.\<close>

definition computeDelta ::
  "(Quantity \<Rightarrow> int64) \<Rightarrow> Enforcer \<Rightarrow> AgentDeploymentSpec \<Rightarrow> AgentDeploymentSpec option \<Rightarrow> reservationEntry" where
  "computeDelta qv e requested oldSpec =
    (case oldSpec of
       None \<Rightarrow> \<lparr>re_agents = 1, re_gpus = gpusForAD qv e requested,
                re_replicas = sp_Max (spec_Replicas requested), re_expiry = 0\<rparr>
     | Some old \<Rightarrow>
         if spec_TenantRef requested \<noteq> spec_TenantRef old
         then \<lparr>re_agents = 1, re_gpus = gpusForAD qv e requested,
               re_replicas = sp_Max (spec_Replicas requested), re_expiry = 0\<rparr>
         else \<lparr>re_agents = 0, re_gpus = gpusForAD qv e requested - gpusForAD qv e old,
               re_replicas = sp_Max (spec_Replicas requested) - sp_Max (spec_Replicas old), re_expiry = 0\<rparr>)"

definition oldMax :: "AgentDeploymentSpec option \<Rightarrow> int32" where
  "oldMax oldSpec = (case oldSpec of None \<Rightarrow> 0 | Some old \<Rightarrow> sp_Max (spec_Replicas old))"

text \<open>The message of a violated ceiling, \<open>would exceed <what> (max): current= in-flight= delta=\<close>.\<close>

definition exceedMsg :: "string \<Rightarrow> int32 \<Rightarrow> int32 \<Rightarrow> int32 \<Rightarrow> int32 \<Rightarrow> string" where
  "exceedMsg what ceiling current inFlight delta =
    ''would exceed '' @ what @ '' ('' @ show_int32 ceiling @ ''): current='' @ show_int32 current @
    '' in-flight='' @ show_int32 inFlight @ '' delta='' @ show_int32 delta"

definition evalQuotaRules ::
  "TenantQuotaSpec \<Rightarrow> TenantQuotaStatus \<Rightarrow> reservationEntry \<Rightarrow> reservationEntry \<Rightarrow> int32 \<Rightarrow> bool \<Rightarrow> int32
   \<Rightarrow> bool \<times> string" where
  "evalQuotaRules quota committedUsage inFlight delta requestedMaxReplicas isUpdate prevMaxReplicas =
    (if re_gpus delta = MaxInt32 then (False, ''GPU resource calculation overflowed; request denied'')
     else
       (let projAgents = to_int64 (tq_UsedAgents committedUsage) + to_int64 (re_agents inFlight) + to_int64 (re_agents delta);
            projGPUs = to_int64 (tq_UsedGPUs committedUsage) + to_int64 (re_gpus inFlight) + to_int64 (re_gpus delta);
            projReplicas = to_int64 (tq_UsedTotalReplicas committedUsage) + to_int64 (re_replicas inFlight) + to_int64 (re_replicas delta);
            perAgentIncreases = (\<not> isUpdate \<or> prevMaxReplicas <s requestedMaxReplicas)
        in if to_int64 (tq_MaxAgents quota) <s projAgents \<and> (\<not> isUpdate \<or> 0 <s re_agents delta)
           then (False, exceedMsg ''maxAgents'' (tq_MaxAgents quota) (tq_UsedAgents committedUsage) (re_agents inFlight) (re_agents delta))
           else if to_int64 (tq_MaxGPUs quota) <s projGPUs \<and> (\<not> isUpdate \<or> 0 <s re_gpus delta)
           then (False, exceedMsg ''maxGPUs'' (tq_MaxGPUs quota) (tq_UsedGPUs committedUsage) (re_gpus inFlight) (re_gpus delta))
           else if to_int64 (tq_MaxTotalReplicas quota) <s projReplicas \<and> (\<not> isUpdate \<or> 0 <s re_replicas delta)
           then (False, exceedMsg ''maxTotalReplicas'' (tq_MaxTotalReplicas quota) (tq_UsedTotalReplicas committedUsage) (re_replicas inFlight) (re_replicas delta))
           else if tq_MaxReplicasPerAgent quota <s requestedMaxReplicas \<and> perAgentIncreases
           then (False, ''spec.replicas.max ('' @ show_int32 requestedMaxReplicas @ '') exceeds maxReplicasPerAgent ('' @
                        show_int32 (tq_MaxReplicasPerAgent quota) @ '')'')
           else (True, '''')))"

section \<open>Reservations\<close>

definition zero_reservationEntry :: reservationEntry where
  "zero_reservationEntry = \<lparr>re_agents = 0, re_gpus = 0, re_replicas = 0, re_expiry = 0\<rparr>"

definition addEntry :: "reservationEntry \<Rightarrow> reservationEntry \<Rightarrow> reservationEntry" where
  "addEntry acc v = acc\<lparr>re_agents := re_agents acc + re_agents v,
     re_gpus := re_gpus acc + re_gpus v, re_replicas := re_replicas acc + re_replicas v\<rparr>"

definition sumInflightLocked :: "Enforcer \<Rightarrow> string \<Rightarrow> time \<Rightarrow> reservationEntry" where
  "sumInflightLocked e excludeKey now =
    foldl (\<lambda>acc (k, v). if k = excludeKey \<or> time_after now (re_expiry v) then acc else addEntry acc v)
      zero_reservationEntry (reservations e)"

definition sumInflight :: "Enforcer \<Rightarrow> string \<Rightarrow> time \<Rightarrow> reservationEntry" where
  "sumInflight e excludeKey now = sumInflightLocked e excludeKey now"

definition CanAdmit ::
  "(Quantity \<Rightarrow> int64) \<Rightarrow> time \<Rightarrow> Enforcer \<Rightarrow> string \<Rightarrow> TenantQuotaSpec \<Rightarrow> TenantQuotaStatus \<Rightarrow>
   AgentDeploymentSpec \<Rightarrow> AgentDeploymentSpec option \<Rightarrow> bool \<times> string" where
  "CanAdmit qv now e admissionKey quota committedUsage requested oldSpec =
    (let delta = computeDelta qv e requested oldSpec; inFlight = sumInflight e admissionKey now in
     evalQuotaRules quota committedUsage inFlight delta (sp_Max (spec_Replicas requested))
       (sameTenantUpdate requested oldSpec) (oldMax oldSpec))"

definition AdmitAndReserve ::
  "(Quantity \<Rightarrow> int64) \<Rightarrow> time \<Rightarrow> string \<Rightarrow> TenantQuotaSpec \<Rightarrow> TenantQuotaStatus \<Rightarrow>
   AgentDeploymentSpec \<Rightarrow> AgentDeploymentSpec option \<Rightarrow> duration \<Rightarrow> Enforcer \<Rightarrow> (bool \<times> string) \<times> Enforcer" where
  "AdmitAndReserve qv now admissionKey quota committedUsage requested oldSpec ttl e =
    (let delta = computeDelta qv e requested oldSpec;
         inFlight = sumInflightLocked e admissionKey now;
         (ok, reason) = evalQuotaRules quota committedUsage inFlight delta (sp_Max (spec_Replicas requested))
           (sameTenantUpdate requested oldSpec) (oldMax oldSpec)
     in if \<not> ok then ((False, reason), e)
        else ((True, ''''), e\<lparr>reservations := AList.update admissionKey
               \<lparr>re_agents = re_agents delta, re_gpus = re_gpus delta, re_replicas = re_replicas delta,
                re_expiry = time_add now ttl\<rparr> (reservations e)\<rparr>))"

definition reserve ::
  "(Quantity \<Rightarrow> int64) \<Rightarrow> time \<Rightarrow> string \<Rightarrow> AgentDeploymentSpec \<Rightarrow> AgentDeploymentSpec option \<Rightarrow> duration
   \<Rightarrow> Enforcer \<Rightarrow> Enforcer" where
  "reserve qv now admissionKey spec oldSpec ttl e =
    (let delta = computeDelta qv e spec oldSpec in
     e\<lparr>reservations := AList.update admissionKey
         \<lparr>re_agents = re_agents delta, re_gpus = re_gpus delta, re_replicas = re_replicas delta,
          re_expiry = time_add now ttl\<rparr> (reservations e)\<rparr>)"

definition Release :: "string \<Rightarrow> Enforcer \<Rightarrow> Enforcer" where
  "Release admissionKey e = e\<lparr>reservations := AList.delete admissionKey (reservations e)\<rparr>"

definition IsOverQuota :: "TenantQuotaSpec \<Rightarrow> TenantQuotaStatus \<Rightarrow> bool \<times> string" where
  "IsOverQuota quota usage =
    (if tq_MaxAgents quota <s tq_UsedAgents usage
     then (True, ''usedAgents ('' @ show_int32 (tq_UsedAgents usage) @ '') exceeds maxAgents ('' @ show_int32 (tq_MaxAgents quota) @ '')'')
     else if tq_MaxGPUs quota <s tq_UsedGPUs usage
     then (True, ''usedGPUs ('' @ show_int32 (tq_UsedGPUs usage) @ '') exceeds maxGPUs ('' @ show_int32 (tq_MaxGPUs quota) @ '')'')
     else if tq_MaxTotalReplicas quota <s tq_UsedTotalReplicas usage
     then (True, ''usedTotalReplicas ('' @ show_int32 (tq_UsedTotalReplicas usage) @ '') exceeds maxTotalReplicas ('' @ show_int32 (tq_MaxTotalReplicas quota) @ '')'')
     else (False, ''''))"


section \<open>The three dimensions of a quota\<close>

text \<open>
  Specification vocabulary: a quota bounds three numbers. \<open>inflightLoad d e now\<close> is the
  in-flight load in dimension \<open>d\<close> as an unbounded integer, over the entries that are not
  expired at \<open>now\<close>; \<open>inflightOthers\<close> leaves one key out.
\<close>

datatype quotaDim = DimAgents | DimGPUs | DimReplicas

fun entryDim :: "quotaDim \<Rightarrow> reservationEntry \<Rightarrow> int32" where
  "entryDim DimAgents v = re_agents v"
| "entryDim DimGPUs v = re_gpus v"
| "entryDim DimReplicas v = re_replicas v"

fun usedDim :: "quotaDim \<Rightarrow> TenantQuotaStatus \<Rightarrow> int32" where
  "usedDim DimAgents u = tq_UsedAgents u"
| "usedDim DimGPUs u = tq_UsedGPUs u"
| "usedDim DimReplicas u = tq_UsedTotalReplicas u"

fun maxDim :: "quotaDim \<Rightarrow> TenantQuotaSpec \<Rightarrow> int32" where
  "maxDim DimAgents q = tq_MaxAgents q"
| "maxDim DimGPUs q = tq_MaxGPUs q"
| "maxDim DimReplicas q = tq_MaxTotalReplicas q"

definition inflightLoad :: "quotaDim \<Rightarrow> Enforcer \<Rightarrow> time \<Rightarrow> int" where
  "inflightLoad d e now =
    map_sum (\<lambda>k v. if time_after now (re_expiry v) then 0 else sint (entryDim d v)) (reservations e)"

definition inflightOthers :: "quotaDim \<Rightarrow> Enforcer \<Rightarrow> string \<Rightarrow> time \<Rightarrow> int" where
  "inflightOthers d e key now =
    map_sum (\<lambda>k v. if k = key \<or> time_after now (re_expiry v) then 0 else sint (entryDim d v)) (reservations e)"

lemma all_quotaDim: "(\<forall>d. P d) \<longleftrightarrow> P DimAgents \<and> P DimGPUs \<and> P DimReplicas"
  by (metis quotaDim.exhaust)

lemma entryDim_addEntry: "entryDim d (addEntry a v) = entryDim d a + entryDim d v"
  by (cases d) (simp_all add: addEntry_def)

lemma entryDim_zero: "entryDim d zero_reservationEntry = 0"
  by (cases d) (simp_all add: zero_reservationEntry_def)

section \<open>Lemmas on the quota arithmetic\<close>

lemma div_int64_max:
  assumes "0 < sint p"
  shows "sint (div_int64 MaxInt64 p) = 9223372036854775807 div sint p"
proof -
  have "9223372036854775807 div sint p \<le> 9223372036854775807"
    using assms zdiv_mono2 [of 9223372036854775807 1 "sint p"] by simp
  moreover have "0 \<le> 9223372036854775807 div sint p"
    using assms by (simp add: pos_imp_zdiv_nonneg_iff)
  ultimately show ?thesis
    using assms by (simp add: div_int64_def sint64_of_int signed_divide_int_def)
qed

lemma gpu_product_fits:
  assumes "0 < sint p" and "\<not> div_int64 MaxInt64 p <s to_int64 m" and "0 \<le> sint m"
  shows "sint (p * to_int64 m) = sint p * sint m"
proof -
  have "sint m \<le> 9223372036854775807 div sint p"
    using assms(1,2) by (simp add: int32_simps div_int64_max)
  then have "sint p * sint m \<le> sint p * (9223372036854775807 div sint p)"
    using assms(1) by (simp add: mult_left_mono)
  also have "\<dots> \<le> 9223372036854775807"
    using assms(1) mult_div_mod_eq [of "sint p" 9223372036854775807]
      pos_mod_sign [of "sint p" 9223372036854775807] by linarith
  finally have "sint p * sint m \<le> 9223372036854775807" .
  moreover have "0 \<le> sint p * sint m" using assms by simp
  ultimately show ?thesis by (subst sint64_mult) simp_all
qed

lemma gpu_product_overflows:
  assumes "0 < sint p" and "div_int64 MaxInt64 p <s to_int64 m"
  shows "2147483647 \<le> sint p * sint m"
proof -
  have "9223372036854775807 div sint p < sint m"
    using assms by (simp add: int32_simps div_int64_max)
  then have "sint p * (9223372036854775807 div sint p + 1) \<le> sint p * sint m"
    using assms(1) by (intro mult_left_mono) simp_all
  then show ?thesis
    using assms(1) mult_div_mod_eq [of "sint p" 9223372036854775807]
      pos_mod_bound [of "sint p" 9223372036854775807] unfolding distrib_left by linarith
qed

lemma sint_gpusForAD:
  "sint (gpusForAD qv e ad) =
    (let p = sint (extractGPUs qv e (spec_Resources ad)); m = sint (sp_Max (spec_Replicas ad)) in
     if p < 0 \<or> m < 0 then 2147483647 else min 2147483647 (p * m))"
proof -
  define p where "p = extractGPUs qv e (spec_Resources ad)"
  define m where "m = sp_Max (spec_Replicas ad)"
  consider (neg) "sint p < 0 \<or> sint m < 0" | (zero) "sint p = 0" "0 \<le> sint m"
    | (over) "0 < sint p" "0 \<le> sint m" "div_int64 MaxInt64 p <s to_int64 m"
    | (fits) "0 < sint p" "0 \<le> sint m" "\<not> div_int64 MaxInt64 p <s to_int64 m"
    by linarith
  then have "sint (gpusForAD qv e ad) =
    (if sint p < 0 \<or> sint m < 0 then 2147483647 else min 2147483647 (sint p * sint m))"
  proof cases
    case neg
    then show ?thesis by (auto simp: gpusForAD_def Let_def p_def m_def int32_simps)
  next
    case zero
    then have "p = 0" by (metis sint_0 signed_eq_0_iff)
    with zero show ?thesis by (simp add: gpusForAD_def p_def [symmetric] m_def [symmetric] int32_simps to_int32_def)
  next
    case over
    with gpu_product_overflows [of p m] show ?thesis
      by (simp add: gpusForAD_def p_def [symmetric] m_def [symmetric] int32_simps)
  next
    case fits
    have prod: "sint (p * to_int64 m) = sint p * sint m"
      using fits by (intro gpu_product_fits)
    have "0 \<le> sint p * sint m" using fits by simp
    with prod have "sint p * sint m \<le> 2147483647 \<Longrightarrow> sint (to_int32 (p * to_int64 m)) = sint p * sint m"
      using sint_to_int32 [of "p * to_int64 m"] by simp
    with fits prod show ?thesis
      by (auto simp: gpusForAD_def p_def [symmetric] m_def [symmetric] int32_simps)
  qed
  then show ?thesis by (simp add: p_def m_def Let_def)
qed

text \<open>The rules accept exactly when no dimension that the request raises passes its ceiling
  and the per-agent ceiling is kept.\<close>

lemma first_violation:
  "fst (if a then (False, ma) else if b then (False, mb) else if c then (False, mc)
        else if d then (False, md) else if g then (False, mg) else (True, m)) \<longleftrightarrow>
   \<not> a \<and> \<not> b \<and> \<not> c \<and> \<not> d \<and> \<not> g"
  by simp

lemma evalQuotaRules_accepts:
  "fst (evalQuotaRules q u infl delta reqMax isUpd prevMax) \<longleftrightarrow>
     re_gpus delta \<noteq> MaxInt32 \<and>
     (\<forall>d. sint (usedDim d u) + sint (entryDim d infl) + sint (entryDim d delta) \<le> sint (maxDim d q)
          \<or> isUpd \<and> sint (entryDim d delta) \<le> 0) \<and>
     (sint reqMax \<le> sint (tq_MaxReplicasPerAgent q) \<or> isUpd \<and> sint reqMax \<le> sint prevMax)"
  unfolding evalQuotaRules_def Let_def first_violation
  by (simp add: all_quotaDim int32_simps not_less)

lemma evalQuotaRules_reason: "fst (evalQuotaRules q u infl delta reqMax isUpd prevMax) \<longleftrightarrow>
    snd (evalQuotaRules q u infl delta reqMax isUpd prevMax) = ''''"
  by (simp add: evalQuotaRules_def Let_def exceedMsg_def)

definition usageOf :: "(Quantity \<Rightarrow> int64) \<Rightarrow> Enforcer \<Rightarrow> quotaDim \<Rightarrow> AgentDeploymentSpec \<Rightarrow> int32" where
  "usageOf qv e d ad = entryDim d (computeDelta qv e ad None)"

lemma usedDim_ComputeUsage:
  "usedDim d (ComputeUsage qv e ads) = sum_list (map (usageOf qv e d) ads)"
proof -
  let ?f = "\<lambda>status ad. status\<lparr>tq_UsedAgents := tq_UsedAgents status + 1,
      tq_UsedTotalReplicas := tq_UsedTotalReplicas status + sp_Max (spec_Replicas ad),
      tq_UsedGPUs := tq_UsedGPUs status + gpusForAD qv e ad\<rparr>"
  have "usedDim d (foldl ?f z ads) = usedDim d z + sum_list (map (usageOf qv e d) ads)" for z
    by (induction ads arbitrary: z) (cases d, auto simp: usageOf_def computeDelta_def)+
  moreover have "usedDim d zero_TenantQuotaStatus = 0"
    by (cases d) (simp_all add: zero_TenantQuotaStatus_def)
  ultimately show ?thesis by (simp add: ComputeUsage_def)
qed

section \<open>Lemmas on the in-flight sum\<close>

lemma entryDim_foldl:
  "entryDim d (foldl (\<lambda>acc (k, v). if P k v then acc else addEntry acc v) z m) =
     entryDim d z + sum_list (map (\<lambda>(k, v). if P k v then 0 else entryDim d v) m)"
  by (induction m arbitrary: z) (auto simp: entryDim_addEntry add.assoc)

lemma entryDim_sumInflight:
  "entryDim d (sumInflightLocked e key now) =
     sum_list (map (\<lambda>(k, v). if k = key \<or> time_after now (re_expiry v) then 0 else entryDim d v) (reservations e))"
  by (simp add: sumInflightLocked_def entryDim_foldl entryDim_zero)

definition nonneg_reservations :: "Enforcer \<Rightarrow> bool" where
  "nonneg_reservations e \<longleftrightarrow> (\<forall>(k, v) \<in> set (reservations e). \<forall>d. 0 \<le> sint (entryDim d v))"

lemma inflightOthers_le_load:
  "nonneg_reservations e \<Longrightarrow> inflightOthers d e key now \<le> inflightLoad d e now"
  unfolding inflightOthers_def inflightLoad_def
  by (rule map_sum_mono) (auto simp: nonneg_reservations_def)

lemma sint_sumInflight:
  assumes "nonneg_reservations e" and "inflightOthers d e key now \<le> 2147483647"
  shows "sint (entryDim d (sumInflightLocked e key now)) = inflightOthers d e key now"
proof -
  let ?f = "\<lambda>(k, v). if k = key \<or> time_after now (re_expiry v) then 0 else entryDim d v"
  have eq: "inflightOthers d e key now = sum_list (map sint (map ?f (reservations e)))"
    unfolding inflightOthers_def map_sum_def by (auto intro!: arg_cong [where f = sum_list])
  have "\<forall>x \<in> set (map ?f (reservations e)). 0 \<le> sint x"
    using assms(1) by (auto simp: nonneg_reservations_def)
  moreover have "sum_list (map sint (map ?f (reservations e))) \<le> 2147483647"
    using assms(2) by (simp only: eq)
  ultimately show ?thesis
    unfolding entryDim_sumInflight eq by (rule sint32_sum_list)
qed

lemma sumInflightLocked_expiry: "re_expiry (sumInflightLocked e key now) = 0"
proof -
  have "re_expiry (foldl (\<lambda>acc (k, v). if k = key \<or> time_after now (re_expiry v) then acc else addEntry acc v) z m)
      = re_expiry z" for z m
    by (induction m arbitrary: z) (auto simp: addEntry_def)
  then show ?thesis by (simp add: sumInflightLocked_def zero_reservationEntry_def)
qed

lemma reservationEntry_eqI:
  "(\<And>d. entryDim d v = entryDim d w) \<Longrightarrow> re_expiry v = re_expiry w \<Longrightarrow> v = (w :: reservationEntry)"
  by (metis entryDim.simps reservationEntry.equality unit.exhaust)

lemma sumInflightLocked_perm:
  assumes "mset (reservations e) = mset (reservations e')"
  shows "sumInflightLocked e key now = sumInflightLocked e' key now"
proof (rule reservationEntry_eqI)
  fix d
  let ?f = "\<lambda>(k, v). if k = key \<or> time_after now (re_expiry v) then 0 else entryDim d v"
  have "sum_mset (image_mset ?f (mset (reservations e))) = sum_mset (image_mset ?f (mset (reservations e')))"
    using assms by (simp only:)
  then show "entryDim d (sumInflightLocked e key now) = entryDim d (sumInflightLocked e' key now)"
    unfolding entryDim_sumInflight by (simp only: sum_mset_sum_list flip: mset_map)
qed (simp add: sumInflightLocked_expiry)

lemma inflightLoad_update:
  "distinct (map fst (reservations e)) \<Longrightarrow>
   inflightLoad d (e\<lparr>reservations := AList.update key v (reservations e)\<rparr>) now =
     inflightOthers d e key now + (if time_after now (re_expiry v) then 0 else sint (entryDim d v))"
  by (simp add: inflightLoad_def inflightOthers_def map_sum_update)
    (rule map_sum_cong, simp)

lemma inflightLoad_later:
  "nonneg_reservations e \<Longrightarrow> t \<le> t' \<Longrightarrow> inflightLoad d e t' \<le> inflightLoad d e t"
  unfolding inflightLoad_def
  by (rule map_sum_mono) (auto simp: nonneg_reservations_def time_after_def)

lemma inflightLoad_filter_le:
  assumes "nonneg_reservations e"
  shows "inflightLoad d (e\<lparr>reservations := filter (\<lambda>(k, v). P k v) (reservations e)\<rparr>) t \<le> inflightLoad d e t"
proof -
  have "inflightLoad d (e\<lparr>reservations := filter (\<lambda>(k, v). P k v) (reservations e)\<rparr>) t =
      map_sum (\<lambda>k v. if P k v then if time_after t (re_expiry v) then 0 else sint (entryDim d v) else 0) (reservations e)"
    by (simp add: inflightLoad_def map_sum_filter)
  also have "\<dots> \<le> inflightLoad d e t"
    unfolding inflightLoad_def using assms
    by (intro map_sum_mono) (auto simp: nonneg_reservations_def)
  finally show ?thesis .
qed

lemma nonneg_filter:
  "nonneg_reservations e \<Longrightarrow> nonneg_reservations (e\<lparr>reservations := filter P (reservations e)\<rparr>)"
  by (auto simp: nonneg_reservations_def)

lemma nonneg_update:
  assumes "nonneg_reservations e" and "\<And>d. 0 \<le> sint (entryDim d v)"
  shows "nonneg_reservations (e\<lparr>reservations := AList.update key v (reservations e)\<rparr>)"
proof -
  have "set (AList.update key v m) \<subseteq> insert (key, v) (set m)" for m
    by (induction m) auto
  with assms show ?thesis by (force simp: nonneg_reservations_def)
qed

text \<open>What an admitted request writes, and what a denied one leaves.\<close>

lemma AdmitAndReserve_cases:
  obtains (denied) reason where "AdmitAndReserve qv now key q u req old ttl e = ((False, reason), e)"
      and "\<not> fst (CanAdmit qv now e key q u req old)"
  | (admitted) "AdmitAndReserve qv now key q u req old ttl e =
        ((True, ''''), reserve qv now key req old ttl e)"
      and "fst (CanAdmit qv now e key q u req old)"
  by (cases "evalQuotaRules q u (sumInflightLocked e key now) (computeDelta qv e req old)
        (sp_Max (spec_Replicas req)) (sameTenantUpdate req old) (oldMax old)")
    (auto simp: AdmitAndReserve_def CanAdmit_def sumInflight_def reserve_def Let_def split: if_splits)

section \<open>The contract of an admission gate\<close>

text \<open>
  The interface the admission webhook relies on: whatever the sequence of admissions,
  releases and sweeps, the load held by the gate never passes its capacity. A run is driven by
  a clock that never goes back.
\<close>

datatype ('r, 'k) gateOp = GateAdmit 'r time | GateRelease 'k | GateSweep time

fun gateExec :: "('r \<Rightarrow> time \<Rightarrow> 'st \<Rightarrow> bool \<times> 'st) \<Rightarrow> ('k \<Rightarrow> 'st \<Rightarrow> 'st) \<Rightarrow> (time \<Rightarrow> 'st \<Rightarrow> 'st) \<Rightarrow>
    ('r, 'k) gateOp \<Rightarrow> time \<times> 'st \<Rightarrow> time \<times> 'st" where
  "gateExec admit release sweep (GateAdmit r t') (t, s) = (max t t', snd (admit r (max t t') s))"
| "gateExec admit release sweep (GateRelease k) (t, s) = (t, release k s)"
| "gateExec admit release sweep (GateSweep t') (t, s) = (max t t', sweep (max t t') s)"

fun gateRun :: "('r \<Rightarrow> time \<Rightarrow> 'st \<Rightarrow> bool \<times> 'st) \<Rightarrow> ('k \<Rightarrow> 'st \<Rightarrow> 'st) \<Rightarrow> (time \<Rightarrow> 'st \<Rightarrow> 'st) \<Rightarrow>
    ('r, 'k) gateOp list \<Rightarrow> time \<times> 'st \<Rightarrow> time \<times> 'st" where
  "gateRun admit release sweep [] ts = ts"
| "gateRun admit release sweep (op # ops) ts = gateRun admit release sweep ops (gateExec admit release sweep op ts)"

locale quota_gate =
  fixes admit :: "'r \<Rightarrow> time \<Rightarrow> 'st \<Rightarrow> bool \<times> 'st"
    and release :: "'k \<Rightarrow> 'st \<Rightarrow> 'st"
    and sweep :: "time \<Rightarrow> 'st \<Rightarrow> 'st"
    and load :: "'d \<Rightarrow> 'st \<Rightarrow> time \<Rightarrow> int"
    and cap :: "'d \<Rightarrow> int"
    and inv :: "'st \<Rightarrow> bool"
  assumes admit_inv: "inv s \<Longrightarrow> inv (snd (admit r now s))"
    and release_inv: "inv s \<Longrightarrow> inv (release k s)"
    and sweep_inv: "inv s \<Longrightarrow> inv (sweep now s)"
    and admit_within: "inv s \<Longrightarrow> (\<And>d. load d s now \<le> cap d) \<Longrightarrow> load d (snd (admit r now s)) now \<le> cap d"
    and load_later: "inv s \<Longrightarrow> t \<le> t' \<Longrightarrow> load d s t' \<le> load d s t"
    and release_load: "inv s \<Longrightarrow> load d (release k s) t \<le> load d s t"
    and sweep_load: "inv s \<Longrightarrow> load d (sweep now s) t \<le> load d s t"
begin

definition within :: "time \<times> 'st \<Rightarrow> bool" where
  "within ts \<longleftrightarrow> inv (snd ts) \<and> (\<forall>d. load d (snd ts) (fst ts) \<le> cap d)"

lemma exec_within:
  assumes "within (t, s)"
  shows "within (gateExec admit release sweep op (t, s))"
proof (cases op)
  case (GateAdmit r t')
  have "load d s (max t t') \<le> cap d" for d
    using assms load_later [of s t "max t t'" d] by (auto simp: within_def intro: order_trans)
  with assms GateAdmit show ?thesis
    by (simp add: within_def admit_inv admit_within)
next
  case (GateRelease k)
  with assms show ?thesis
    by (auto simp: within_def release_inv intro: order_trans [OF release_load])
next
  case (GateSweep t')
  have "load d s (max t t') \<le> cap d" for d
    using assms load_later [of s t "max t t'" d] by (auto simp: within_def intro: order_trans)
  with assms GateSweep show ?thesis
    by (auto simp: within_def sweep_inv intro: order_trans [OF sweep_load])
qed

lemma run_within: "within ts \<Longrightarrow> within (gateRun admit release sweep ops ts)"
proof (induction ops arbitrary: ts)
  case Nil
  then show ?case by simp
next
  case (Cons op ops)
  then show ?case using exec_within [of "fst ts" "snd ts" op] by simp
qed

end

text \<open>The enforcer, serving the \<open>CREATE\<close> requests of one tenant, is such a gate.\<close>

definition createAdmit ::
  "(Quantity \<Rightarrow> int64) \<Rightarrow> TenantQuotaSpec \<Rightarrow> TenantQuotaStatus \<Rightarrow> duration \<Rightarrow> string \<times> AgentDeploymentSpec \<Rightarrow>
   time \<Rightarrow> Enforcer \<Rightarrow> bool \<times> Enforcer" where
  "createAdmit qv q u ttl r now e =
    (case AdmitAndReserve qv now (fst r) q u (snd r) None ttl e of ((ok, reason), e') \<Rightarrow> (ok, e'))"

definition quotaRoom :: "TenantQuotaSpec \<Rightarrow> TenantQuotaStatus \<Rightarrow> quotaDim \<Rightarrow> int" where
  "quotaRoom q u d = sint (maxDim d q) - sint (usedDim d u)"

definition gateInv :: "TenantQuotaStatus \<Rightarrow> Enforcer \<Rightarrow> bool" where
  "gateInv u e \<longleftrightarrow> distinct (map fst (reservations e)) \<and> nonneg_reservations e \<and> (\<forall>d. 0 \<le> sint (usedDim d u))"

lemma quotaRoom_bound: "gateInv u e \<Longrightarrow> quotaRoom q u d \<le> 2147483647"
  using sint32_bounds [of "maxDim d q"] by (auto simp: quotaRoom_def gateInv_def dest: spec [of _ d])

lemma gateInv_reserve_create:
  assumes "gateInv u e" and "re_gpus (computeDelta qv e req None) \<noteq> MaxInt32"
  shows "gateInv u (reserve qv now key req None ttl e)"
proof -
  have "sint (gpusForAD qv e req) \<noteq> 2147483647"
    using assms(2) by (simp add: computeDelta_def sint_eq_MaxInt32)
  then have "0 \<le> sint (sp_Max (spec_Replicas req))" "0 \<le> sint (gpusForAD qv e req)"
    by (auto simp: sint_gpusForAD Let_def split: if_splits)
  then have "0 \<le> sint (entryDim d \<lparr>re_agents = 1, re_gpus = gpusForAD qv e req,
      re_replicas = sp_Max (spec_Replicas req), re_expiry = x\<rparr>)" for d x
    by (cases d) simp_all
  with assms(1) show ?thesis
    by (auto simp: gateInv_def reserve_def computeDelta_def Let_def intro: distinct_update nonneg_update)
qed

lemma createAdmit_within:
  assumes inv: "gateInv u e" and room: "\<And>d. inflightLoad d e now \<le> quotaRoom q u d"
  shows "inflightLoad d (snd (createAdmit qv q u ttl r now e)) now \<le> quotaRoom q u d"
proof (cases rule: AdmitAndReserve_cases [of qv now "fst r" q u "snd r" None ttl e])
  case (denied reason)
  with room show ?thesis by (simp add: createAdmit_def)
next
  case admitted
  let ?delta = "computeDelta qv e (snd r) None"
  let ?others = "inflightOthers d e (fst r) now"
  have "?others \<le> quotaRoom q u d"
    using inv room inflightOthers_le_load by (meson gateInv_def order_trans)
  then have others: "sint (entryDim d (sumInflightLocked e (fst r) now)) = ?others"
    using inv quotaRoom_bound [OF inv, of q d] by (intro sint_sumInflight) (auto simp: gateInv_def)
  from admitted(2) have "sint (usedDim d u) + ?others + sint (entryDim d ?delta) \<le> sint (maxDim d q)"
    by (simp add: CanAdmit_def sumInflight_def Let_def evalQuotaRules_accepts sameTenantUpdate_def
        flip: others)
  then have ok: "?others + sint (entryDim d ?delta) \<le> quotaRoom q u d"
    by (simp add: quotaRoom_def)
  let ?entry = "?delta\<lparr>re_expiry := time_add now ttl\<rparr>"
  have "inflightLoad d (reserve qv now (fst r) (snd r) None ttl e) now =
      ?others + (if time_after now (time_add now ttl) then 0 else sint (entryDim d ?delta))"
    using inv by (cases d) (simp_all add: reserve_def Let_def gateInv_def inflightLoad_update)
  with ok room \<open>?others \<le> quotaRoom q u d\<close> admitted(1) show ?thesis
    by (simp add: createAdmit_def split: if_splits)
qed

lemma createAdmit_inv: "gateInv u e \<Longrightarrow> gateInv u (snd (createAdmit qv q u ttl r now e))"
proof (cases rule: AdmitAndReserve_cases [of qv now "fst r" q u "snd r" None ttl e])
  case (denied reason)
  then show "gateInv u e \<Longrightarrow> ?thesis" by (simp add: createAdmit_def)
next
  case admitted
  then have "re_gpus (computeDelta qv e (snd r) None) \<noteq> MaxInt32"
    by (simp add: CanAdmit_def Let_def evalQuotaRules_accepts)
  with admitted show "gateInv u e \<Longrightarrow> ?thesis"
    by (simp add: createAdmit_def gateInv_reserve_create)
qed

lemma Release_eq_filter: "Release k e = e\<lparr>reservations := filter (\<lambda>(k', v). k' \<noteq> k) (reservations e)\<rparr>"
  by (simp add: Release_def delete_eq_filter)

lemma gateInv_filter:
  "gateInv u e \<Longrightarrow> gateInv u (e\<lparr>reservations := filter (\<lambda>(k, v). P k v) (reservations e)\<rparr>)"
  by (simp add: gateInv_def nonneg_filter distinct_filter_keys)

interpretation create_gate: quota_gate "createAdmit qv q u ttl" Release sweepExpired inflightLoad
    "quotaRoom q u" "gateInv u" for qv q u ttl
proof unfold_locales
  fix s :: Enforcer and t t' :: time and d
  assume "gateInv u s" and "t \<le> t'"
  then show "inflightLoad d s t' \<le> inflightLoad d s t"
    by (intro inflightLoad_later) (simp_all add: gateInv_def)
qed (simp_all add: createAdmit_inv createAdmit_within gateInv_filter Release_eq_filter sweepExpired_def,
    simp_all add: gateInv_def inflightLoad_filter_le)

text \<open>The \<open>OverQuota\<close> verdict holds exactly when some dimension of the usage is above its ceiling.\<close>

lemma IsOverQuota_iff:
  "(fst (IsOverQuota q u) \<longleftrightarrow> (\<exists>d. sint (maxDim d q) < sint (usedDim d u))) \<and>
   (fst (IsOverQuota q u) \<longleftrightarrow> snd (IsOverQuota q u) \<noteq> '''')"
proof -
  have "(\<exists>d. sint (maxDim d q) < sint (usedDim d u)) \<longleftrightarrow> \<not> (\<forall>d. sint (usedDim d u) \<le> sint (maxDim d q))"
    by (simp add: not_le)
  then show ?thesis
    by (auto simp: IsOverQuota_def all_quotaDim int32_simps)
qed

section \<open>Properties\<close>

text \<open>C13. Concurrent creates never over-commit a tenant: start from a fresh enforcer and a
  committed usage within the ceilings, and run any sequence of admissions of \<open>CREATE\<close>
  requests (retries and duplicate keys included), releases and sweeps, under a clock that
  never goes back; then in each of the three dimensions the committed usage plus all
  reservations still in flight stays within the ceiling of the quota.\<close>

theorem creates_never_overcommit:
  assumes "\<And>d. 0 \<le> sint (usedDim d u)" and "\<And>d. sint (usedDim d u) \<le> sint (maxDim d q)"
    and "gateRun (createAdmit qv q u ttl) Release sweepExpired ops (t0, NewEnforcer gpuName) = (t, e)"
  shows "sint (usedDim d u) + inflightLoad d e t \<le> sint (maxDim d q)"
proof -
  have "create_gate.within q u (t0, NewEnforcer gpuName)"
    using assms(1,2) by (simp add: create_gate.within_def gateInv_def nonneg_reservations_def
        NewEnforcer_def inflightLoad_def quotaRoom_def)
  then have "create_gate.within q u (t, e)"
    using create_gate.run_within [of q u "(t0, NewEnforcer gpuName)" qv ttl ops] assms(3) by simp
  then show ?thesis
    by (simp add: create_gate.within_def quotaRoom_def algebra_simps)
qed

text \<open>Two creates race for the last agent slot of a tenant: one reservation is held.\<close>

definition sample_race :: "time \<times> Enforcer" where
  "sample_race = gateRun (createAdmit sample_value (sample_quota 3 8 4) (sample_usage 2 2 2) (5 * Second))
     Release sweepExpired
     [GateAdmit (''ns/a'', sample_spec ''t'' ''2'' 2) 10, GateAdmit (''ns/b'', sample_spec ''t'' ''2'' 2) 20]
     (0, NewEnforcer '''')"

theorem creates_never_overcommit_witness:
  "sint (usedDim DimAgents (sample_usage 2 2 2)) + inflightLoad DimAgents (snd sample_race) (fst sample_race)
     \<le> sint (maxDim DimAgents (sample_quota 3 8 4)) \<and> inflightLoad DimAgents (snd sample_race) (fst sample_race) = 1"
proof
  have "0 \<le> sint (usedDim d (sample_usage 2 2 2))" for d
    by (cases d) (simp_all add: sample_usage_def)
  moreover have "sint (usedDim d (sample_usage 2 2 2)) \<le> sint (maxDim d (sample_quota 3 8 4))" for d
    by (cases d) (simp_all add: sample_usage_def sample_quota_def)
  ultimately show "sint (usedDim DimAgents (sample_usage 2 2 2)) + inflightLoad DimAgents (snd sample_race) (fst sample_race)
     \<le> sint (maxDim DimAgents (sample_quota 3 8 4))"
    by (rule creates_never_overcommit) (unfold sample_race_def, rule prod.collapse [symmetric])
  show "inflightLoad DimAgents (snd sample_race) (fst sample_race) = 1"
    by code_simp
qed

text \<open>C17. The atomic check-and-reserve takes the same decision, with the same reason, as the
  dry-run check; it writes exactly the reservation of the request when it admits, and
  leaves the enforcer untouched when it denies.\<close>

theorem AdmitAndReserve_refines_CanAdmit:
  "AdmitAndReserve qv now key q u req old ttl e =
    (CanAdmit qv now e key q u req old,
     if fst (CanAdmit qv now e key q u req old) then reserve qv now key req old ttl e else e)"
proof (cases rule: AdmitAndReserve_cases [of qv now key q u req old ttl e])
  case (denied reason)
  then show ?thesis
    by (auto simp: AdmitAndReserve_def CanAdmit_def sumInflight_def Let_def split: prod.splits if_splits)
next
  case admitted
  then have "snd (CanAdmit qv now e key q u req old) = ''''"
    by (simp add: CanAdmit_def Let_def flip: evalQuotaRules_reason)
  with admitted show ?thesis by (simp add: prod_eq_iff)
qed

text \<open>C18. The GPU demand of an agent is the product of its per-replica limit and its
  maximum number of replicas, computed without overflow and clamped at the largest
  \<open>int32\<close>; a negative operand yields that same sentinel.\<close>

theorem gpusForAD_is_clamped_product:
  "sint (gpusForAD qv e ad) =
    (let perReplica = sint (extractGPUs qv e (spec_Resources ad)); maxReplicas = sint (sp_Max (spec_Replicas ad)) in
     if perReplica < 0 \<or> maxReplicas < 0 then 2 ^ 31 - 1 else min (2 ^ 31 - 1) (perReplica * maxReplicas))"
  by (simp add: sint_gpusForAD Let_def)

text \<open>C19. An update that keeps the tenant and raises neither the replica ceiling nor the GPU
  demand is always admitted, however far usage is over a quota that was lowered: spec
  corrections and finalizer removals cannot be deadlocked by the quota.\<close>

theorem nonincreasing_update_admitted:
  assumes "spec_TenantRef req = spec_TenantRef old"
    and "0 \<le> sint (sp_Max (spec_Replicas req))"
    and "sint (sp_Max (spec_Replicas req)) \<le> sint (sp_Max (spec_Replicas old))"
    and "sint (gpusForAD qv e req) \<le> sint (gpusForAD qv e old)"
  shows "CanAdmit qv now e key q u req (Some old) = (True, '''')"
proof -
  let ?delta = "computeDelta qv e req (Some old)"
  have gpu_range: "0 \<le> sint (gpusForAD qv e req)" "sint (gpusForAD qv e old) \<le> 2147483647"
    using assms(2) by (auto simp: sint_gpusForAD Let_def zero_le_mult_iff)
  then have gpus: "sint (re_gpus ?delta) = sint (gpusForAD qv e req) - sint (gpusForAD qv e old)"
    using assms(1,4) by (simp add: computeDelta_def sint32_sub)
  have reps: "sint (re_replicas ?delta) = sint (sp_Max (spec_Replicas req)) - sint (sp_Max (spec_Replicas old))"
    using assms(1-3) sint32_bounds(2) [of "sp_Max (spec_Replicas old)"]
    by (simp add: computeDelta_def sint32_sub)
  have "sint (entryDim d ?delta) \<le> 0" for d
    using assms gpus reps by (cases d) (simp_all add: computeDelta_def)
  moreover have "re_gpus ?delta \<noteq> MaxInt32"
    using gpus assms(4) by (simp flip: sint_eq_MaxInt32)
  ultimately have "fst (CanAdmit qv now e key q u req (Some old))"
    using assms(1,3) by (simp add: CanAdmit_def Let_def evalQuotaRules_accepts sameTenantUpdate_def oldMax_def)
  moreover from this have "snd (CanAdmit qv now e key q u req (Some old)) = ''''"
    by (simp add: CanAdmit_def Let_def flip: evalQuotaRules_reason)
  ultimately show ?thesis by (simp add: prod_eq_iff)
qed

theorem nonincreasing_update_admitted_witness:
  "CanAdmit sample_value 0 (NewEnforcer '''') ''ns/a'' (sample_quota 1 1 1) (sample_usage 9 9 9)
     (sample_spec ''t'' ''2'' 3) (Some (sample_spec ''t'' ''2'' 4)) = (True, '''')"
  by (rule nonincreasing_update_admitted) code_simp+



text \<open>C21. Sweeping is invisible: removing the entries that are expired at \<open>t\<close> changes no
  admission decision taken at \<open>t\<close> or later, so the one-second period of the sweeper never
  matters to what is admitted.\<close>

theorem sweep_is_transparent:
  assumes "t \<le> now"
  shows "CanAdmit qv now (sweepExpired t e) key q u req old = CanAdmit qv now e key q u req old"
proof -
  have "foldl (\<lambda>acc (k, v). if k = key \<or> time_after now (re_expiry v) then acc else addEntry acc v) z
      (filter (\<lambda>(k, v). \<not> time_after t (re_expiry v)) m) =
    foldl (\<lambda>acc (k, v). if k = key \<or> time_after now (re_expiry v) then acc else addEntry acc v) z m" for z m
    using assms by (induction m arbitrary: z) (auto simp: time_after_def)
  then have "sumInflightLocked (sweepExpired t e) key now = sumInflightLocked e key now"
    by (simp add: sumInflightLocked_def sweepExpired_def)
  moreover have "computeDelta qv (sweepExpired t e) req old = computeDelta qv e req old"
    by (simp add: computeDelta_def gpusForAD_def extractGPUs_def sweepExpired_def split: option.split)
  ultimately show ?thesis by (simp add: CanAdmit_def sumInflight_def)
qed

theorem sweep_is_transparent_witness:
  "CanAdmit sample_value (7 * Second) (sweepExpired (6 * Second) (snd sample_race)) ''ns/b'' (sample_quota 3 8 4)
     (sample_usage 2 2 2) (sample_spec ''t'' ''2'' 2) None =
   CanAdmit sample_value (7 * Second) (snd sample_race) ''ns/b'' (sample_quota 3 8 4)
     (sample_usage 2 2 2) (sample_spec ''t'' ''2'' 2) None"
  by (rule sweep_is_transparent) simp

text \<open>C22. The usage the reconciler computes is the exact sum over the agents, in each
  dimension, as long as the sums fit an \<open>int32\<close>.\<close>

theorem ComputeUsage_exact:
  assumes "\<forall>ad \<in> set ads. 0 \<le> sint (sp_Max (spec_Replicas ad))"
    and "(\<Sum>ad \<leftarrow> ads. sint (usageOf qv e d ad)) \<le> 2 ^ 31 - 1"
  shows "sint (usedDim d (ComputeUsage qv e ads)) = (\<Sum>ad \<leftarrow> ads. sint (usageOf qv e d ad))"
proof -
  have "\<forall>x \<in> set (map (usageOf qv e d) ads). 0 \<le> sint x"
    using assms(1) by (cases d) (auto simp: usageOf_def computeDelta_def sint_gpusForAD Let_def zero_le_mult_iff)
  moreover have "sum_list (map sint (map (usageOf qv e d) ads)) \<le> 2147483647"
    using assms(2) by (simp add: comp_def)
  ultimately have "sint (sum_list (map (usageOf qv e d) ads)) = sum_list (map sint (map (usageOf qv e d) ads))"
    by (rule sint32_sum_list)
  then show ?thesis by (simp add: usedDim_ComputeUsage comp_def)
qed

theorem ComputeUsage_exact_witness:
  "sint (usedDim DimGPUs (ComputeUsage sample_value (NewEnforcer '''') [sample_spec ''t'' ''2'' 3, sample_spec ''t'' ''1'' 4])) = 10"
proof -
  let ?ads = "[sample_spec ''t'' ''2'' 3, sample_spec ''t'' ''1'' 4]"
  have "sint (usedDim DimGPUs (ComputeUsage sample_value (NewEnforcer '''') ?ads)) =
      (\<Sum>ad \<leftarrow> ?ads. sint (usageOf sample_value (NewEnforcer '''') DimGPUs ad))"
    by (rule ComputeUsage_exact) code_simp+
  also have "\<dots> = 10" by code_simp
  finally show ?thesis .
qed

text \<open>C32. A no-op update erases a reservation. Any update that repeats its old spec is
  admitted, and it replaces whatever reservation the key held (that of the create which is
  not yet counted in the quota's status) by one of zero agents, GPUs and replicas.\<close>

theorem noop_update_erases_reservation:
  "fst (fst (AdmitAndReserve qv now key q u spec (Some spec) ttl e)) \<and>
   map_of (reservations (snd (AdmitAndReserve qv now key q u spec (Some spec) ttl e))) key =
     Some \<lparr>re_agents = 0, re_gpus = 0, re_replicas = 0, re_expiry = time_add now ttl\<rparr>"
proof -
  have "fst (CanAdmit qv now e key q u spec (Some spec))"
  proof -
    have "entryDim d (computeDelta qv e spec (Some spec)) = 0" for d
      by (cases d) (simp_all add: computeDelta_def)
    moreover from this [of DimGPUs] have "re_gpus (computeDelta qv e spec (Some spec)) \<noteq> MaxInt32" by simp
    ultimately show ?thesis
      by (simp add: CanAdmit_def Let_def evalQuotaRules_accepts sameTenantUpdate_def oldMax_def)
  qed
  then show ?thesis
    by (cases rule: AdmitAndReserve_cases [of qv now key q u spec "Some spec" ttl e])
      (simp_all add: reserve_def Let_def computeDelta_def update_conv)
qed

text \<open>Reservations are not kept per tenant. Tenant \<open>b\<close> lowers an agent from five
  replicas to one; while that (negative) reservation is in flight, tenant \<open>a\<close>, whose two
  replicas are all its quota allows, is admitted a new agent of two replicas.\<close>

lemma inflight_leaks_across_tenants:
  "let (r1, e1) = AdmitAndReserve sample_value 0 ''nsb/x'' (sample_quota 9 9 9) (sample_usage 1 0 5)
         (sample_spec ''b'' ''0'' 1) (Some (sample_spec ''b'' ''0'' 5)) (5 * Second) (NewEnforcer '''');
       (r2, e2) = AdmitAndReserve sample_value 1 ''nsa/y'' (sample_quota 9 9 2) (sample_usage 1 0 2)
         (sample_spec ''a'' ''0'' 2) None (5 * Second) e1
   in r1 = (True, '''') \<and> r2 = (True, '''')"
  by code_simp

text \<open>The sentinel of an overflowed GPU demand is only recognised when it is the whole
  delta. An update of an agent that already holds eight GPUs to a demand beyond any \<open>int32\<close>
  has the delta \<open>MaxInt32 - 8\<close>, and is admitted under the largest quota while the status does
  not count the agent yet; the same demand on a create is denied.\<close>

lemma gpu_overflow_admitted_on_update:
  "CanAdmit sample_value 0 (NewEnforcer '''') ''ns/a'' (sample_quota 9 MaxInt32 9) (sample_usage 0 0 0)
     (sample_spec ''t'' ''99999999999'' 1) (Some (sample_spec ''t'' ''8'' 1)) = (True, '''') \<and>
   \<not> fst (CanAdmit sample_value 0 (NewEnforcer '''') ''ns/a'' (sample_quota 9 MaxInt32 9) (sample_usage 0 0 0)
     (sample_spec ''t'' ''99999999999'' 1) None)"
  by code_simp

text \<open>The sum of the usage wraps around: two agents whose GPU demand is clamped at
  \<open>MaxInt32\<close> are counted as \<open>-2\<close> GPUs, which is not over a quota of zero GPUs.\<close>

lemma ComputeUsage_wraps:
  "let u = ComputeUsage sample_value (NewEnforcer '''') [sample_spec ''t'' ''9999999999'' 1, sample_spec ''t'' ''9999999999'' 1]
   in sint (tq_UsedGPUs u) = - 2 \<and> \<not> fst (IsOverQuota (sample_quota 9 0 9) u)"
  by code_simp

end
