(* ===== verification/AD_Controller.thy ===== *)
theory AD_Controller
  imports Canary Quota
begin

text \<open>
  \<^verbatim>\<open>internal/controller\<close>: the AgentDeployment reconciler (\<^verbatim>\<open>agentdeployment_controller.go\<close>), with
  \<^verbatim>\<open>conditions.go\<close>, \<^verbatim>\<open>crd_check.go\<close> and \<^verbatim>\<open>enqueue_handlers.go\<close>. \<open>Reconcile\<close> is the loop body the
  controller runtime calls with the key of an AgentDeployment.

  Spans, the reconcile-duration metric and logs are left out; \<open>SetupWithManager\<close> is in \<open>Startup\<close>.
\<close>

section \<open>The reconciler\<close>

datatype quotaState = quotaStateUncapped | quotaStateCapped | quotaStateUnknown | quotaStateSkipped

record 's AgentDeploymentReconciler =
  adr_Client :: "'s kube"
  adr_GPUResourceName :: string
  adr_CanaryController :: "'s Controller option"
  adr_Registrar :: "'s AgentRegistrar option"
  adr_MCPHealthInterval :: duration
  adr_hasServiceMonitorCRD :: bool

section \<open>Conditions\<close>

definition SetCondition :: "'s kube \<Rightarrow> AgentDeployment \<Rightarrow> string \<Rightarrow> ConditionStatus \<Rightarrow> string \<Rightarrow> string \<Rightarrow> AgentDeployment" where
  "SetCondition K ad condType status reason msg =
    ad\<lparr>ad_Status := (ad_Status ad)\<lparr>status_Conditions := k_SetStatusCondition K (status_Conditions (ad_Status ad))
      \<lparr>cond_Type = condType, cond_Status = status, cond_Reason = reason, cond_Message = msg,
       cond_ObservedGeneration = om_Generation (ad_Meta ad)\<rparr>\<rparr>\<rparr>"

definition GetCondition :: "'s kube \<Rightarrow> AgentDeployment \<Rightarrow> string \<Rightarrow> Condition option" where
  "GetCondition K ad condType = k_FindStatusCondition K (status_Conditions (ad_Status ad)) condType"

definition RemoveCondition :: "'s kube \<Rightarrow> AgentDeployment \<Rightarrow> string \<Rightarrow> AgentDeployment" where
  "RemoveCondition K ad condType =
    ad\<lparr>ad_Status := (ad_Status ad)\<lparr>status_Conditions := k_RemoveStatusCondition K (status_Conditions (ad_Status ad)) condType\<rparr>\<rparr>"

section \<open>Start-up check and event handlers\<close>

abbreviation serviceMonitorCRDName :: string where
  "serviceMonitorCRDName \<equiv> ''servicemonitors.monitoring.coreos.com''"

definition serviceMonitorCRDExists :: "(string \<Rightarrow> ('s, unit) act) \<Rightarrow> ('s, bool) act" where
  "serviceMonitorCRDExists getCRD =
    catchErr (getCRD serviceMonitorCRDName) (\<lambda>err. if IsNotFound err then ret False else fail err) (\<lambda>_. ret True)"

text \<open>The mapping functions of the watches; \<open>None\<close> is an object of another type.\<close>

definition enqueueTenantQuota :: "AgentDeployment option \<Rightarrow> NamespacedName list" where
  "enqueueTenantQuota obj = (case obj of
     None \<Rightarrow> []
   | Some ad \<Rightarrow> if spec_TenantRef (ad_Spec ad) = [] then []
       else [\<lparr>nn_Namespace = ad_Namespace ad, nn_Name = spec_TenantRef (ad_Spec ad)\<rparr>])"

definition enqueueAgentDeploymentsForTenantQuota :: "'s kube \<Rightarrow> TenantQuota option \<Rightarrow> ('s, NamespacedName list) act" where
  "enqueueAgentDeploymentsForTenantQuota K obj = (case obj of
     None \<Rightarrow> ret []
   | Some tq \<Rightarrow> catchErr (r_List (k_ad K) (om_Namespace (tq_Meta tq))) (\<lambda>_. ret [])
       (\<lambda>ads. ret (map (\<lambda>ad. ad_Key ad) (filter (\<lambda>ad. spec_TenantRef (ad_Spec ad) = om_Name (tq_Meta tq)) ads))))"

section \<open>Desired state\<close>

definition agentLabels :: "AgentDeployment \<Rightarrow> labels" where
  "agentLabels ad =
    [(''app.kubernetes.io/name'', ad_Name ad),
     (''app.kubernetes.io/managed-by'', ''agentrax''),
     (''agentrax.io/tenant'', spec_TenantRef (ad_Spec ad)),
     (''agentrax.io/variant'', ''stable''),
     (''agentrax.io/agent'', ''true'')]"

definition desiredDeployment :: "AgentDeployment \<Rightarrow> Deployment" where
  "desiredDeployment ad =
    (let port = (if spec_Port (ad_Spec ad) = 0 then 8080 else spec_Port (ad_Spec ad));
         labels = agentLabels ad;
         replicas = sp_Min (spec_Replicas (ad_Spec ad));
         img = (if status_Phase (ad_Status ad) = PhaseRolloutInProgress \<and> status_StableVersion (ad_Status ad) \<noteq> []
           then status_StableVersion (ad_Status ad) else spec_Image (ad_Spec ad))
     in (zero_Deployment (ad_Key ad))
        \<lparr>dep_Meta := zero_ObjectMeta\<lparr>om_Name := ad_Name ad, om_Namespace := ad_Namespace ad, om_Labels := labels\<rparr>,
         dep_Replicas := Some replicas,
         dep_Selector := labels,
         dep_TemplateLabels := labels,
         dep_Containers :=
           [\<lparr>ct_Name = ''agent'', ct_Image = img,
             ct_Ports = [\<lparr>cp_Name = ''agent'', cp_ContainerPort = port, cp_Protocol = ''TCP''\<rparr>],
             ct_Resources = spec_Resources (ad_Spec ad), ct_Env = spec_Env (ad_Spec ad), ct_Args = spec_Args (ad_Spec ad)\<rparr>]\<rparr>)"

definition desiredService :: "AgentDeployment \<Rightarrow> Service" where
  "desiredService ad =
    (let port = (if spec_Port (ad_Spec ad) = 0 then 8080 else spec_Port (ad_Spec ad)); labels = agentLabels ad
     in \<lparr>svc_Meta = zero_ObjectMeta\<lparr>om_Name := ad_Name ad, om_Namespace := ad_Namespace ad, om_Labels := labels\<rparr>,
         svc_Selector = labels,
         svc_Ports = [\<lparr>svp_Name = ''agent'', svp_Port = port, svp_TargetPort = port, svp_Protocol = ''TCP''\<rparr>],
         svc_Type = ''ClusterIP''\<rparr>)"

definition desiredServiceMonitor :: "AgentDeployment \<Rightarrow> ServiceMonitor" where
  "desiredServiceMonitor ad =
    (let labels = agentLabels ad
     in \<lparr>sm_Meta = zero_ObjectMeta\<lparr>om_Name := ad_Name ad, om_Namespace := ad_Namespace ad, om_Labels := labels\<rparr>,
         sm_Selector = labels,
         sm_TargetLabels = [''app.kubernetes.io/name'', ''app.kubernetes.io/managed-by'', ''agentrax.io/variant''],
         sm_Endpoints = [(''agent'', ''/metrics'')]\<rparr>)"

section \<open>Child resources\<close>

definition mutateDeployment :: "'s kube \<Rightarrow> AgentDeployment \<Rightarrow> Deployment \<Rightarrow> Deployment \<Rightarrow> goerr + Deployment" where
  "mutateDeployment K ad desired existing =
    withOwner K ''setting controller reference: '' ad dep_Meta dep_Meta_update
      (existing\<lparr>dep_Meta := (dep_Meta existing)\<lparr>om_Labels := om_Labels (dep_Meta desired)\<rparr>,
         dep_Selector := (if om_ResourceVersion (dep_Meta existing) = [] then dep_Selector desired else dep_Selector existing),
         dep_Replicas := dep_Replicas desired,
         dep_TemplateLabels := dep_TemplateLabels desired,
         dep_Containers := (case dep_Containers existing of
             [] \<Rightarrow> dep_Containers desired
           | c # cs \<Rightarrow> (let d = hd (dep_Containers desired)
               in c\<lparr>ct_Image := ct_Image d, ct_Ports := ct_Ports d, ct_Resources := ct_Resources d, ct_Env := ct_Env d,
                    ct_Args := ct_Args d\<rparr> # cs))\<rparr>)"

definition reconcileDeployment :: "'s AgentDeploymentReconciler \<Rightarrow> AgentDeployment \<Rightarrow> ('s, unit) act" where
  "reconcileDeployment r ad =
    (let K = adr_Client r; desired = desiredDeployment ad
     in andThen (wrapErr ''reconciling deployment: ''
          (r_CreateOrUpdate (k_dep K) (metaKey (dep_Meta desired)) (mutateDeployment K ad desired))) (\<lambda>_. ret ()))"

definition mutateStableService :: "'s kube \<Rightarrow> AgentDeployment \<Rightarrow> Service \<Rightarrow> Service \<Rightarrow> goerr + Service" where
  "mutateStableService K ad desired existing =
    withOwner K ''setting controller reference: '' ad svc_Meta svc_Meta_update
      (existing\<lparr>svc_Meta := (svc_Meta existing)\<lparr>om_Labels := om_Labels (svc_Meta desired)\<rparr>,
         svc_Selector := svc_Selector desired, svc_Ports := svc_Ports desired\<rparr>)"

definition reconcileService :: "'s AgentDeploymentReconciler \<Rightarrow> AgentDeployment \<Rightarrow> ('s, unit) act" where
  "reconcileService r ad =
    (let K = adr_Client r; desired = desiredService ad
     in andThen (r_CreateOrUpdate (k_svc K) (metaKey (svc_Meta desired)) (mutateStableService K ad desired)) (\<lambda>_. ret ()))"

definition mutateServiceMonitor :: "'s kube \<Rightarrow> AgentDeployment \<Rightarrow> ServiceMonitor \<Rightarrow> ServiceMonitor \<Rightarrow> goerr + ServiceMonitor" where
  "mutateServiceMonitor K ad desired existing =
    withOwner K ''setting controller reference: '' ad sm_Meta sm_Meta_update
      (existing\<lparr>sm_Meta := (sm_Meta existing)\<lparr>om_Labels := om_Labels (sm_Meta desired)\<rparr>,
         sm_Selector := sm_Selector desired, sm_TargetLabels := sm_TargetLabels desired, sm_Endpoints := sm_Endpoints desired\<rparr>)"

definition reconcileServiceMonitor :: "'s AgentDeploymentReconciler \<Rightarrow> AgentDeployment \<Rightarrow> ('s, unit) act" where
  "reconcileServiceMonitor r ad =
    (if \<not> adr_hasServiceMonitorCRD r then ret ()
     else (let K = adr_Client r; desired = desiredServiceMonitor ad
       in andThen (r_CreateOrUpdate (k_sm K) (metaKey (sm_Meta desired)) (mutateServiceMonitor K ad desired)) (\<lambda>_. ret ())))"

definition countsAgainst :: "AgentDeployment \<Rightarrow> AgentDeployment \<Rightarrow> bool" where
  "countsAgainst ad other \<longleftrightarrow> spec_TenantRef (ad_Spec other) = spec_TenantRef (ad_Spec ad) \<and>
     \<not> (ad_Name other = ad_Name ad \<and> ad_Namespace other = ad_Namespace ad) \<and>
     om_DeletionTimestamp (ad_Meta other) = None"

definition replicasUsedByOtherAgents :: "'s AgentDeploymentReconciler \<Rightarrow> AgentDeployment \<Rightarrow> ('s, int32) act" where
  "replicasUsedByOtherAgents r ad =
    andThen (wrapErr ''listing AgentDeployments for quota headroom: '' (r_List (k_ad (adr_Client r)) (ad_Namespace ad)))
      (\<lambda>ads. ret (foldl (\<lambda>total other. if countsAgainst ad other then total + sp_Max (spec_Replicas (ad_Spec other)) else total) 0 ads))"

definition reconcileHPA :: "'s AgentDeploymentReconciler \<Rightarrow> AgentDeployment \<Rightarrow> ('s, Result \<times> quotaState) act" where
  "reconcileHPA r ad =
    (let K = adr_Client r; tenant = spec_TenantRef (ad_Spec ad) in
     if status_Phase (ad_Status ad) = PhaseRolloutInProgress then ret (NoRequeue, quotaStateSkipped)
     else catchErr (r_Get (k_tq K) \<lparr>nn_Namespace = ad_Namespace ad, nn_Name = tenant\<rparr>)
       (\<lambda>err. if IsNotFound err then ret (RequeueAfter (10 * Second), quotaStateUnknown)
         else fail (Errorf (''fetching TenantQuota '' @ show_quoted tenant @ '': '') [err]))
       (\<lambda>tq.
         andThen (wrapErr ''computing replica usage for quota headroom: '' (replicasUsedByOtherAgents r ad)) (\<lambda>usedByOthers.
         let headroom = QuotaHeadroom (tq_Spec tq) (ad_Spec ad) usedByOthers in
         case withOwner K ''setting HPA owner reference: '' ad hpa_Meta hpa_Meta_update (BuildHPA ad headroom) of
           Inl err \<Rightarrow> fail err
         | Inr desiredHPA \<Rightarrow>
             andThen (wrapErr ''creating/updating HPA: ''
               (r_CreateOrUpdate (k_hpa K) (metaKey (hpa_Meta desiredHPA)) (mutateHPA K ''setting HPA owner reference: '' ad desiredHPA))) (\<lambda>_.
             ret (NoRequeue, if IsQuotaCapped ad headroom then quotaStateCapped else quotaStateUncapped)))))"

section \<open>Status\<close>

definition pullReason :: "(string \<times> string) option \<Rightarrow> bool" where
  "pullReason cs = (case cs of None \<Rightarrow> False | Some (reason, message) \<Rightarrow> reason = ''ImagePullBackOff'' \<or> reason = ''ErrImagePull'')"

fun firstPullFailure :: "Pod list \<Rightarrow> string option" where
  "firstPullFailure [] = None"
| "firstPullFailure (pod # pods) =
    (case find pullReason (pod_ContainerStatuses pod @ pod_InitContainerStatuses pod) of
       Some (Some (reason, message)) \<Rightarrow> Some (''pod '' @ pod_Name pod @ '': '' @ message)
     | _ \<Rightarrow> firstPullFailure pods)"

definition detectImagePullFailure :: "'s AgentDeploymentReconciler \<Rightarrow> AgentDeployment \<Rightarrow> ('s, string option) act" where
  "detectImagePullFailure r ad =
    andThen (wrapErr ''listing pods for image pull check: '' (k_ListPods (adr_Client r) (ad_Namespace ad) (agentLabels ad)))
      (\<lambda>pods. ret (firstPullFailure pods))"

text \<open>The registration of the agent, with its status as mutated and the time to the next heartbeat.\<close>

definition reconcileMCPRegistration :: "'s AgentDeploymentReconciler \<Rightarrow> 's AgentRegistrar \<Rightarrow> AgentDeployment \<Rightarrow>
    ('s, AgentDeployment \<times> duration) act" where
  "reconcileMCPRegistration r A ad =
    (let K = adr_Client r;
         registered = (\<lambda>b ad. ad\<lparr>ad_Status := (ad_Status ad)\<lparr>status_Registered := b\<rparr>\<rparr>);
         ok = (\<lambda>ad. RemoveCondition K ad ConditionMCPHandshakeFailed);
         failed = (\<lambda>ad reason err. SetCondition K ad ConditionMCPHandshakeFailed ConditionTrue reason (err_text err));
         requeueInterval = (if adr_MCPHealthInterval r \<le> 0 then 60 * Second else adr_MCPHealthInterval r)
     in if \<not> mcp_Expose (spec_MCP (ad_Spec ad)) then
          (if status_Registered (ad_Status ad) then
             catchErr (ar_Deregister A ad) (\<lambda>err. ret (failed ad ''DeregisterFailed'' err, 5 * Second))
               (\<lambda>_. ret (ok (registered False ad), 0))
           else ret (ok ad, 0))
        else if status_Phase (ad_Status ad) \<noteq> PhaseRunning then ret (ad, 0)
        else if status_Registered (ad_Status ad) then
          catchErr (ar_Heartbeat A ad)
            (\<lambda>err. ret (failed (if err_is err ErrHeartbeatDeregistered then registered False ad else ad) ''HeartbeatFailed'' err, requeueInterval))
            (\<lambda>_. ret (ok ad, requeueInterval))
        else
          catchErr (ar_Register A ad)
            (\<lambda>err. ret (failed (registered False ad) ''HandshakeFailed'' err, requeueInterval))
            (\<lambda>_. ret (ok (registered True ad), requeueInterval)))"

definition applyQuotaState :: "'s kube \<Rightarrow> quotaState \<Rightarrow> AgentDeployment \<Rightarrow> AgentDeployment" where
  "applyQuotaState K qs latest = (case qs of
     quotaStateCapped \<Rightarrow> SetCondition K latest ConditionQuotaLimited ConditionTrue ''HPAMaxReplicasCapped''
       (''spec.replicas.max ('' @ show_int32 (sp_Max (spec_Replicas (ad_Spec latest))) @ '') exceeds quota headroom; HPA capped'')
   | quotaStateUnknown \<Rightarrow> SetCondition K latest ConditionQuotaLimited ConditionTrue ''TenantQuotaNotFound''
       (''TenantQuota '' @ show_quoted (spec_TenantRef (ad_Spec latest)) @ '' not found in namespace '' @ ad_Namespace latest @ ''; requeuing'')
   | quotaStateUncapped \<Rightarrow> RemoveCondition K latest ConditionQuotaLimited
   | quotaStateSkipped \<Rightarrow> latest)"

definition rolloutComplete :: "Deployment \<Rightarrow> bool" where
  "rolloutComplete dep =
    (let replicas = (case dep_Replicas dep of None \<Rightarrow> 1 | Some n \<Rightarrow> n)
     in om_Generation (dep_Meta dep) \<le> dst_ObservedGeneration (dep_Status dep) \<and>
        dst_UpdatedReplicas (dep_Status dep) = replicas \<and> dst_AvailableReplicas (dep_Status dep) = replicas)"

definition markComplete :: "'s kube \<Rightarrow> Deployment \<Rightarrow> AgentDeployment \<Rightarrow> AgentDeployment" where
  "markComplete K dep latest =
    (let l1 = (if status_Phase (ad_Status latest) = PhaseRolloutFailed \<and>
             spec_Image (ad_Spec latest) \<noteq> status_StableVersion (ad_Status latest) then latest
           else latest\<lparr>ad_Status := (ad_Status latest)\<lparr>status_Phase := PhaseRunning, status_CanaryVersion := [],
             status_Conditions := k_RemoveStatusCondition K (status_Conditions (ad_Status latest)) ''RolloutFailed''\<rparr>\<rparr>);
         l2 = (case dep_Containers dep of [] \<Rightarrow> l1
           | c # cs \<Rightarrow> l1\<lparr>ad_Status := (ad_Status l1)\<lparr>status_StableVersion := ct_Image c\<rparr>\<rparr>);
         l3 = SetCondition K l2 ConditionReady ConditionTrue ''DeploymentReady'' ''Deployment is ready''
     in SetCondition K l3 ConditionReconciled ConditionTrue ''ReconcileSuccess'' ''Latest generation reconciled'')"

definition markPending :: "'s kube \<Rightarrow> AgentDeployment \<Rightarrow> AgentDeployment" where
  "markPending K latest =
    (let l1 = latest\<lparr>ad_Status := (ad_Status latest)\<lparr>status_Phase := PhasePending\<rparr>\<rparr>;
         l2 = SetCondition K l1 ConditionReady ConditionFalse ''DeploymentNotReady'' ''Waiting for pods to become ready''
     in SetCondition K l2 ConditionReconciled ConditionTrue ''ReconcileSuccess'' ''Latest generation reconciled'')"

text \<open>The status derived from the live Deployment and from the pods' image pulls.\<close>

definition derivedStatus :: "'s kube \<Rightarrow> quotaState \<Rightarrow> Deployment \<Rightarrow> string option \<Rightarrow> AgentDeployment \<Rightarrow> AgentDeployment" where
  "derivedStatus K qs dep pull latest =
    (let l1 = applyQuotaState K qs latest;
         l2 = l1\<lparr>ad_Status := (ad_Status l1)\<lparr>status_CurrentReplicas := dst_ReadyReplicas (dep_Status dep)\<rparr>\<rparr>
     in case pull of
          Some failMsg \<Rightarrow> (let l3 = SetCondition K l2 ConditionImagePullFailed ConditionTrue ''ImagePullBackOff'' failMsg
            in l3\<lparr>ad_Status := (ad_Status l3)\<lparr>status_Phase := PhaseDegraded\<rparr>\<rparr>)
        | None \<Rightarrow> (let l3 = RemoveCondition K l2 ConditionImagePullFailed
            in if rolloutComplete dep then markComplete K dep l3 else markPending K l3))"

definition updateStatus :: "'s AgentDeploymentReconciler \<Rightarrow> AgentDeployment \<Rightarrow> quotaState \<Rightarrow> ('s, Result) act" where
  "updateStatus r ad qs =
    (let K = adr_Client r in
     catchErr (r_Get (k_dep K) (ad_Key ad))
       (\<lambda>err. if IsNotFound err then ret (RequeueAfter (5 * Second)) else fail (Errorf ''fetching deployment for status: '' [err]))
       (\<lambda>dep.
     catchErr (r_Get (k_ad K) (ad_Key ad))
       (\<lambda>err. if IsNotFound err then ret NoRequeue else fail (Errorf ''re-fetching agentdeployment for status update: '' [err]))
       (\<lambda>latest.
     andThen (wrapErr ''detecting image pull failure: '' (detectImagePullFailure r ad)) (\<lambda>pull.
     let derived = derivedStatus K qs dep pull latest in
     andThen (case adr_Registrar r of None \<Rightarrow> ret (derived, 0) | Some A \<Rightarrow> reconcileMCPRegistration r A derived) (\<lambda>(final, mcpRequeue).
     andThen (if k_EqualADStatus K (ad_Status latest) (ad_Status final) then ret final
         else wrapErr ''updating status: '' (r_StatusUpdate (k_ad K) final)) (\<lambda>written.
     if status_Phase (ad_Status written) = PhasePending then ret (RequeueAfter (5 * Second))
     else if 0 < mcpRequeue then ret (RequeueAfter mcpRequeue)
     else ret NoRequeue))))))"

section \<open>Canary helpers\<close>

definition isCanaryTriggered :: "AgentDeployment \<Rightarrow> bool" where
  "isCanaryTriggered ad =
    (if ro_Strategy (spec_Rollout (ad_Spec ad)) \<noteq> ''Canary'' then False
     else if status_StableVersion (ad_Status ad) = [] then False
     else if spec_Image (ad_Spec ad) = status_StableVersion (ad_Status ad) then False
     else if status_Phase (ad_Status ad) = PhaseRolloutInProgress then False
     else if status_Phase (ad_Status ad) = PhaseRolloutFailed \<and> spec_Image (ad_Spec ad) = status_CanaryVersion (ad_Status ad) then False
     else True)"

definition isAbortRequested :: "AgentDeployment \<Rightarrow> bool" where
  "isAbortRequested ad \<longleftrightarrow> ro_Abort (spec_Rollout (ad_Spec ad)) \<and> status_Phase (ad_Status ad) = PhaseRolloutInProgress"

definition canaryStarted :: "AgentDeployment \<Rightarrow> AgentDeployment \<Rightarrow> AgentDeployment" where
  "canaryStarted ad latest =
    latest\<lparr>ad_Status := (ad_Status latest)
      \<lparr>status_Phase := PhaseRolloutInProgress, status_CanaryVersion := spec_Image (ad_Spec ad),
       status_CanaryStepIndex := 0, status_CanaryWeight := 0, status_PauseStartedAt := None, status_PromUnreachableSince := None\<rparr>\<rparr>"

definition startCanary :: "'s AgentDeploymentReconciler \<Rightarrow> 's Controller \<Rightarrow> AgentDeployment \<Rightarrow> ('s, unit) act" where
  "startCanary r c ad =
    (let K = adr_Client r in
     andThen (wrapErr ''pausing HPA before canary: '' (PauseHPA c ad)) (\<lambda>_.
     andThen (wrapErr ''re-fetching AD to start canary: '' (r_Get (k_ad K) (ad_Key ad))) (\<lambda>latest.
     andThen (wrapErr ''updating status to RolloutInProgress: '' (r_StatusUpdate (k_ad K) (canaryStarted ad latest))) (\<lambda>_.
     ret ()))))"

section \<open>Reconcile\<close>

definition runDeletionCleanup :: "'s AgentDeploymentReconciler \<Rightarrow> AgentDeployment \<Rightarrow> ('s, unit) act" where
  "runDeletionCleanup r ad = (case adr_Registrar r of
     None \<Rightarrow> ret ()
   | Some A \<Rightarrow> wrapErr ''deregistering agent: '' (ar_Deregister A ad))"

definition finalizeDeletion :: "'s AgentDeploymentReconciler \<Rightarrow> AgentDeployment \<Rightarrow> ('s, Result) act" where
  "finalizeDeletion r ad =
    (let K = adr_Client r in
     if k_ContainsFinalizer K (ad_Meta ad) AgentDeploymentFinalizer then
       andThen (wrapErr ''running deletion cleanup: '' (runDeletionCleanup r ad)) (\<lambda>_.
       andThen (wrapErr ''removing finalizer: ''
         (r_Update (k_ad K) (ad\<lparr>ad_Meta := k_RemoveFinalizer K (ad_Meta ad) AgentDeploymentFinalizer\<rparr>))) (\<lambda>_.
       ret NoRequeue))
     else ret NoRequeue)"

definition ensureFinalizer :: "'s AgentDeploymentReconciler \<Rightarrow> NamespacedName \<Rightarrow> AgentDeployment \<Rightarrow> ('s, AgentDeployment) act" where
  "ensureFinalizer r k ad =
    (let K = adr_Client r in
     if k_ContainsFinalizer K (ad_Meta ad) AgentDeploymentFinalizer then ret ad
     else andThen (wrapErr ''adding finalizer: ''
         (r_Update (k_ad K) (ad\<lparr>ad_Meta := k_AddFinalizer K (ad_Meta ad) AgentDeploymentFinalizer\<rparr>))) (\<lambda>_.
       wrapErr ''re-fetching after finalizer add: '' (r_Get (k_ad K) k)))"

definition reconcileChildren :: "'s AgentDeploymentReconciler \<Rightarrow> AgentDeployment \<Rightarrow> ('s, Result \<times> quotaState) act" where
  "reconcileChildren r ad =
    andThen (wrapErr ''reconciling deployment: '' (reconcileDeployment r ad)) (\<lambda>_.
    andThen (wrapErr ''reconciling service: '' (reconcileService r ad)) (\<lambda>_.
    andThen (wrapErr ''reconciling servicemonitor: '' (reconcileServiceMonitor r ad)) (\<lambda>_.
    wrapErr ''reconciling hpa: '' (reconcileHPA r ad))))"

definition shorterRequeue :: "Result \<Rightarrow> Result \<Rightarrow> Result" where
  "shorterRequeue hpaResult statusResult =
    (if 0 < res_RequeueAfter hpaResult \<and>
        (res_RequeueAfter statusResult = 0 \<or> res_RequeueAfter hpaResult < res_RequeueAfter statusResult) then hpaResult
     else if 0 < res_RequeueAfter statusResult then statusResult
     else NoRequeue)"

definition reconcileStable :: "'s AgentDeploymentReconciler \<Rightarrow> AgentDeployment \<Rightarrow> ('s, Result) act" where
  "reconcileStable r ad =
    andThen (reconcileChildren r ad) (\<lambda>(hpaResult, qs).
    andThen (wrapErr ''updating status: '' (updateStatus r ad qs)) (\<lambda>statusResult.
    ret (shorterRequeue hpaResult statusResult)))"

definition Reconcile :: "'s AgentDeploymentReconciler \<Rightarrow> NamespacedName \<Rightarrow> ('s, Result) act" where
  "Reconcile r k =
    catchErr (r_Get (k_ad (adr_Client r)) k)
      (\<lambda>err. if IsNotFound err then ret NoRequeue else fail (Errorf ''fetching AgentDeployment: '' [err]))
      (\<lambda>ad0.
        if om_DeletionTimestamp (ad_Meta ad0) \<noteq> None then finalizeDeletion r ad0
        else andThen (ensureFinalizer r k ad0) (\<lambda>ad.
          case adr_CanaryController r of
            None \<Rightarrow> reconcileStable r ad
          | Some c \<Rightarrow>
              if isAbortRequested ad then
                andThen (wrapErr ''aborting canary: '' (Rollback c ad ''ManualAbort'' ''spec.rollout.abort was set to true'')) (\<lambda>_. ret NoRequeue)
              else if status_Phase (ad_Status ad) = PhaseRolloutInProgress then wrapErr ''stepping canary: '' (Step c ad)
              else if isCanaryTriggered ad then
                andThen (wrapErr ''starting canary: '' (startCanary r c ad)) (\<lambda>_. ret (RequeueAfter (5 * Second)))
              else reconcileStable r ad))"

section \<open>What the children become\<close>

text \<open>The image of the stable Deployment, and the desired state as predicates on the stored objects.\<close>

definition stableImage :: "AgentDeployment \<Rightarrow> string" where
  "stableImage ad = (if status_Phase (ad_Status ad) = PhaseRolloutInProgress \<and> status_StableVersion (ad_Status ad) \<noteq> []
     then status_StableVersion (ad_Status ad) else spec_Image (ad_Spec ad))"

definition servesPort :: "AgentDeployment \<Rightarrow> int32" where
  "servesPort ad = (if spec_Port (ad_Spec ad) = 0 then 8080 else spec_Port (ad_Spec ad))"

definition stableDeployment :: "AgentDeployment \<Rightarrow> Deployment \<Rightarrow> bool" where
  "stableDeployment ad d \<longleftrightarrow> dep_Replicas d = Some (sp_Min (spec_Replicas (ad_Spec ad))) \<and> dep_TemplateLabels d = agentLabels ad \<and>
     (\<exists>ct cts. dep_Containers d = ct # cts \<and> ct_Image ct = stableImage ad)"

definition stableService :: "AgentDeployment \<Rightarrow> Service \<Rightarrow> bool" where
  "stableService ad v \<longleftrightarrow> svc_Selector v = agentLabels ad \<and>
     svc_Ports v = [\<lparr>svp_Name = ''agent'', svp_Port = servesPort ad, svp_TargetPort = servesPort ad, svp_Protocol = ''TCP''\<rparr>]"

text \<open>The agents that compete with \<open>ad\<close> for the budget of its tenant, and the ceiling that leaves it.\<close>

definition competitors :: "cluster \<Rightarrow> AgentDeployment \<Rightarrow> AgentDeployment set" where
  "competitors v ad = {other. ad_Namespace other = ad_Namespace ad \<and> cl_ad v (ad_Key other) = Some other \<and> countsAgainst ad other}"

definition usedByCompetitors :: "cluster \<Rightarrow> AgentDeployment \<Rightarrow> int32" where
  "usedByCompetitors v ad = (\<Sum>other \<in> competitors v ad. sp_Max (spec_Replicas (ad_Spec other)))"

definition agentHeadroom :: "cluster \<Rightarrow> AgentDeployment \<Rightarrow> TenantQuota \<Rightarrow> int32" where
  "agentHeadroom v ad tq = QuotaHeadroom (tq_Spec tq) (ad_Spec ad) (usedByCompetitors v ad)"

text \<open>The outcome of \<open>reconcileHPA\<close>: the result, the quota state, and the HPA it leaves.\<close>

definition hpaReconciled :: "cluster \<Rightarrow> AgentDeployment \<Rightarrow> Result \<Rightarrow> quotaState \<Rightarrow> HorizontalPodAutoscaler option \<Rightarrow> bool" where
  "hpaReconciled v ad res qs x \<longleftrightarrow>
    (if status_Phase (ad_Status ad) = PhaseRolloutInProgress then res = NoRequeue \<and> qs = quotaStateSkipped \<and> x = cl_hpa v (ad_Key ad)
     else case cl_tq v \<lparr>nn_Namespace = ad_Namespace ad, nn_Name = spec_TenantRef (ad_Spec ad)\<rparr> of
       None \<Rightarrow> res = RequeueAfter (10 * Second) \<and> qs = quotaStateUnknown \<and> x = cl_hpa v (ad_Key ad)
     | Some tq \<Rightarrow> res = NoRequeue \<and> map_option hpa_spec x = Some (hpa_spec (BuildHPA ad (agentHeadroom v ad tq))) \<and>
         qs = (if IsQuotaCapped ad (agentHeadroom v ad tq) then quotaStateCapped else quotaStateUncapped))"

lemma foldl_if_sum:
  "foldl (\<lambda>t x. if P x then t + f x else t) (a :: 'b :: comm_monoid_add) xs = a + sum_list (map f (filter P xs))"
  by (induction xs arbitrary: a) (auto simp: ac_simps)

lemma mutateDeployment_stable:
  "mutateDeployment K ad (desiredDeployment ad) d0 = Inr d \<Longrightarrow> dep_spec d' = dep_spec d \<Longrightarrow> stableDeployment ad d'"
  by (auto simp: mutateDeployment_def desiredDeployment_def stableDeployment_def stableImage_def dep_spec_def Let_def Cons_eq_map_conv
      elim!: withOwner_Inr split: list.splits if_splits)

lemma mutateStableService_stable:
  "mutateStableService K ad (desiredService ad) v0 = Inr v \<Longrightarrow> svc_spec v' = svc_spec v \<Longrightarrow> stableService ad v'"
  by (auto simp: mutateStableService_def desiredService_def stableService_def servesPort_def svc_spec_def Let_def elim!: withOwner_Inr)

lemma desired_keys [simp]:
  "metaKey (dep_Meta (desiredDeployment ad)) = ad_Key ad" "metaKey (svc_Meta (desiredService ad)) = ad_Key ad"
  "metaKey (sm_Meta (desiredServiceMonitor ad)) = ad_Key ad"
  by (simp_all add: desiredDeployment_def desiredService_def desiredServiceMonitor_def Let_def metaKey_def)

context kube_laws
begin

lemma wp_reconcileDeployment:
  assumes "adr_Client r = K"
    and "\<And>d s'. view s' = cl_dep_update (\<lambda>m. m(ad_Key ad \<mapsto> d)) (view s) \<Longrightarrow> stableDeployment ad d \<Longrightarrow> Q () s'"
    and "\<And>e s'. view s' = view s \<Longrightarrow> E e s'"
  shows "wp (reconcileDeployment r ad) E Q s"
  unfolding reconcileDeployment_def Let_def assms(1) wp_simps desired_keys
  by (rule deps.wp_apply, erule assms(2)) (auto intro: mutateDeployment_stable assms(3))

lemma wp_reconcileService:
  assumes "adr_Client r = K"
    and "\<And>v s'. view s' = cl_svc_update (\<lambda>m. m(ad_Key ad \<mapsto> v)) (view s) \<Longrightarrow> stableService ad v \<Longrightarrow> Q () s'"
    and "\<And>e s'. view s' = view s \<Longrightarrow> E e s'"
  shows "wp (reconcileService r ad) E Q s"
  unfolding reconcileService_def Let_def assms(1) wp_simps desired_keys
  by (rule svcs.wp_apply, erule assms(2)) (auto intro: mutateStableService_stable assms(3))

lemma wp_reconcileServiceMonitor:
  assumes "adr_Client r = K"
    and "\<And>x s'. view s' = cl_sm_update (\<lambda>m. m(ad_Key ad := x)) (view s) \<Longrightarrow>
      (adr_hasServiceMonitorCRD r \<Longrightarrow> map_option sm_Selector x = Some (agentLabels ad)) \<Longrightarrow> Q () s'"
    and "\<And>e s'. view s' = view s \<Longrightarrow> E e s'"
  shows "wp (reconcileServiceMonitor r ad) E Q s"
proof (cases "adr_hasServiceMonitorCRD r")
  case True
  have sel: "sm_Selector obj' = agentLabels ad"
    if "mutateServiceMonitor K ad (desiredServiceMonitor ad) m0 = Inr obj" "sm_spec obj' = sm_spec obj" for m0 obj obj'
    using that by (auto simp: mutateServiceMonitor_def desiredServiceMonitor_def sm_spec_def Let_def elim!: withOwner_Inr)
  show ?thesis
    using True unfolding reconcileServiceMonitor_def Let_def assms(1) wp_simps desired_keys
    by simp (rule sms.wp_apply, erule assms(2), auto dest: sel intro: assms(3))
next
  case False
  then show ?thesis
    using assms(2) [of s "cl_sm (view s) (ad_Key ad)"] by (simp add: reconcileServiceMonitor_def wp_simps)
qed

end

context kube_laws
begin

lemma wp_replicasUsedByOtherAgents:
  assumes "adr_Client r = K"
    and "\<And>s'. view s' = view s \<Longrightarrow> Q (usedByCompetitors (view s) ad) s'"
    and "\<And>e s'. view s' = view s \<Longrightarrow> E e s'"
  shows "wp (replicasUsedByOtherAgents r ad) E Q s"
  unfolding replicasUsedByOtherAgents_def assms(1) wp_simps
proof (rule ads.wp_list, goal_cases)
  case (1 ads s')
  have "competitors (view s) ad = set (filter (countsAgainst ad) ads)" "distinct (filter (countsAgainst ad) ads)"
    using 1(2,3) by (auto simp: competitors_def metaKey_eq_ad_Key distinct_map)
  then have "foldl (\<lambda>total other. if countsAgainst ad other then total + sp_Max (spec_Replicas (ad_Spec other)) else total) 0 ads =
      usedByCompetitors (view s) ad"
    unfolding usedByCompetitors_def by (simp only: foldl_if_sum sum.distinct_set_conv_list add_0)
  with 1 assms(2) show ?case by (simp add: wp_simps)
qed (use assms(3) in simp)

lemma withOwner_HPA:
  assumes "withOwner K msg ad hpa_Meta hpa_Meta_update h = Inr h'"
  shows "metaKey (hpa_Meta h') = metaKey (hpa_Meta h) \<and> hpa_spec h' = hpa_spec h"
  using assms by (elim withOwner_Inr) (auto dest!: set_owner simp: metaKey_def hpa_spec_def)

lemma wp_reconcileHPA:
  assumes r: "adr_Client r = K"
    and Q: "\<And>x res qs s'. view s' = cl_hpa_update (\<lambda>m. m(ad_Key ad := x)) (view s) \<Longrightarrow> hpaReconciled (view s) ad res qs x \<Longrightarrow> Q (res, qs) s'"
    and E: "\<And>e s'. view s' = view s \<Longrightarrow> E e s'"
  shows "wp (reconcileHPA r ad) E Q s"
proof -
  let ?k = "\<lparr>nn_Namespace = ad_Namespace ad, nn_Name = spec_TenantRef (ad_Spec ad)\<rparr>"
  have same: "Q (res, qs) s'" if "view s' = view s" "hpaReconciled (view s) ad res qs (cl_hpa (view s) (ad_Key ad))" for s' res qs
    using that by (intro Q [of s' "cl_hpa (view s) (ad_Key ad)"]) simp_all
  have stores: "wp (r_CreateOrUpdate (k_hpa K) (metaKey (hpa_Meta h)) (mutateHPA K m2 ad h)) (\<lambda>e. E (Errorf msg [e]))
      (\<lambda>_. Q (NoRequeue, qs)) s'"
    if "status_Phase (ad_Status ad) \<noteq> PhaseRolloutInProgress" "view s' = view s" "cl_tq (view s) ?k = Some tq"
      "withOwner K m1 ad hpa_Meta hpa_Meta_update (BuildHPA ad (agentHeadroom (view s) ad tq)) = Inr h"
      "qs = (if IsQuotaCapped ad (agentHeadroom (view s) ad tq) then quotaStateCapped else quotaStateUncapped)" for tq h qs m1 m2 msg s'
    using that withOwner_HPA [OF that(4)]
    by (intro hpas.wp_apply) (auto dest!: mutateHPA_spec simp: hpaReconciled_def intro: E intro!: Q [of _ "Some _"])
  show ?thesis
    unfolding reconcileHPA_def Let_def r wp_simps
    by (auto intro!: tqs.wp_get wp_replicasUsedByOtherAgents [OF r] same
        simp: wp_simps hpaReconciled_def Let_def intro: E stores split: sum.split simp flip: agentHeadroom_def)
qed

end

section \<open>The budget of a tenant\<close>

text \<open>The agents of a tenant that are not being deleted.\<close>

definition liveAgents :: "cluster \<Rightarrow> string \<Rightarrow> string \<Rightarrow> AgentDeployment set" where
  "liveAgents v ns tenant = {ad. ad_Namespace ad = ns \<and> cl_ad v (ad_Key ad) = Some ad \<and> spec_TenantRef (ad_Spec ad) = tenant \<and>
     om_DeletionTimestamp (ad_Meta ad) = None}"

abbreviation minOf :: "AgentDeployment \<Rightarrow> int" where
  "minOf ad \<equiv> sint (sp_Min (spec_Replicas (ad_Spec ad)))"

abbreviation maxOf :: "AgentDeployment \<Rightarrow> int" where
  "maxOf ad \<equiv> sint (sp_Max (spec_Replicas (ad_Spec ad)))"

definition hpaCeiling :: "cluster \<Rightarrow> TenantQuota \<Rightarrow> AgentDeployment \<Rightarrow> int" where
  "hpaCeiling v tq ad = sint (hpa_MaxReplicas (BuildHPA ad (agentHeadroom v ad tq)))"

lemma competitors_live: "ad \<in> liveAgents v ns tenant \<Longrightarrow> competitors v ad = liveAgents v ns tenant - {ad}"
  by (auto simp: liveAgents_def competitors_def countsAgainst_def)

lemma sint32_sum:
  assumes "finite A" and "\<And>x. x \<in> A \<Longrightarrow> 0 \<le> sint (f x)" and "(\<Sum>x \<in> A. sint (f x)) \<le> 2147483647"
  shows "sint (\<Sum>x \<in> A. f x :: int32) = (\<Sum>x \<in> A. sint (f x))"
proof -
  obtain xs where xs: "A = set xs" "distinct xs"
    using assms(1) finite_distinct_list by blast
  with assms sint32_sum_list [of "map f xs"] show ?thesis
    by (simp add: sum.distinct_set_conv_list comp_def)
qed

text \<open>Each agent gets what the others leave of the budget \<open>T\<close>, but at least its minimum.\<close>

lemma budget_shares:
  fixes m M c :: "'a \<Rightarrow> int"
  assumes "finite A" and "\<And>a. a \<in> A \<Longrightarrow> 0 \<le> m a \<and> m a \<le> M a"
    and "\<And>a. a \<in> A \<Longrightarrow> c a \<le> max (m a) (min (M a) (max 0 (T - (sum M A - M a))))"
  shows "sum c A \<le> max T (sum m A)"
proof (cases "\<exists>b \<in> A. m b < M b - (sum M A - T) \<and> T < sum M A")
  case True
  then obtain b where b: "b \<in> A" "m b < M b - (sum M A - T)" "T < sum M A" by blast
  have "sum c (A - {b}) \<le> sum M (A - {b})"
    using assms(2,3) by (intro sum_mono) fastforce
  moreover have "c b \<le> M b - (sum M A - T)"
    using assms(2,3) [OF b(1)] b by linarith
  ultimately show ?thesis
    using assms(1) b(1) by (simp add: sum.remove [of A b])
next
  case False
  show ?thesis
  proof (cases "T < sum M A")
    case True
    have "c a \<le> m a" if "a \<in> A" for a
    proof -
      from False True that have "M a - (sum M A - T) \<le> m a" by (auto simp: not_less)
      with assms(2,3) [OF that] show ?thesis by linarith
    qed
    then show ?thesis by (simp add: sum_mono max.coboundedI2)
  next
    case no: False
    have "sum c A \<le> sum M A"
      using assms(2,3) by (intro sum_mono) fastforce
    with no show ?thesis by simp
  qed
qed

lemma hpaCeiling_eq:
  assumes "ad \<in> liveAgents v ns tenant" and "finite (liveAgents v ns tenant)" and "0 \<le> sint (tq_MaxTotalReplicas (tq_Spec tq))"
    and "\<And>a. a \<in> liveAgents v ns tenant \<Longrightarrow> 0 \<le> maxOf a" and "(\<Sum>a \<in> liveAgents v ns tenant. maxOf a) \<le> 2147483647"
  shows "hpaCeiling v tq ad = max (minOf ad) (min (maxOf ad) (min (sint (tq_MaxReplicasPerAgent (tq_Spec tq)))
    (max 0 (sint (tq_MaxTotalReplicas (tq_Spec tq)) - ((\<Sum>a \<in> liveAgents v ns tenant. maxOf a) - maxOf ad)))))"
proof -
  let ?A = "liveAgents v ns tenant"
  have rest: "(\<Sum>a \<in> ?A - {ad}. maxOf a) = (\<Sum>a \<in> ?A. maxOf a) - maxOf ad"
    using assms(1,2) by (simp add: sum_diff1)
  have used: "sint (usedByCompetitors v ad) = (\<Sum>a \<in> ?A. maxOf a) - maxOf ad"
    unfolding usedByCompetitors_def competitors_live [OF assms(1)] rest [symmetric]
    by (rule sint32_sum) (use assms(2-) assms(4) [OF assms(1)] rest in auto)
  then have "0 \<le> sint (usedByCompetitors v ad)"
    unfolding rest [symmetric] using assms(4) by (auto intro!: sum_nonneg)
  then show ?thesis
    using assms(3) by (simp add: hpaCeiling_def sint_BuildHPA_Max agentHeadroom_def sint_QuotaHeadroom used)
qed


text \<open>Two agents of five replicas each, in a tenant with a budget of eight.\<close>

definition sample_rival :: "string \<Rightarrow> AgentDeployment" where
  "sample_rival name = \<lparr>ad_Meta = zero_ObjectMeta\<lparr>om_Name := name, om_Namespace := ''ns''\<rparr>,
     ad_Spec = sample_spec ''t'' ''0'' 5, ad_Status = zero_AgentDeploymentStatus\<rparr>"

definition sample_rivals :: cluster where
  "sample_rivals = mem_view (empty_mem\<lparr>m_ad := [sample_rival ''a'', sample_rival ''b'']\<rparr>)"

definition sample_budget :: TenantQuota where
  "sample_budget = (zero_TenantQuota \<lparr>nn_Namespace = ''ns'', nn_Name = ''t''\<rparr>)\<lparr>tq_Spec := sample_quota 9 9 8\<rparr>"

lemma sample_rivals_live: "liveAgents sample_rivals ''ns'' ''t'' = {sample_rival ''a'', sample_rival ''b''}"
  by (auto simp: liveAgents_def sample_rivals_def mem_view_def sample_rival_def empty_mem_def metaKey_def sample_spec_def zero_ObjectMeta_def
      split: if_splits)


section \<open>Registration\<close>

context agent_registrar
begin

lemma wp_Register:
  assumes "\<And>m s'. view s' = (view s)\<lparr>cl_cm := m\<rparr> \<Longrightarrow> listed s' (ad_Namespace ad) (ad_Name ad) \<Longrightarrow> Q () s'"
    and "\<And>e m s'. view s' = (view s)\<lparr>cl_cm := m\<rparr> \<Longrightarrow> E e s'"
  shows "wp (ar_Register A ad) E Q s"
proof (rule wpI, goal_cases)
  case (1 e s')
  from register_view [OF this] show ?case by (auto intro: assms(2))
next
  case (2 u s')
  from register_view [OF this] register_lists [OF this] show ?case by (auto intro: assms(1))
qed

lemma wp_Deregister:
  assumes "\<And>m s'. view s' = (view s)\<lparr>cl_cm := m\<rparr> \<Longrightarrow> \<not> listed s' (ad_Namespace ad) (ad_Name ad) \<Longrightarrow> Q () s'"
    and "\<And>e m s'. view s' = (view s)\<lparr>cl_cm := m\<rparr> \<Longrightarrow> E e s'"
  shows "wp (ar_Deregister A ad) E Q s"
proof (rule wpI, goal_cases)
  case (1 e s')
  from deregister_view [OF this] show ?case by (auto intro: assms(2))
next
  case (2 u s')
  from deregister_view [OF this] deregister_unlists [OF this] show ?case by (auto intro: assms(1))
qed

lemma wp_Heartbeat:
  assumes "\<And>m s'. view s' = (view s)\<lparr>cl_cm := m\<rparr> \<Longrightarrow> listed s' (ad_Namespace ad) (ad_Name ad) \<Longrightarrow> Q () s'"
    and "\<And>e m s'. view s' = (view s)\<lparr>cl_cm := m\<rparr> \<Longrightarrow>
      (err_is e ErrHeartbeatDeregistered \<longrightarrow> \<not> listed s' (ad_Namespace ad) (ad_Name ad)) \<Longrightarrow> E e s'"
  shows "wp (ar_Heartbeat A ad) E Q s"
proof (rule wpI, goal_cases)
  case (1 e s')
  from heartbeat_view [OF this] strike_unlists [OF this] show ?case by (auto intro: assms(2))
next
  case (2 u s')
  from heartbeat_view [OF this] heartbeat_lists [OF this] show ?case by (auto intro: assms(1))
qed

end

text \<open>What \<open>reconcileMCPRegistration\<close> makes of the status: \<open>b\<close> is the new \<open>status.registered\<close>, \<open>warned\<close> whether the
  failure condition is set, \<open>present\<close> whether the registry lists the agent afterwards.\<close>

definition registrationRecorded :: "duration \<Rightarrow> AgentDeployment \<Rightarrow> bool \<Rightarrow> bool \<Rightarrow> bool \<Rightarrow> duration \<Rightarrow> bool" where
  "registrationRecorded interval ad b warned present requeue \<longleftrightarrow>
    (if \<not> mcp_Expose (spec_MCP (ad_Spec ad)) then
       (if b then status_Registered (ad_Status ad) \<and> warned \<and> requeue = 5 * Second
        else \<not> warned \<and> requeue = 0 \<and> (status_Registered (ad_Status ad) \<longrightarrow> \<not> present))
     else if status_Phase (ad_Status ad) \<noteq> PhaseRunning then requeue = 0 \<and> b = status_Registered (ad_Status ad)
     else requeue = (if interval \<le> 0 then 60 * Second else interval) \<and>
       (if warned then b \<longrightarrow> status_Registered (ad_Status ad) else b \<and> present))"

lemma condition_simps [simp]:
  "ad_Meta (SetCondition K ad t st reason msg) = ad_Meta ad" "ad_Spec (SetCondition K ad t st reason msg) = ad_Spec ad"
  "ad_Meta (RemoveCondition K ad t) = ad_Meta ad" "ad_Spec (RemoveCondition K ad t) = ad_Spec ad"
  "status_Phase (ad_Status (SetCondition K ad t st reason msg)) = status_Phase (ad_Status ad)"
  "status_Phase (ad_Status (RemoveCondition K ad t)) = status_Phase (ad_Status ad)"
  "status_Registered (ad_Status (SetCondition K ad t st reason msg)) = status_Registered (ad_Status ad)"
  "status_Registered (ad_Status (RemoveCondition K ad t)) = status_Registered (ad_Status ad)"
  "status_StableVersion (ad_Status (SetCondition K ad t st reason msg)) = status_StableVersion (ad_Status ad)"
  "status_StableVersion (ad_Status (RemoveCondition K ad t)) = status_StableVersion (ad_Status ad)"
  by (simp_all add: SetCondition_def RemoveCondition_def)

text \<open>\<open>hasCondition ad t\<close>: the status carries a condition of type \<open>t\<close>. \<open>sameButRegistration\<close>: two versions of an
  object that differ in \<open>status.registered\<close> and the conditions only.\<close>

definition hasCondition :: "AgentDeployment \<Rightarrow> string \<Rightarrow> bool" where
  "hasCondition ad t \<longleftrightarrow> findCondition (status_Conditions (ad_Status ad)) t \<noteq> None"

definition sameButRegistration :: "AgentDeployment \<Rightarrow> AgentDeployment \<Rightarrow> bool" where
  "sameButRegistration ad ad' \<longleftrightarrow> (\<exists>b cs. ad' = ad\<lparr>ad_Status := (ad_Status ad)\<lparr>status_Registered := b, status_Conditions := cs\<rparr>\<rparr>)"

lemma sameButRegistration_simps:
  "sameButRegistration ad ad"
  "sameButRegistration ad (SetCondition K ad t st reason msg)" "sameButRegistration ad (RemoveCondition K ad t)"
  "sameButRegistration ad (SetCondition K (ad\<lparr>ad_Status := (ad_Status ad)\<lparr>status_Registered := b\<rparr>\<rparr>) t st reason msg)"
  "sameButRegistration ad (RemoveCondition K (ad\<lparr>ad_Status := (ad_Status ad)\<lparr>status_Registered := b\<rparr>\<rparr>) t)"
  unfolding sameButRegistration_def SetCondition_def RemoveCondition_def
  by (cases ad; cases "ad_Status ad"; auto)+

context kube_laws
begin

lemma hasCondition_simps [simp]:
  "hasCondition (SetCondition K ad t st reason msg) t' \<longleftrightarrow> t' = t \<or> hasCondition ad t'"
  "hasCondition (RemoveCondition K ad t) t' \<longleftrightarrow> t' \<noteq> t \<and> hasCondition ad t'"
  by (simp_all add: hasCondition_def SetCondition_def RemoveCondition_def set_condition remove_condition)

lemma wp_reconcileMCPRegistration:
  assumes r: "adr_Client r = K" and A: "agent_registrar A isIn view"
    and Q: "\<And>ad' d m s'. view s' = (view s)\<lparr>cl_cm := m\<rparr> \<Longrightarrow> sameButRegistration ad ad' \<Longrightarrow>
      registrationRecorded (adr_MCPHealthInterval r) ad (status_Registered (ad_Status ad'))
        (hasCondition ad' ConditionMCPHandshakeFailed) (isIn s' (ad_Namespace ad) (ad_Name ad)) d \<Longrightarrow> Q (ad', d) s'"
  shows "wp (reconcileMCPRegistration r A ad) E Q s"
proof -
  have here: "view s = (view s)\<lparr>cl_cm := cl_cm (view s)\<rparr>" by simp
  show ?thesis
    unfolding reconcileMCPRegistration_def Let_def r wp_simps
    by (auto simp: wp_simps registrationRecorded_def sameButRegistration_simps intro!: Q [OF here]
        agent_registrar.wp_Register [OF A] agent_registrar.wp_Deregister [OF A] agent_registrar.wp_Heartbeat [OF A] elim!: Q)
qed

end

section \<open>The derived status\<close>

text \<open>The phase that the Deployment and the pods' image pulls give, and the stable version.\<close>

definition derivedPhase :: "Deployment \<Rightarrow> string option \<Rightarrow> AgentDeployment \<Rightarrow> Phase" where
  "derivedPhase dep pull latest =
    (if pull \<noteq> None then PhaseDegraded
     else if \<not> rolloutComplete dep then PhasePending
     else if status_Phase (ad_Status latest) = PhaseRolloutFailed \<and> spec_Image (ad_Spec latest) \<noteq> status_StableVersion (ad_Status latest)
     then PhaseRolloutFailed else PhaseRunning)"

definition derivedStable :: "Deployment \<Rightarrow> string option \<Rightarrow> AgentDeployment \<Rightarrow> string" where
  "derivedStable dep pull latest = (case dep_Containers dep of
     [] \<Rightarrow> status_StableVersion (ad_Status latest)
   | ct # cts \<Rightarrow> if pull = None \<and> rolloutComplete dep then ct_Image ct else status_StableVersion (ad_Status latest))"

lemma applyQuotaState_simps [simp]:
  "ad_Meta (applyQuotaState K qs ad) = ad_Meta ad" "ad_Spec (applyQuotaState K qs ad) = ad_Spec ad"
  "status_Phase (ad_Status (applyQuotaState K qs ad)) = status_Phase (ad_Status ad)"
  "status_StableVersion (ad_Status (applyQuotaState K qs ad)) = status_StableVersion (ad_Status ad)"
  "status_Registered (ad_Status (applyQuotaState K qs ad)) = status_Registered (ad_Status ad)"
  by (simp_all add: applyQuotaState_def split: quotaState.split)

lemma derivedStatus_simps [simp]:
  "ad_Meta (derivedStatus K qs dep pull ad) = ad_Meta ad" "ad_Spec (derivedStatus K qs dep pull ad) = ad_Spec ad"
  "status_Phase (ad_Status (derivedStatus K qs dep pull ad)) = derivedPhase dep pull ad"
  "status_StableVersion (ad_Status (derivedStatus K qs dep pull ad)) = derivedStable dep pull ad"
  "status_Registered (ad_Status (derivedStatus K qs dep pull ad)) = status_Registered (ad_Status ad)"
  by (auto simp: derivedStatus_def markComplete_def markPending_def derivedPhase_def derivedStable_def Let_def split: option.splits list.splits)

text \<open>What an update of the status leaves: the object \<open>ad'\<close>, and when to come back.\<close>

definition statusReconciled :: "'s kube \<Rightarrow> quotaState \<Rightarrow> Deployment \<Rightarrow> AgentDeployment \<Rightarrow> AgentDeployment \<Rightarrow> bool" where
  "statusReconciled K qs dep latest ad' \<longleftrightarrow> ad_Key ad' = ad_Key latest \<and> ad_spec ad' = ad_spec latest \<and>
     (\<exists>pull final. sameButRegistration (derivedStatus K qs dep pull latest) final \<and> ad_stat ad' = ad_stat final)"

definition statusUpdated :: "'s kube \<Rightarrow> quotaState \<Rightarrow> AgentDeployment \<Rightarrow> cluster \<Rightarrow> cluster \<Rightarrow> bool" where
  "statusUpdated K qs ad v v' \<longleftrightarrow> (case (cl_dep v (ad_Key ad), cl_ad v (ad_Key ad)) of
     (Some dep, Some latest) \<Rightarrow> (\<exists>ad' m. v' = cl_ad_update (\<lambda>ads. ads(ad_Key ad \<mapsto> ad')) (v\<lparr>cl_cm := m\<rparr>) \<and> statusReconciled K qs dep latest ad')
   | _ \<Rightarrow> v' = v)"

lemma statusUpdatedI:
  assumes "v' = cl_ad_update (\<lambda>ads. ads(ad_Key latest \<mapsto> ad')) (v\<lparr>cl_cm := m\<rparr>)" and "cl_dep v (ad_Key ad) = Some dep"
    and "cl_ad v (ad_Key ad) = Some latest" and "ad_Key latest = ad_Key ad" and "ad_Key ad' = ad_Key latest" and "ad_spec ad' = ad_spec latest"
    and "sameButRegistration (derivedStatus K qs dep pull latest) final" and "ad_stat ad' = ad_stat final"
  shows "statusUpdated K qs ad v v'"
  using assms unfolding statusUpdated_def statusReconciled_def by (simp, blast)

lemma sameButRegistration_frame:
  "sameButRegistration ad ad' \<Longrightarrow> ad_Meta ad' = ad_Meta ad \<and> ad_Spec ad' = ad_Spec ad \<and>
     status_Phase (ad_Status ad') = status_Phase (ad_Status ad)"
  by (auto simp: sameButRegistration_def)

context kube_laws
begin

lemma wp_ListPods:
  assumes "\<And>pods s'. view s' = view s \<Longrightarrow> Q pods s'" and "\<And>e s'. view s' = view s \<Longrightarrow> E e s'"
  shows "wp (k_ListPods K ns sel) E Q s"
  by (rule wpI) (use assms in \<open>auto dest: pods_view\<close>)

lemma wp_storeStatus:
  assumes "cl_ad (view s) (ad_Key latest) = Some latest" and "ad_Meta final = ad_Meta latest"
    and "\<And>ad' s'. view s' = cl_ad_update (\<lambda>ads. ads(ad_Key latest \<mapsto> ad')) (view s) \<Longrightarrow> ad_Key ad' = ad_Key latest \<Longrightarrow>
      ad_spec ad' = ad_spec latest \<Longrightarrow> ad_stat ad' = ad_stat final \<Longrightarrow> Q s'"
    and "\<And>e s'. view s' = view s \<Longrightarrow> E e s'"
  shows "wp (if k_EqualADStatus K (ad_Status latest) (ad_Status final) then ret final else wrapErr msg (r_StatusUpdate (k_ad K) final)) E (\<lambda>_. Q) s"
proof (cases "ad_Status latest = ad_Status final")
  case True
  then have "Q s"
    using assms(1) by (intro assms(3) [of s latest]) (auto simp: ad_stat_def fun_upd_idem)
  with True show ?thesis by (simp add: equal_ad wp_simps)
next
  case False
  then show ?thesis
    using wp_write [OF assms(1,2), where Q = "\<lambda>_. Q"] assms(3,4) by (simp add: equal_ad wp_simps)
qed

lemma wp_recordStatus:
  assumes r: "adr_Client r = K" and reg: "\<And>A. adr_Registrar r = Some A \<Longrightarrow> agent_registrar A isIn view"
    and l: "cl_ad (view s) (ad_Key latest) = Some latest" "ad_Meta derived = ad_Meta latest"
    and f: "\<And>written d final ad' m s'. view s' = cl_ad_update (\<lambda>ads. ads(ad_Key latest \<mapsto> ad')) ((view s)\<lparr>cl_cm := m\<rparr>) \<Longrightarrow>
      ad_Key ad' = ad_Key latest \<Longrightarrow> ad_spec ad' = ad_spec latest \<Longrightarrow> sameButRegistration derived final \<Longrightarrow>
      ad_stat ad' = ad_stat final \<Longrightarrow> wp (f written d) E Q s'"
    and E: "\<And>e m s'. view s' = (view s)\<lparr>cl_cm := m\<rparr> \<Longrightarrow> E e s'"
  shows "wp (case adr_Registrar r of None \<Rightarrow> ret (derived, 0) | Some A \<Rightarrow> reconcileMCPRegistration r A derived) E (\<lambda>x. wp (case x of (final, d) \<Rightarrow>
      andThen (if k_EqualADStatus K (ad_Status latest) (ad_Status final) then ret final else wrapErr msg (r_StatusUpdate (k_ad K) final))
        (\<lambda>written. f written d)) E Q) s"
proof -
  have store: "wp (andThen (if k_EqualADStatus K (ad_Status latest) (ad_Status final) then ret final
      else wrapErr msg (r_StatusUpdate (k_ad K) final)) (\<lambda>written. f written d)) E Q s1"
    if "view s1 = (view s)\<lparr>cl_cm := m\<rparr>" "sameButRegistration derived final" for final d m s1
  proof -
    have "wp (if k_EqualADStatus K (ad_Status latest) (ad_Status final) then ret final
        else wrapErr msg (r_StatusUpdate (k_ad K) final)) E (\<lambda>_ s'. \<forall>written. wp (f written d) E Q s') s1"
    proof (rule wp_storeStatus [where latest = latest], goal_cases)
      case (3 ad' s')
      with that show ?case by (auto intro!: f [of s' ad' m])
    qed (use that l in \<open>auto dest!: sameButRegistration_frame intro: E\<close>)
    then show ?thesis unfolding wp_andThen by (rule wp_mono) auto
  qed
  show ?thesis
  proof (cases "adr_Registrar r")
    case None
    then show ?thesis
      using store [of s "cl_cm (view s)" derived 0] by (simp add: wp_ret sameButRegistration_simps)
  next
    case (Some A)
    then show ?thesis
      by (simp, intro wp_reconcileMCPRegistration [OF r reg]) (simp, simp only: prod.case, rule store)
  qed
qed

lemma wp_updateStatus:
  assumes r: "adr_Client r = K" and reg: "\<And>A. adr_Registrar r = Some A \<Longrightarrow> agent_registrar A isIn view"
    and Q: "\<And>res s'. statusUpdated K qs ad (view s) (view s') \<Longrightarrow> Q res s'"
    and E: "\<And>e m s'. view s' = (view s)\<lparr>cl_cm := m\<rparr> \<Longrightarrow> E e s'"
  shows "wp (updateStatus r ad qs) E Q s"
proof -
  have E0: "E e s'" if "view s' = view s" for e s'
    using that E [of s' "cl_cm (view s)"] by simp
  show ?thesis
    unfolding updateStatus_def detectImagePullFailure_def Let_def r wp_catchErr
  proof (rule deps.wp_get, goal_cases)
    case (1 dep s1)
    note dep = 1
    show ?case
      unfolding wp_catchErr
    proof (rule ads.wp_get, goal_cases)
      case (1 latest s2)
      note l = 1
      show ?case
        unfolding wp_simps(3,4)
      proof (rule wp_ListPods, goal_cases)
        case (1 pods s3)
        show ?case
          unfolding wp_simps(1)
        proof (rule wp_recordStatus [OF r reg], goal_cases)
          case (4 written d final ad' m s')
          have "statusUpdated K qs ad (view s) (view s')"
            by (rule statusUpdatedI [OF _ _ _ _ 4(2-5)]) (use 4 dep l 1 in \<open>auto simp: metaKey_eq_ad_Key\<close>)
          then show ?case by (auto simp: wp_simps intro: Q)
        qed (use dep l 1 in \<open>auto simp: metaKey_eq_ad_Key intro: E\<close>)
      qed (use dep l in \<open>auto intro: E0\<close>)
    qed (use dep in \<open>auto simp: wp_simps statusUpdated_def intro: E0 Q\<close>)
  qed (auto simp: wp_simps statusUpdated_def intro: E0 Q)
qed

end

end
