(* ===== verification/AD_Reconcile.thy ===== *)
theory AD_Reconcile
  imports AD_Controller
begin

text \<open>
  What one call of \<open>Reconcile\<close> of the AgentDeployment reconciler does to an agent: it converges the children of a
  stable agent, moves the agent along the lifecycle of its rollouts, and finalizes it when it is deleted. The
  calls of \<open>AD_Controller\<close> are composed with the canary controller, the registrar and the API server, each through
  the laws of its interface.
\<close>

section \<open>One reconcile\<close>

text \<open>\<open>agentFrame ad v v'\<close>: only objects of the agent changed, ConfigMaps apart. \<open>stableReconciled\<close>: the children are
  the desired ones, and the status follows from them.\<close>

definition agentFrame :: "AgentDeployment \<Rightarrow> cluster \<Rightarrow> cluster \<Rightarrow> bool" where
  "agentFrame ad v v' \<longleftrightarrow> cl_tq v' = cl_tq v \<and> cl_route v' = cl_route v \<and> (\<forall>k. k \<noteq> ad_Key ad \<longrightarrow>
     cl_ad v' k = cl_ad v k \<and> cl_dep v' k = cl_dep v k \<and> cl_svc v' k = cl_svc v k \<and> cl_sm v' k = cl_sm v k \<and> cl_hpa v' k = cl_hpa v k)"

definition withChildren :: "NamespacedName \<Rightarrow> Deployment \<Rightarrow> Service \<Rightarrow> ServiceMonitor option \<Rightarrow> HorizontalPodAutoscaler option \<Rightarrow>
    cluster \<Rightarrow> cluster" where
  "withChildren k d svc sm hpa v = v\<lparr>cl_dep := (cl_dep v)(k \<mapsto> d), cl_svc := (cl_svc v)(k \<mapsto> svc), cl_sm := (cl_sm v)(k := sm),
     cl_hpa := (cl_hpa v)(k := hpa)\<rparr>"

definition stableReconciled :: "'s AgentDeploymentReconciler \<Rightarrow> AgentDeployment \<Rightarrow> cluster \<Rightarrow> cluster \<Rightarrow> bool" where
  "stableReconciled r ad v v' \<longleftrightarrow> (\<exists>d svc sm hpa hres qs. stableDeployment ad d \<and> stableService ad svc \<and>
     (adr_hasServiceMonitorCRD r \<longrightarrow> map_option sm_Selector sm = Some (agentLabels ad)) \<and> hpaReconciled v ad hres qs hpa \<and>
     statusUpdated (adr_Client r) qs ad (withChildren (ad_Key ad) d svc sm hpa v) v')"

lemma hpaReconciled_cong:
  "cl_ad v' = cl_ad v \<Longrightarrow> cl_tq v' = cl_tq v \<Longrightarrow> cl_hpa v' = cl_hpa v \<Longrightarrow> hpaReconciled v' = hpaReconciled v"
proof -
  assume same: "cl_ad v' = cl_ad v" "cl_tq v' = cl_tq v" "cl_hpa v' = cl_hpa v"
  then have headroom: "agentHeadroom v' = agentHeadroom v"
    by (simp add: agentHeadroom_def usedByCompetitors_def competitors_def fun_eq_iff)
  show ?thesis unfolding hpaReconciled_def [abs_def] same headroom ..
qed

lemma statusUpdated_frame: "statusUpdated K qs ad v v' \<Longrightarrow> agentFrame ad v v'"
  by (auto simp: statusUpdated_def agentFrame_def split: option.splits)

lemma agentFrame_trans: "agentFrame ad u v \<Longrightarrow> agentFrame ad v w \<Longrightarrow> agentFrame ad u w"
  by (simp add: agentFrame_def)

lemma stableReconciled_frame: "stableReconciled r ad v v' \<Longrightarrow> agentFrame ad v v'"
  unfolding stableReconciled_def
  by (elim exE conjE, erule agentFrame_trans [OF _ statusUpdated_frame, rotated]) (simp add: agentFrame_def withChildren_def)

context kube_laws
begin

lemma wp_reconcileChildren:
  assumes r: "adr_Client r = K"
    and Q: "\<And>d svc sm hpa res qs s'. view s' = withChildren (ad_Key ad) d svc sm hpa (view s) \<Longrightarrow> stableDeployment ad d \<Longrightarrow>
      stableService ad svc \<Longrightarrow> (adr_hasServiceMonitorCRD r \<longrightarrow> map_option sm_Selector sm = Some (agentLabels ad)) \<Longrightarrow>
      hpaReconciled (view s) ad res qs hpa \<Longrightarrow> Q (res, qs) s'"
    and E: "\<And>e s'. agentFrame ad (view s) (view s') \<Longrightarrow> cl_ad (view s') = cl_ad (view s) \<Longrightarrow> E e s'"
  shows "wp (reconcileChildren r ad) E Q s"
  unfolding reconcileChildren_def wp_simps
proof (rule wp_reconcileDeployment [OF r], goal_cases)
  case (1 d s1)
  note s1 = 1
  show ?case
  proof (rule wp_reconcileService [OF r], goal_cases)
    case (1 svc s2)
    note s2 = 1
    show ?case
    proof (rule wp_reconcileServiceMonitor [OF r], goal_cases)
      case (1 sm s3)
      note s3 = 1
      have same: "hpaReconciled (view s3) = hpaReconciled (view s)"
        using s1 s2 s3 by (intro hpaReconciled_cong) simp_all
      show ?case
      proof (rule wp_reconcileHPA [OF r], goal_cases)
        case (1 hpa res qs s4)
        show ?case
          by (rule Q [of s4 d svc sm hpa]) (use s1 s2 s3 1(1) 1(2) [unfolded same] in \<open>auto simp: withChildren_def\<close>)
      qed (use s1 s2 s3 in \<open>auto intro: E simp: agentFrame_def\<close>)
    qed (use s1 s2 in \<open>auto intro: E simp: agentFrame_def\<close>)
  qed (use s1 in \<open>auto intro: E simp: agentFrame_def\<close>)
qed (auto intro: E simp: agentFrame_def)

lemma wp_reconcileStable:
  assumes r: "adr_Client r = K" and reg: "\<And>A. adr_Registrar r = Some A \<Longrightarrow> agent_registrar A isIn view"
    and Q: "\<And>res s'. stableReconciled r ad (view s) (view s') \<Longrightarrow> Q res s'"
    and E: "\<And>e s'. agentFrame ad (view s) (view s') \<Longrightarrow> cl_ad (view s') = cl_ad (view s) \<Longrightarrow> E e s'"
  shows "wp (reconcileStable r ad) E Q s"
  unfolding reconcileStable_def wp_andThen
proof (rule wp_reconcileChildren [OF r], goal_cases)
  case (1 d svc sm hpa res qs s1)
  show ?case
    unfolding prod.case wp_simps(3,4)
  proof (rule wp_updateStatus [OF r reg], goal_cases)
    case (2 res s')
    with 1 have "stableReconciled r ad (view s) (view s')"
      unfolding stableReconciled_def r by metis
    then show ?case unfolding wp_ret by (rule Q)
  next
    case (3 e m s')
    with 1 show ?case by (intro E) (auto simp: agentFrame_def withChildren_def)
  qed
qed (rule E)

end

text \<open>\<open>sameAgent ad ad'\<close>: another version of the object, with the same spec and the same status.\<close>

definition sameAgent :: "AgentDeployment \<Rightarrow> AgentDeployment \<Rightarrow> bool" where
  "sameAgent ad ad' \<longleftrightarrow> ad_Key ad' = ad_Key ad \<and> ad_Spec ad' = ad_Spec ad \<and> ad_stat ad' = ad_stat ad"

lemma sameAgent_refl [simp]: "sameAgent ad ad"
  by (simp add: sameAgent_def)

lemma sameAgentD:
  assumes "sameAgent ad ad'"
  shows "rolloutState ad' = rolloutState ad" "status_Phase (ad_Status ad') = status_Phase (ad_Status ad)"
    "isAbortRequested ad' = isAbortRequested ad" "isCanaryTriggered ad' = isCanaryTriggered ad"
proof -
  have st: "ad_stat ad' = ad_stat ad" and sp: "ad_Spec ad' = ad_Spec ad"
    using assms by (simp_all add: sameAgent_def)
  show "rolloutState ad' = rolloutState ad" by (rule rolloutState_stat [OF st])
  show ph: "status_Phase (ad_Status ad') = status_Phase (ad_Status ad)"
    using arg_cong [OF st, of status_Phase] by (simp add: ad_stat_def)
  show "isAbortRequested ad' = isAbortRequested ad" by (simp add: isAbortRequested_def sp ph)
  show "isCanaryTriggered ad' = isCanaryTriggered ad"
    using stat_versions [OF st] by (simp add: isCanaryTriggered_def sp ph)
qed

text \<open>The start of a rollout: the HPA is gone, and the status stands at the first step.\<close>

definition canaryBegun :: "AgentDeployment \<Rightarrow> cluster \<Rightarrow> cluster \<Rightarrow> bool" where
  "canaryBegun ad v v' \<longleftrightarrow> (\<exists>x ad'. deleted hpa_Meta x \<and>
     v' = cl_ad_update (\<lambda>ads. ads(ad_Key ad \<mapsto> ad')) (cl_hpa_update (\<lambda>m. m(ad_Key ad := x)) v) \<and> ad_spec ad' = ad_spec ad \<and>
     ad_Key ad' = ad_Key ad \<and> ad_stat ad' = ad_stat (canaryStarted ad ad))"

lemma canaryStarted_simps [simp]:
  "ad_Meta (canaryStarted ad l) = ad_Meta l" "rolloutState (canaryStarted ad l) = Rolling 0 0 False"
  by (simp_all add: canaryStarted_def rolloutState_def standing_def)

context kube_laws
begin

lemma wp_ensureFinalizer:
  assumes r: "adr_Client r = K" and ad: "cl_ad (view s) k = Some ad" "ad_Key ad = k" "om_DeletionTimestamp (ad_Meta ad) = None"
    and Q: "\<And>ad' s'. view s' = cl_ad_update (\<lambda>ads. ads(k \<mapsto> ad')) (view s) \<Longrightarrow> sameAgent ad ad' \<Longrightarrow>
      AgentDeploymentFinalizer \<in> set (om_Finalizers (ad_Meta ad')) \<Longrightarrow> Q ad' s'"
    and E: "\<And>e ad' s'. view s' = cl_ad_update (\<lambda>ads. ads(k \<mapsto> ad')) (view s) \<Longrightarrow> sameAgent ad ad' \<Longrightarrow> E e s'"
  shows "wp (ensureFinalizer r k ad) E Q s"
proof (cases "AgentDeploymentFinalizer \<in> set (om_Finalizers (ad_Meta ad))")
  case True
  then have "Q ad s" using ad by (intro Q) (auto simp: fun_upd_idem)
  with True show ?thesis by (simp add: ensureFinalizer_def contains_finalizer r wp_simps)
next
  case False
  obtain fins where fins: "k_AddFinalizer K (ad_Meta ad) AgentDeploymentFinalizer = (ad_Meta ad)\<lparr>om_Finalizers := fins\<rparr>"
    "AgentDeploymentFinalizer \<in> set fins"
    using add_finalizer [of "ad_Meta ad" AgentDeploymentFinalizer] by blast
  have E0: "E e s'" if "view s' = view s" for e s'
    using that ad by (intro E [of s' ad]) (auto simp: fun_upd_idem)
  show ?thesis
    using False unfolding ensureFinalizer_def Let_def r contains_finalizer fins(1) wp_simps if_not_P [OF False]
  proof (intro ads.wp_update, goal_cases)
    case (1 obj' old x s1)
    then have s1: "view s1 = cl_ad_update (\<lambda>ads. ads(k \<mapsto> obj')) (view s)"
      using ad by (auto simp: stored_def metaKey_def)
    have same: "sameAgent ad obj'" "AgentDeploymentFinalizer \<in> set (om_Finalizers (ad_Meta obj'))"
      using 1 ad fins(2) by (auto simp: sameAgent_def ad_spec_def metaKey_def)
    show ?case
      by (rule ads.wp_get) (use s1 same in \<open>auto intro: Q [of _ obj'] E [of _ obj']\<close>)
  qed (rule E0)
qed

lemma wp_startCanary:
  assumes r: "adr_Client r = K" and c: "cc_Client c = K" and ad: "cl_ad (view s) (ad_Key ad) = Some ad"
    and Q: "\<And>s'. canaryBegun ad (view s) (view s') \<Longrightarrow> Q () s'"
    and E: "\<And>e s'. agentFrame ad (view s) (view s') \<Longrightarrow> cl_ad (view s') = cl_ad (view s) \<Longrightarrow> E e s'"
  shows "wp (startCanary r c ad) E Q s"
  unfolding startCanary_def Let_def r wp_simps
proof (rule wp_PauseHPA [OF c], goal_cases)
  case (1 x s1)
  note s1 = 1
  show ?case
  proof (rule ads.wp_get, goal_cases)
    case (1 latest s2)
    then have l: "latest = ad" using s1 ad by simp
    show ?case
      unfolding l
    proof (rule wp_write [where l = ad and old = ad], goal_cases)
      case (3 l' s')
      with s1 1 have "canaryBegun ad (view s) (view s')"
        by (auto simp: canaryBegun_def)
      then show ?case by (rule Q)
    qed (use s1 1 ad in \<open>auto intro: E simp: agentFrame_def\<close>)
  qed (use s1 in \<open>auto intro: E simp: agentFrame_def\<close>)
qed (auto intro: E simp: agentFrame_def)

end

section \<open>The lifecycle of an agent\<close>

text \<open>A reconcile, as a step of an agent's rollout: an agent that is not in a rollout begins one exactly when it is
  triggered, and settles otherwise; an agent in a rollout is aborted on request and rolls otherwise.\<close>

definition isRolling :: "rollout \<Rightarrow> bool" where
  "isRolling a \<longleftrightarrow> (case a of Rolling i w p \<Rightarrow> True | _ \<Rightarrow> False)"

inductive lifecycle_step :: "CanaryStep list \<Rightarrow> bool \<Rightarrow> bool \<Rightarrow> rollout \<Rightarrow> rollout \<Rightarrow> bool" for steps triggered abort where
  aborted: "abort \<Longrightarrow> isRolling a \<Longrightarrow> lifecycle_step steps triggered abort a Failed"
| rolls: "\<not> abort \<Longrightarrow> rollout_step steps a b \<Longrightarrow> lifecycle_step steps triggered abort a b"
| begins: "triggered \<Longrightarrow> \<not> isRolling a \<Longrightarrow> lifecycle_step steps triggered abort a (Rolling 0 0 False)"
| settles: "\<not> triggered \<Longrightarrow> \<not> isRolling a \<Longrightarrow> b = Idle \<or> b = Promoted \<or> b = Failed \<and> a = Failed \<Longrightarrow>
    lifecycle_step steps triggered abort a b"

lemma isRolling_state: "isRolling (rolloutState ad) \<longleftrightarrow> status_Phase (ad_Status ad) = PhaseRolloutInProgress"
  by (simp add: isRolling_def rolloutState_def standing_def split: Phase.split)

text \<open>From \<open>v\<close> to \<open>v'\<close>, the agent \<open>ad\<close> keeps its spec and moves to a state in \<open>P\<close>, and no other AgentDeployment changes.\<close>

definition agentMoves :: "(rollout \<Rightarrow> bool) \<Rightarrow> AgentDeployment \<Rightarrow> cluster \<Rightarrow> cluster \<Rightarrow> bool" where
  "agentMoves P ad v v' \<longleftrightarrow> (\<exists>ad'. cl_ad v' (ad_Key ad) = Some ad' \<and> ad_Spec ad' = ad_Spec ad \<and> P (rolloutState ad')) \<and>
     (\<forall>k. k \<noteq> ad_Key ad \<longrightarrow> cl_ad v' k = cl_ad v k)"

lemma agentMoves_same: "cl_ad v (ad_Key ad) = Some ad \<Longrightarrow> cl_ad v' = cl_ad v \<Longrightarrow> P (rolloutState ad) \<Longrightarrow> agentMoves P ad v v'"
  by (simp add: agentMoves_def)

lemma agentMoves_stayed: "stayed ad v v' \<Longrightarrow> P (rolloutState ad) \<Longrightarrow> agentMoves P ad v v'"
  by (auto simp: agentMoves_def stayed_def rolloutFrame_def ad_spec_def)

lemma agentMoves_stepped:
  "stepped ad v v' \<Longrightarrow> (\<And>b. rollout_step (ro_Steps (spec_Rollout (ad_Spec ad))) (rolloutState ad) b \<Longrightarrow> P b) \<Longrightarrow> agentMoves P ad v v'"
  by (auto simp: agentMoves_def stepped_def rolloutFrame_def ad_spec_def)

lemma agentMoves_rollback:
  assumes "rollbackDone K ad reason message v v'" and "cl_ad v (ad_Key ad) = Some ad" and "P Failed"
  shows "agentMoves P ad v v'"
proof -
  obtain ad' where "cl_ad v' (ad_Key ad) = Some ad'" "ad_spec ad' = ad_spec ad" "ad_stat ad' = ad_stat (rolledBack K ad reason message ad)"
    using assms(1,2) by (auto simp: rollbackDone_def statusWritten_def)
  moreover from this have "rolloutState ad' = Failed"
    by (simp add: rolloutState_stat rolled_states)
  ultimately show ?thesis
    using assms(1,3) by (auto simp: agentMoves_def rollbackDone_def rolloutFrame_def ad_spec_def)
qed

lemma agentMoves_begun: "canaryBegun ad v v' \<Longrightarrow> P (Rolling 0 0 False) \<Longrightarrow> agentMoves P ad v v'"
  by (auto simp: agentMoves_def canaryBegun_def ad_spec_def dest: rolloutState_stat)

lemma derivedPhase_state:
  assumes "ad_stat ad' = ad_stat final" and "sameButRegistration (derivedStatus K qs dep pull latest) final"
    and "\<not> isRolling (rolloutState latest)"
  shows "rolloutState ad' = Idle \<or> rolloutState ad' = Promoted \<or> rolloutState ad' = Failed \<and> rolloutState latest = Failed"
  using rolloutState_stat [OF assms(1)] sameButRegistration_frame [OF assms(2)]
  by (auto simp: rolloutState_def standing_def derivedPhase_def)

lemma agentMoves_stable:
  assumes "stableReconciled r ad v v'" and "cl_ad v (ad_Key ad) = Some ad" and "\<not> isRolling (rolloutState ad)"
    and "P Idle" "P Promoted" "rolloutState ad = Failed \<Longrightarrow> P Failed"
  shows "agentMoves P ad v v'"
proof -
  from assms(1,2) obtain ad' dep pull final qs where ad': "cl_ad v' (ad_Key ad) = Some ad'" "ad_spec ad' = ad_spec ad"
    "ad_stat ad' = ad_stat final" "sameButRegistration (derivedStatus (adr_Client r) qs dep pull ad) final"
    by (auto simp: stableReconciled_def withChildren_def statusUpdated_def statusReconciled_def)
  have "P (rolloutState ad')"
    using derivedPhase_state [OF ad'(3,4) assms(3)] assms(4-6) by auto
  then show ?thesis
    using ad'(1,2) stableReconciled_frame [OF assms(1)] by (auto simp: agentMoves_def agentFrame_def ad_spec_def)
qed

context kube_laws
begin

lemma wp_reconcileLive:
  assumes r: "adr_Client r = K" and c: "cc_Client c = K" "promFrame view (cc_PromClient c)"
    and reg: "\<And>A. adr_Registrar r = Some A \<or> cc_Registrar c = Some A \<Longrightarrow> agent_registrar A isIn view"
    and ad: "cl_ad (view s) (ad_Key ad) = Some ad"
  defines "next \<equiv> lifecycle_step (ro_Steps (spec_Rollout (ad_Spec ad))) (isCanaryTriggered ad) (isAbortRequested ad) (rolloutState ad)"
  shows "wp (if isAbortRequested ad then
        andThen (wrapErr m1 (Rollback c ad reason message)) (\<lambda>_. ret NoRequeue)
      else if status_Phase (ad_Status ad) = PhaseRolloutInProgress then wrapErr m2 (Step c ad)
      else if isCanaryTriggered ad then andThen (wrapErr m3 (startCanary r c ad)) (\<lambda>_. ret d)
      else reconcileStable r ad)
    (\<lambda>e s'. agentMoves ((=) (rolloutState ad)) ad (view s) (view s'))
    (\<lambda>res s'. agentMoves next ad (view s) (view s')) s"
  unfolding wp_simps
proof (intro if_intro, goal_cases)
  case 1
  then have "next Failed"
    by (simp add: next_def isRolling_state isAbortRequested_def lifecycle_step.aborted)
  with ad show ?case
    by (intro wp_Rollback_done [OF c(1)]) (auto intro: agentMoves_rollback agentMoves_same)
next
  case 2
  have "wp (Step c ad) (\<lambda>e s'. stayed ad (view s) (view s')) (\<lambda>r s'. stepped ad (view s) (view s')) s"
    by (rule wp_Step [OF c reg ad 2(2)]) simp
  then show ?case
    by (rule wp_mono) (erule agentMoves_stayed, simp, erule agentMoves_stepped, simp add: next_def 2(1) lifecycle_step.rolls)
next
  case 3
  then have "next (Rolling 0 0 False)"
    by (simp add: next_def isRolling_state lifecycle_step.begins)
  with ad show ?case
    by (intro wp_startCanary [OF r c(1)]) (auto intro: agentMoves_begun agentMoves_same)
next
  case 4
  then have "\<not> isRolling (rolloutState ad)" by (simp add: isRolling_state)
  with 4 have "next Idle" "next Promoted" "rolloutState ad = Failed \<Longrightarrow> next Failed"
    by (simp_all add: next_def lifecycle_step.settles)
  with ad \<open>\<not> isRolling _\<close> show ?case
    by (intro wp_reconcileStable [OF r reg]) (auto intro: agentMoves_stable agentMoves_same)
qed

end

lemma agentMoves_from:
  assumes "sameAgent ad ad1" and "v1 = cl_ad_update (\<lambda>ads. ads(ad_Key ad \<mapsto> ad1)) v" and "agentMoves P ad1 v1 v'"
  shows "agentMoves P ad v v'"
  using assms by (auto simp: agentMoves_def sameAgent_def)

context kube_laws
begin

lemma wp_Reconcile_live:
  assumes r: "adr_Client r = K" "adr_CanaryController r = Some c" and c: "cc_Client c = K" "promFrame view (cc_PromClient c)"
    and reg: "\<And>A. adr_Registrar r = Some A \<or> cc_Registrar c = Some A \<Longrightarrow> agent_registrar A isIn view"
    and ad: "cl_ad (view s) (ad_Key ad) = Some ad" "om_DeletionTimestamp (ad_Meta ad) = None"
  shows "wp (Reconcile r (ad_Key ad)) (\<lambda>e s'. agentMoves ((=) (rolloutState ad)) ad (view s) (view s'))
    (\<lambda>res s'. agentMoves (lifecycle_step (ro_Steps (spec_Rollout (ad_Spec ad))) (isCanaryTriggered ad) (isAbortRequested ad) (rolloutState ad))
      ad (view s) (view s')) s"
  unfolding Reconcile_def r wp_catchErr
proof (rule ads.wp_get, goal_cases)
  case (1 ad0 s0)
  then have "ad0 = ad" using ad by simp
  moreover have "wp (ensureFinalizer r (ad_Key ad) ad) (\<lambda>e s'. agentMoves ((=) (rolloutState ad)) ad (view s) (view s'))
    (\<lambda>ad1. wp (if isAbortRequested ad1 then
        andThen (wrapErr ''aborting canary: '' (Rollback c ad1 ''ManualAbort'' ''spec.rollout.abort was set to true'')) (\<lambda>_. ret NoRequeue)
      else if status_Phase (ad_Status ad1) = PhaseRolloutInProgress then wrapErr ''stepping canary: '' (Step c ad1)
      else if isCanaryTriggered ad1 then
        andThen (wrapErr ''starting canary: '' (startCanary r c ad1)) (\<lambda>_. ret (RequeueAfter (5 * Second)))
      else reconcileStable r ad1) (\<lambda>e s'. agentMoves ((=) (rolloutState ad)) ad (view s) (view s'))
    (\<lambda>res s'. agentMoves (lifecycle_step (ro_Steps (spec_Rollout (ad_Spec ad))) (isCanaryTriggered ad) (isAbortRequested ad) (rolloutState ad))
      ad (view s) (view s'))) s0"
  proof (rule wp_ensureFinalizer [OF r(1)], goal_cases)
    case (4 ad1 s1)
    then have v1: "view s1 = cl_ad_update (\<lambda>ads. ads(ad_Key ad \<mapsto> ad1)) (view s)" and k: "ad_Key ad1 = ad_Key ad" "ad_Spec ad1 = ad_Spec ad"
      using 1 by (simp_all add: sameAgent_def)
    have ad1: "cl_ad (view s1) (ad_Key ad1) = Some ad1" by (simp add: v1 k)
    show ?case
      by (rule wp_mono [OF wp_reconcileLive [OF r(1) c reg ad1]])
        (auto simp: sameAgentD [OF 4(2)] k intro: agentMoves_from [OF 4(2) v1])
  next
    case (5 e ad1 s1)
    with 1 show ?case
      by (auto simp: agentMoves_def sameAgent_def intro!: sym [OF rolloutState_stat])
  qed (use 1 ad in auto)
  ultimately show ?case
    using ad(2) by (simp add: wp_andThen)
next
  case (2 e s')
  with ad show ?case by (auto simp: wp_simps intro: agentMoves_same)
qed

end

text \<open>C1. One reconcile of an agent refines the lifecycle machine. An agent begins a rollout exactly when it is triggered,
  from step 0 with no traffic; while it rolls, it makes one step of the rollout, or fails when an abort is requested;
  otherwise it settles as running, pending or degraded, and stays failed only if it had failed. A reconcile that returns
  an error leaves it where it stood. No reconcile changes the spec or another AgentDeployment.\<close>

theorem Reconcile_refines_lifecycle:
  assumes "kube_laws (adr_Client r) view" and "adr_CanaryController r = Some c" and "cc_Client c = adr_Client r"
    and "promFrame view (cc_PromClient c)"
    and "\<And>A. adr_Registrar r = Some A \<or> cc_Registrar c = Some A \<Longrightarrow> agent_registrar A isIn view"
    and "cl_ad (view s) (ad_Key ad) = Some ad" and "om_DeletionTimestamp (ad_Meta ad) = None"
  shows "case Reconcile r (ad_Key ad) s of
     (Inl e, s') \<Rightarrow> agentMoves ((=) (rolloutState ad)) ad (view s) (view s')
   | (Inr res, s') \<Rightarrow> agentMoves (lifecycle_step (ro_Steps (spec_Rollout (ad_Spec ad))) (isCanaryTriggered ad) (isAbortRequested ad)
       (rolloutState ad)) ad (view s) (view s')"
  using kube_laws.wp_Reconcile_live [OF assms(1) refl assms(2-)] unfolding wp_def .

section \<open>Deletion\<close>

text \<open>\<open>keepsListing\<close>: a write of the API client does not touch the discovery registry, which lives in memory.\<close>

definition keepsListing :: "'s kube \<Rightarrow> ('s \<Rightarrow> string \<Rightarrow> string \<Rightarrow> bool) \<Rightarrow> bool" where
  "keepsListing K isIn \<longleftrightarrow> (\<forall>ad s out s'. r_Update (k_ad K) ad s = (out, s') \<longrightarrow> isIn s' = isIn s)"

lemma keepsListing_shared: "keepsListing (sharedKube K) listedIn"
  by (auto simp: keepsListing_def sharedKube_def onResource_def onKube_eq listedIn_def fun_eq_iff)

text \<open>An agent that was finalized: it is gone from the registry, and from the cluster or waits there for other finalizers.\<close>

definition finalized :: "('s \<Rightarrow> string \<Rightarrow> string \<Rightarrow> bool) \<Rightarrow> ('s \<Rightarrow> cluster) \<Rightarrow> AgentDeployment \<Rightarrow> 's \<Rightarrow> 's \<Rightarrow> bool" where
  "finalized isIn view ad s s' \<longleftrightarrow> \<not> isIn s' (ad_Namespace ad) (ad_Name ad) \<and>
     (\<exists>x m. view s' = cl_ad_update (\<lambda>ads. ads(ad_Key ad := x)) ((view s)\<lparr>cl_cm := m\<rparr>) \<and>
       (\<forall>ad'. x = Some ad' \<longrightarrow> set (om_Finalizers (ad_Meta ad')) = set (om_Finalizers (ad_Meta ad)) - {AgentDeploymentFinalizer}))"

context kube_laws
begin

lemma wp_finalizeDeletion:
  assumes r: "adr_Client r = K" "adr_Registrar r = Some A" and A: "agent_registrar A isIn view" and keep: "keepsListing K isIn"
    and fin: "AgentDeploymentFinalizer \<in> set (om_Finalizers (ad_Meta ad))"
  shows "wp (finalizeDeletion r ad) (\<lambda>e s'. \<exists>m. view s' = (view s)\<lparr>cl_cm := m\<rparr>) (\<lambda>res s'. res = NoRequeue \<and> finalized isIn view ad s s') s"
proof -
  obtain fins where fins: "k_RemoveFinalizer K (ad_Meta ad) AgentDeploymentFinalizer = (ad_Meta ad)\<lparr>om_Finalizers := fins\<rparr>"
    "set fins = set (om_Finalizers (ad_Meta ad)) - {AgentDeploymentFinalizer}"
    using remove_finalizer [of "ad_Meta ad" AgentDeploymentFinalizer] by blast
  let ?new = "ad\<lparr>ad_Meta := (ad_Meta ad)\<lparr>om_Finalizers := fins\<rparr>\<rparr>"
  have "wp (r_Update (k_ad K) ?new) (\<lambda>e s'. \<exists>m. view s' = (view s)\<lparr>cl_cm := m\<rparr>) (\<lambda>_ s'. finalized isIn view ad s s') s1"
    if s1: "view s1 = (view s)\<lparr>cl_cm := m\<rparr>" "\<not> isIn s1 (ad_Namespace ad) (ad_Name ad)" for s1 m
  proof -
    have "wp (r_Update (k_ad K) ?new) (\<lambda>e s'. \<exists>m. view s' = (view s)\<lparr>cl_cm := m\<rparr>)
        (\<lambda>_ s'. \<exists>x m. view s' = cl_ad_update (\<lambda>ads. ads(ad_Key ad := x)) ((view s)\<lparr>cl_cm := m\<rparr>) \<and>
          (\<forall>ad'. x = Some ad' \<longrightarrow> set (om_Finalizers (ad_Meta ad')) = set fins)) s1"
      by (rule ads.wp_update) (use s1 in \<open>auto simp: metaKey_def stored_def ad_spec_def\<close>)
    moreover have "isIn s' = isIn s1" if "r_Update (k_ad K) ?new s1 = (out, s')" for out s'
      using keep that by (simp add: keepsListing_def)
    ultimately show ?thesis
      using s1(2) fins(2) by (auto simp: wp_def finalized_def split: prod.splits sum.splits)
  qed
  then show ?thesis
    unfolding finalizeDeletion_def Let_def r(1) contains_finalizer runDeletionCleanup_def r(2) option.case fins(1) if_P [OF fin] wp_simps
    by (intro agent_registrar.wp_Deregister [OF A]) auto
qed

lemma wp_Reconcile_deleted:
  assumes r: "adr_Client r = K" "adr_Registrar r = Some A" and A: "agent_registrar A isIn view" and keep: "keepsListing K isIn"
    and ad: "cl_ad (view s) (ad_Key ad) = Some ad" "om_DeletionTimestamp (ad_Meta ad) \<noteq> None"
      "AgentDeploymentFinalizer \<in> set (om_Finalizers (ad_Meta ad))"
  shows "wp (Reconcile r (ad_Key ad)) (\<lambda>e s'. \<exists>m. view s' = (view s)\<lparr>cl_cm := m\<rparr>) (\<lambda>res s'. res = NoRequeue \<and> finalized isIn view ad s s') s"
  unfolding Reconcile_def r(1) wp_catchErr
proof (rule ads.wp_get, goal_cases)
  case (1 ad0 s0)
  then have "ad0 = ad" using ad by simp
  with 1 ad show ?case
    using wp_finalizeDeletion [OF r A keep ad(3), of s0] by (auto simp: finalized_def)
next
  case (2 e s')
  with ad show ?case by (auto simp: wp_simps intro: exI [of _ "cl_cm (view s)"])
qed

end

text \<open>C10. The finalizer protocol: a reconcile of an agent that is being deleted removes the finalizer, which lets the object go,
  only after the agent was removed from the discovery registry; until that succeeds, the reconcile returns an error and the
  object keeps its finalizer. Nothing else in the cluster changes but the ConfigMap of the registry.\<close>

theorem Reconcile_deletion_deregisters:
  assumes "kube_laws (adr_Client r) view" and "adr_Registrar r = Some A" and "agent_registrar A isIn view" and "keepsListing (adr_Client r) isIn"
    and "cl_ad (view s) (ad_Key ad) = Some ad" and "om_DeletionTimestamp (ad_Meta ad) \<noteq> None"
    and "AgentDeploymentFinalizer \<in> set (om_Finalizers (ad_Meta ad))"
  shows "case Reconcile r (ad_Key ad) s of
     (Inl e, s') \<Rightarrow> \<exists>m. view s' = (view s)\<lparr>cl_cm := m\<rparr>
   | (Inr res, s') \<Rightarrow> res = NoRequeue \<and> finalized isIn view ad s s'"
  using kube_laws.wp_Reconcile_deleted [OF assms(1) refl assms(2-)] unfolding wp_def .

section \<open>Samples\<close>

text \<open>An operator with a registrar whose agents answer every handshake, and an agent whose image was changed.\<close>

definition sample_registrarOps :: "mem registrarState AgentRegistrar" where
  "sample_registrarOps = registrarOps mem_kube (Initialize (reply_post [''search''])) ''agentrax-system'' (90 * Second) m_clock"

definition sample_controller :: "mem registrarState Controller" where
  "sample_controller = \<lparr>cc_Client = sharedKube mem_kube, cc_PromClient = constant_prom ''0'', cc_Registrar = Some sample_registrarOps,
     cc_GatewayName = ''gw'', cc_GatewayNamespace = ''gw-ns'', cc_FailSafeTimeout = 60 * Second\<rparr>"

definition sample_operator :: "mem registrarState AgentDeploymentReconciler" where
  "sample_operator = \<lparr>adr_Client = sharedKube mem_kube, adr_GPUResourceName = DefaultGPUResourceName,
     adr_CanaryController = Some sample_controller,
     adr_Registrar = Some sample_registrarOps, adr_MCPHealthInterval = 60 * Second, adr_hasServiceMonitorCRD = True\<rparr>"

definition sample_changed :: AgentDeployment where
  "sample_changed = (sample_canary 0 0 None)\<lparr>ad_Status := zero_AgentDeploymentStatus\<lparr>status_Phase := PhaseRunning, status_StableVersion := ''img:v1''\<rparr>\<rparr>"

lemma sample_canaryController:
  "adr_CanaryController sample_operator = Some sample_controller" "cc_Client sample_controller = sharedKube mem_kube"
  "cc_PromClient sample_controller = constant_prom ''0''" "cc_Registrar sample_controller = Some sample_registrarOps"
  by (simp_all add: sample_operator_def sample_controller_def)

lemma sample_changed_live: "om_DeletionTimestamp (ad_Meta sample_changed) = None"
  by (simp add: sample_changed_def sample_canary_def zero_ObjectMeta_def)

lemma sample_operator_simps [simp]:
  "adr_Client sample_operator = sharedKube mem_kube" "adr_Registrar sample_operator = Some sample_registrarOps"
  by (simp_all add: sample_operator_def)

lemma sample_laws:
  "kube_laws (sharedKube mem_kube) (\<lambda>st. mem_view (snd st))" "agent_registrar sample_registrarOps listedIn (\<lambda>st. mem_view (snd st))"
  by (simp_all add: sharedKube_laws mem.kube_laws_axioms sample_registrarOps_def mem_registrar.agent_registrar_axioms)

definition sample_entry :: "string \<Rightarrow> Entry" where
  "sample_entry name = \<lparr>ent_Namespace = ''ns'', ent_Name = name, ent_Endpoint = ''http://x'', ent_Tools = [], ent_RegisteredAt = 0,
     ent_HeartbeatAt = 0, ent_TTL = 90 * Second\<rparr>"

definition sample_start :: "AgentDeployment \<Rightarrow> mem registrarState" where
  "sample_start ad = (([(''ns/a'', Some (sample_entry ''a'')), (''ns/b'', Some (sample_entry ''b''))], []), sample_cluster ad)"

lemma sample_start_view [simp]: "mem_view (snd (sample_start ad)) = mem_view (sample_cluster ad)"
  by (simp add: sample_start_def)

theorem Reconcile_refines_lifecycle_witness:
  "case Reconcile sample_operator (ad_Key sample_changed) (sample_start sample_changed) of
     (Inl e, s') \<Rightarrow> False
   | (Inr res, s') \<Rightarrow> agentMoves (lifecycle_step sample_steps True False Promoted) sample_changed
       (mem_view (sample_cluster sample_changed)) (mem_view (snd s'))"
proof -
  let ?r = "Reconcile sample_operator (ad_Key sample_changed) (sample_start sample_changed)"
  have "fst ?r = Inr (RequeueAfter (5 * Second))" by code_simp
  moreover have "ro_Steps (spec_Rollout (ad_Spec sample_changed)) = sample_steps" "isCanaryTriggered sample_changed"
    "\<not> isAbortRequested sample_changed" "rolloutState sample_changed = Promoted"
    by code_simp+
  ultimately show ?thesis
    using Reconcile_refines_lifecycle [where isIn = listedIn and view = "\<lambda>st. mem_view (snd st)" and r = sample_operator
        and ad = sample_changed and s = "sample_start sample_changed"] sample_changed_live
    by (cases ?r) (simp add: sample_canaryController sample_laws constant_prom_frame sample_stored)
qed

definition sample_deleted :: AgentDeployment where
  "sample_deleted = sample_changed\<lparr>ad_Meta := (ad_Meta sample_changed)\<lparr>om_DeletionTimestamp := Some 0, om_Finalizers := [AgentDeploymentFinalizer]\<rparr>\<rparr>"

theorem Reconcile_deletion_deregisters_witness:
  "case Reconcile sample_operator (ad_Key sample_deleted) (sample_start sample_deleted) of
     (Inl e, s') \<Rightarrow> False
   | (Inr res, s') \<Rightarrow> finalized listedIn (\<lambda>st. mem_view (snd st)) sample_deleted (sample_start sample_deleted) s' \<and>
       map fst (fst (fst s')) = [''ns/b''] \<and> m_ad (snd s') = []"
proof -
  let ?r = "Reconcile sample_operator (ad_Key sample_deleted) (sample_start sample_deleted)"
  have "case ?r of (out, s') \<Rightarrow> out = Inr NoRequeue \<and> map fst (fst (fst s')) = [''ns/b''] \<and> m_ad (snd s') = []" by code_simp
  moreover have "om_DeletionTimestamp (ad_Meta sample_deleted) \<noteq> None" "AgentDeploymentFinalizer \<in> set (om_Finalizers (ad_Meta sample_deleted))"
    by (simp_all add: sample_deleted_def)
  ultimately show ?thesis
    using Reconcile_deletion_deregisters [where A = sample_registrarOps and view = "\<lambda>st. mem_view (snd st)" and r = sample_operator
        and isIn = listedIn and ad = sample_deleted and s = "sample_start sample_deleted"]
    by (cases ?r) (auto simp: sample_laws keepsListing_shared sample_stored)
qed

section \<open>Properties of the reconciler\<close>

lemma stableReconciled_objects:
  assumes "stableReconciled r ad v v'" and "cl_ad v (ad_Key ad) = Some ad"
  shows "\<exists>d svc hres qs ad'. cl_dep v' (ad_Key ad) = Some d \<and> stableDeployment ad d \<and>
    cl_svc v' (ad_Key ad) = Some svc \<and> stableService ad svc \<and> hpaReconciled v ad hres qs (cl_hpa v' (ad_Key ad)) \<and>
    cl_ad v' (ad_Key ad) = Some ad' \<and> statusReconciled (adr_Client r) qs d ad ad'"
proof -
  obtain d svc sm hpa hres qs where "stableDeployment ad d" "stableService ad svc" "hpaReconciled v ad hres qs hpa"
    and "statusUpdated (adr_Client r) qs ad (withChildren (ad_Key ad) d svc sm hpa v) v'"
    using assms(1) by (auto simp: stableReconciled_def)
  moreover from this(4) obtain ad' m where "v' = cl_ad_update (\<lambda>ads. ads(ad_Key ad \<mapsto> ad')) ((withChildren (ad_Key ad) d svc sm hpa v)\<lparr>cl_cm := m\<rparr>)"
    and "statusReconciled (adr_Client r) qs d ad ad'"
    using assms(2) by (auto simp: statusUpdated_def withChildren_def)
  ultimately show ?thesis
    by (intro exI [of _ d] exI [of _ svc] exI [of _ hres] exI [of _ qs] exI [of _ ad']) (simp add: withChildren_def)
qed

text \<open>C11. A reconcile of an agent outside a rollout converges: when it returns, the Deployment runs the image of the spec (or the
  stable version, while a rollout is in progress) under the agent's own labels, the Service selects exactly those labels, the HPA
  is the one the tenant's remaining budget allows, and the status was derived from that Deployment. When it fails, the status has
  not been written. No object of another agent is touched either way.\<close>

theorem reconcileStable_converges:
  assumes "kube_laws (adr_Client r) view" and "\<And>A. adr_Registrar r = Some A \<Longrightarrow> agent_registrar A isIn view"
    and "cl_ad (view s) (ad_Key ad) = Some ad"
  shows "case reconcileStable r ad s of
     (Inl e, s') \<Rightarrow> agentFrame ad (view s) (view s') \<and> cl_ad (view s') = cl_ad (view s)
   | (Inr res, s') \<Rightarrow> agentFrame ad (view s) (view s') \<and>
       (\<exists>d svc hres qs ad'. cl_dep (view s') (ad_Key ad) = Some d \<and> stableDeployment ad d \<and>
         cl_svc (view s') (ad_Key ad) = Some svc \<and> stableService ad svc \<and>
         hpaReconciled (view s) ad hres qs (cl_hpa (view s') (ad_Key ad)) \<and>
         cl_ad (view s') (ad_Key ad) = Some ad' \<and> statusReconciled (adr_Client r) qs d ad ad')"
proof -
  have "wp (reconcileStable r ad) (\<lambda>e s'. agentFrame ad (view s) (view s') \<and> cl_ad (view s') = cl_ad (view s))
      (\<lambda>res s'. stableReconciled r ad (view s) (view s')) s"
    by (rule kube_laws.wp_reconcileStable [OF assms(1) refl assms(2)]) simp_all
  then show ?thesis
    unfolding wp_def using stableReconciled_objects [OF _ assms(3), of r] stableReconciled_frame [of r ad "view s"]
    by (simp split: prod.splits sum.splits)
qed


text \<open>C29. Traffic and ownership never mix: the selector of an agent's stable Deployment and Service selects the pods of that agent's stable
  Deployment and of no other Deployment the operator creates, of its own canary in particular; and likewise for the canary.\<close>

theorem selectors_isolate_agents:
  "(selects (svc_Selector (desiredService ad)) (dep_TemplateLabels (desiredDeployment ad')) \<longleftrightarrow>
      ad_Name ad = ad_Name ad' \<and> spec_TenantRef (ad_Spec ad) = spec_TenantRef (ad_Spec ad')) \<and>
   (selects (svc_Selector (desiredCanaryService ad n)) (dep_TemplateLabels (desiredCanaryDeployment ad' n')) \<longleftrightarrow>
      ad_Name ad = ad_Name ad' \<and> spec_TenantRef (ad_Spec ad) = spec_TenantRef (ad_Spec ad')) \<and>
   \<not> selects (svc_Selector (desiredService ad)) (dep_TemplateLabels (desiredCanaryDeployment ad' n')) \<and>
   \<not> selects (svc_Selector (desiredCanaryService ad n)) (dep_TemplateLabels (desiredDeployment ad')) \<and>
   dep_Selector (desiredDeployment ad) = svc_Selector (desiredService ad) \<and>
   dep_Selector (desiredCanaryDeployment ad n) = svc_Selector (desiredCanaryService ad n)"
  by (auto simp: desiredService_def desiredDeployment_def desiredCanaryService_def desiredCanaryDeployment_def Let_def
      agentLabels_def canaryLabels_def)

text \<open>C31. A rollback does not last. An agent whose rollout failed, with the failed image still in its spec, is reconciled like one
  outside a rollout, so the next reconcile that returns has put the failed image into the stable Deployment, for all replicas and
  without a canary.\<close>

theorem failed_image_redeployed:
  assumes "kube_laws (adr_Client r) view" and "\<And>A. adr_Registrar r = Some A \<Longrightarrow> agent_registrar A isIn view"
    and "cl_ad (view s) (ad_Key ad) = Some ad" and "om_DeletionTimestamp (ad_Meta ad) = None"
    and "AgentDeploymentFinalizer \<in> set (om_Finalizers (ad_Meta ad))"
    and "status_Phase (ad_Status ad) = PhaseRolloutFailed" and "status_CanaryVersion (ad_Status ad) = spec_Image (ad_Spec ad)"
    and "Reconcile r (ad_Key ad) s = (Inr res, s')"
  shows "\<exists>d ct cts. cl_dep (view s') (ad_Key ad) = Some d \<and> dep_Containers d = ct # cts \<and> ct_Image ct = status_CanaryVersion (ad_Status ad)"
proof -
  let ?good = "\<lambda>s'. \<exists>d ct cts. cl_dep (view s') (ad_Key ad) = Some d \<and> dep_Containers d = ct # cts \<and> ct_Image ct = spec_Image (ad_Spec ad)"
  have branch: "\<not> isAbortRequested ad" "\<not> isCanaryTriggered ad"
    using assms(6,7) by (simp_all add: isAbortRequested_def isCanaryTriggered_def)
  have stable: "wp (reconcileStable r ad) (\<lambda>_ _. True) (\<lambda>_ s'. ?good s') s0" for s0
  proof (rule kube_laws.wp_reconcileStable [OF assms(1) refl assms(2)], goal_cases)
    case (2 res s')
    then show ?case
      using assms(6) by (auto simp: stableReconciled_def statusUpdated_def withChildren_def stableDeployment_def stableImage_def split: option.splits)
  qed simp_all
  have "wp (Reconcile r (ad_Key ad)) (\<lambda>_ _. True) (\<lambda>_ s'. ?good s') s"
    unfolding Reconcile_def wp_catchErr
  proof (rule kube_kind.wp_get [OF kube_laws.axioms(1) [OF assms(1)]], goal_cases)
    case (1 ad0 s0)
    with assms(3-7) branch stable show ?case
      by (simp add: ensureFinalizer_def kube_laws.contains_finalizer [OF assms(1)] wp_simps split: option.split)
  qed (use assms(3) in \<open>auto simp: wp_simps\<close>)
  with assms(7,8) show ?thesis by (auto dest: wp_Inr)
qed

text \<open>The ServiceMonitor of an agent selects the labels of its stable Service, and never those of its canary Service.\<close>

lemma servicemonitor_misses_canary:
  "selects (sm_Selector (desiredServiceMonitor ad)) (om_Labels (svc_Meta (desiredService ad))) \<and>
   \<not> selects (sm_Selector (desiredServiceMonitor ad)) (om_Labels (svc_Meta (desiredCanaryService ad n)))"
  by (simp add: desiredServiceMonitor_def desiredService_def desiredCanaryService_def Let_def agentLabels_def canaryLabels_def)

text \<open>Whatever the autoscaler chose, a reconcile sets the replicas of the Deployment back to the minimum of the spec.\<close>

lemma reconcile_undoes_autoscaling:
  "mutateDeployment K ad (desiredDeployment ad) existing = Inr d \<Longrightarrow> dep_Replicas d = Some (sp_Min (spec_Replicas (ad_Spec ad)))"
  by (auto simp: mutateDeployment_def desiredDeployment_def Let_def elim!: withOwner_Inr)

text \<open>A reconciler without a registrar.\<close>

definition sample_reconciler :: "mem AgentDeploymentReconciler" where
  "sample_reconciler = \<lparr>adr_Client = mem_kube, adr_GPUResourceName = DefaultGPUResourceName,
     adr_CanaryController = Some (sample_canary_controller ''0''), adr_Registrar = None, adr_MCPHealthInterval = 60 * Second,
     adr_hasServiceMonitorCRD = False\<rparr>"

lemma sample_reconciler_simps [simp]:
  "adr_Client sample_reconciler = mem_kube" "adr_Registrar sample_reconciler = None"
  by (simp_all add: sample_reconciler_def)

theorem reconcileStable_converges_witness:
  "case reconcileStable sample_reconciler sample_changed (sample_cluster sample_changed) of
     (Inl e, s') \<Rightarrow> False
   | (Inr res, s') \<Rightarrow> agentFrame sample_changed (mem_view (sample_cluster sample_changed)) (mem_view s') \<and>
       (\<exists>d. cl_dep (mem_view s') (ad_Key sample_changed) = Some d \<and> stableDeployment sample_changed d)"
proof -
  let ?r = "reconcileStable sample_reconciler sample_changed (sample_cluster sample_changed)"
  have "fst ?r = Inr (RequeueAfter (5 * Second))" by code_simp
  then obtain s' where r: "?r = (Inr (RequeueAfter (5 * Second)), s')" by (metis prod.collapse)
  have "case ?r of (Inl e, s') \<Rightarrow> True
     | (Inr res, s') \<Rightarrow> agentFrame sample_changed (mem_view (sample_cluster sample_changed)) (mem_view s') \<and>
       (\<exists>d. cl_dep (mem_view s') (ad_Key sample_changed) = Some d \<and> stableDeployment sample_changed d)"
    using reconcileStable_converges [where isIn = "\<lambda>_ _ _. True" and view = mem_view and r = sample_reconciler
        and ad = sample_changed and s = "sample_cluster sample_changed", OF _ _ sample_stored]
    by (auto simp: mem.kube_laws_axioms r)
  with r show ?thesis by simp
qed

definition sample_exposed :: AgentDeployment where
  "sample_exposed = sample_changed\<lparr>ad_Spec := (ad_Spec sample_changed)\<lparr>spec_MCP := (spec_MCP (ad_Spec sample_changed))\<lparr>mcp_Expose := True\<rparr>\<rparr>\<rparr>"


definition sample_failed :: AgentDeployment where
  "sample_failed = sample_changed\<lparr>ad_Meta := (ad_Meta sample_changed)\<lparr>om_Finalizers := [AgentDeploymentFinalizer]\<rparr>,
     ad_Status := (ad_Status sample_changed)\<lparr>status_Phase := PhaseRolloutFailed, status_CanaryVersion := ''img:v2''\<rparr>\<rparr>"

theorem failed_image_redeployed_witness:
  "\<exists>d ct cts. cl_dep (mem_view (snd (Reconcile sample_reconciler (ad_Key sample_failed) (sample_cluster sample_failed)))) (ad_Key sample_failed) = Some d \<and>
     dep_Containers d = ct # cts \<and> ct_Image ct = ''img:v2'' \<and> status_StableVersion (ad_Status sample_failed) = ''img:v1''"
proof -
  let ?r = "Reconcile sample_reconciler (ad_Key sample_failed) (sample_cluster sample_failed)"
  have "fst ?r = Inr (RequeueAfter (5 * Second))" by code_simp
  then have "?r = (Inr (RequeueAfter (5 * Second)), snd ?r)" by (simp add: prod_eq_iff)
  moreover have "status_CanaryVersion (ad_Status sample_failed) = ''img:v2''" "spec_Image (ad_Spec sample_failed) = ''img:v2''"
    "status_StableVersion (ad_Status sample_failed) = ''img:v1''" "status_Phase (ad_Status sample_failed) = PhaseRolloutFailed"
    "om_Finalizers (ad_Meta sample_failed) = [AgentDeploymentFinalizer]" "om_DeletionTimestamp (ad_Meta sample_failed) = None"
    by code_simp+
  ultimately show ?thesis
    using failed_image_redeployed [where isIn = "\<lambda>_ _ _. True" and view = mem_view and r = sample_reconciler
        and ad = sample_failed and s = "sample_cluster sample_failed" and s' = "snd ?r" and res = "RequeueAfter (5 * Second)"]
    by (simp add: mem.kube_laws_axioms sample_stored)
qed

end
