(* ===== verification/TQ_Controller.thy ===== *)
theory TQ_Controller
  imports Quota Kube_Store Float64
begin

text \<open>
  \<^verbatim>\<open>internal/controller/tenantquota_controller.go\<close>: the TenantQuota reconciler, which counts the
  agents of a tenant, releases their reservations and writes the usage and the \<open>OverQuota\<close>
  condition into the status. The state is what the process keeps, which is the enforcer it shares with the
  webhook and the gauge \<open>QuotaUsageRatio\<close> of \<^verbatim>\<open>internal/observability/metrics.go\<close>, and the state of the API
  client. The logs are left out.
\<close>

section \<open>The reconciler\<close>

record 's TenantQuotaReconciler =
  tqr_Client :: "'s kube"

text \<open>The gauge holds one value per label, until the label is deleted.\<close>

record quotaMemory =
  qm_Enforcer :: Enforcer
  qm_UsageRatio :: "string \<rightharpoonup> f64"

text \<open>A call that concerns only the memory of the process.\<close>

definition onMemory :: "(quotaMemory \<Rightarrow> quotaMemory) \<Rightarrow> (quotaMemory \<times> 's, unit) act" where
  "onMemory f = (\<lambda>(m, s). (Inr (), f m, s))"

definition DeleteLabelValues :: "string \<Rightarrow> quotaMemory \<Rightarrow> quotaMemory" where
  "DeleteLabelValues tenant m = m\<lparr>qm_UsageRatio := (qm_UsageRatio m)(tenant := None)\<rparr>"

definition SetUsageRatio :: "string \<Rightarrow> f64 \<Rightarrow> quotaMemory \<Rightarrow> quotaMemory" where
  "SetUsageRatio tenant x m = m\<lparr>qm_UsageRatio := (qm_UsageRatio m)(tenant \<mapsto> x)\<rparr>"

definition usageRatio :: "TenantQuotaStatus \<Rightarrow> TenantQuotaSpec \<Rightarrow> f64" where
  "usageRatio usage q =
    (if 0 <s tq_MaxTotalReplicas q then f64_quot (f64_of_int32 (tq_UsedTotalReplicas usage)) (of_int (sint (tq_MaxTotalReplicas q)))
     else Fin 0)"

definition referencing :: "TenantQuota \<Rightarrow> AgentDeployment list \<Rightarrow> AgentDeployment list" where
  "referencing tq ads = filter (\<lambda>ad. spec_TenantRef (ad_Spec ad) = om_Name (tq_Meta tq)) ads"

definition releaseAll :: "AgentDeployment list \<Rightarrow> Enforcer \<Rightarrow> Enforcer" where
  "releaseAll ads e = foldl (\<lambda>e ad. Release (ad_Namespace ad @ ''/'' @ ad_Name ad) e) e ads"

definition usageStatus :: "(Quantity \<Rightarrow> int64) \<Rightarrow> 's kube \<Rightarrow> Enforcer \<Rightarrow> TenantQuotaStatus \<Rightarrow> TenantQuota \<Rightarrow> TenantQuota" where
  "usageStatus qv K e usage latest =
    (let st = (tq_Status latest)\<lparr>tq_UsedAgents := tq_UsedAgents usage, tq_UsedGPUs := tq_UsedGPUs usage,
           tq_UsedTotalReplicas := tq_UsedTotalReplicas usage\<rparr>
     in case IsOverQuota (tq_Spec latest) usage of
          (over, overMsg) \<Rightarrow> latest\<lparr>tq_Status := st\<lparr>tq_Conditions :=
            (if over then k_SetStatusCondition K (tq_Conditions st)
               \<lparr>cond_Type = ConditionOverQuota, cond_Status = ConditionTrue, cond_Reason = ''UsageExceedsQuota'',
                cond_Message = overMsg, cond_ObservedGeneration = om_Generation (tq_Meta latest)\<rparr>
             else k_RemoveStatusCondition K (tq_Conditions st) ConditionOverQuota)\<rparr>\<rparr>)"

definition writeUsage :: "(Quantity \<Rightarrow> int64) \<Rightarrow> 's kube \<Rightarrow> NamespacedName \<Rightarrow> AgentDeploymentSpec list \<Rightarrow> (quotaMemory \<times> 's, Result) act" where
  "writeUsage qv K k specs = (\<lambda>(m, s).
    (let e = qm_Enforcer m; usage = ComputeUsage qv e specs in
     catchErr (onKube (r_Get (k_tq K) k))
       (\<lambda>err. if IsNotFound err then andThen (onMemory (DeleteLabelValues (nn_Namespace k))) (\<lambda>_. ret NoRequeue)
         else fail (Errorf ''re-fetching TenantQuota for status update: '' [err]))
       (\<lambda>latest.
         andThen (onMemory (SetUsageRatio (om_Namespace (tq_Meta latest)) (usageRatio usage (tq_Spec latest)))) (\<lambda>_.
         let new = usageStatus qv K e usage latest in
         andThen (if k_EqualTQStatus K (tq_Status latest) (tq_Status new) then ret ()
             else andThen (wrapErr ''updating TenantQuota status: '' (onKube (r_StatusUpdate (k_tq K) new))) (\<lambda>_. ret ())) (\<lambda>_.
         ret (RequeueAfter (5 * Minute)))))) (m, s))"

definition ReconcileQuota :: "(Quantity \<Rightarrow> int64) \<Rightarrow> 's TenantQuotaReconciler \<Rightarrow> NamespacedName \<Rightarrow> (quotaMemory \<times> 's, Result) act" where
  "ReconcileQuota qv r k =
    (let K = tqr_Client r in
     catchErr (onKube (r_Get (k_tq K) k))
       (\<lambda>err. if IsNotFound err then andThen (onMemory (DeleteLabelValues (nn_Namespace k))) (\<lambda>_. ret NoRequeue)
         else fail (Errorf ''fetching TenantQuota: '' [err]))
       (\<lambda>tq.
         andThen (wrapErr ''listing AgentDeployments: '' (onKube (r_List (k_ad K) (om_Namespace (tq_Meta tq))))) (\<lambda>adList.
         andThen (onMemory (\<lambda>m. m\<lparr>qm_Enforcer := releaseAll (referencing tq adList) (qm_Enforcer m)\<rparr>)) (\<lambda>_.
         writeUsage qv K k (map ad_Spec (referencing tq adList))))))"

section \<open>What a reconcile leaves\<close>

lemma wp_onMemory [wp_simps]: "wp (onMemory f) E Q (m, s) = Q () (f m, s)"
  by (simp add: wp_def onMemory_def)

text \<open>The agents of a tenant: those of its namespace that name it.\<close>

definition tenantAgents :: "cluster \<Rightarrow> TenantQuota \<Rightarrow> AgentDeployment set" where
  "tenantAgents v tq = {ad. ad_Namespace ad = om_Namespace (tq_Meta tq) \<and> cl_ad v (ad_Key ad) = Some ad \<and>
     spec_TenantRef (ad_Spec ad) = om_Name (tq_Meta tq)}"

text \<open>The status \<open>st\<close> reports the usage of the agents \<open>ads\<close> against the ceilings \<open>q\<close>. The sums are those of
  \<open>int32\<close>.\<close>

definition reportsUsage :: "(Quantity \<Rightarrow> int64) \<Rightarrow> Enforcer \<Rightarrow> AgentDeployment set \<Rightarrow> TenantQuotaSpec \<Rightarrow> TenantQuotaStatus \<Rightarrow> bool" where
  "reportsUsage qv e ads q st \<longleftrightarrow> (\<forall>d. usedDim d st = (\<Sum>ad \<in> ads. usageOf qv e d (ad_Spec ad))) \<and>
     (findCondition (tq_Conditions st) ConditionOverQuota \<noteq> None \<longleftrightarrow> (\<exists>d. sint (maxDim d q) < sint (usedDim d st)))"

lemma reservations_releaseAll:
  "releaseAll ads e = e\<lparr>reservations := filter (\<lambda>(k, v). k \<notin> (\<lambda>ad. ad_Namespace ad @ ''/'' @ ad_Name ad) ` set ads) (reservations e)\<rparr>"
proof (induction ads arbitrary: e)
  case (Cons ad ads)
  have "releaseAll (ad # ads) e = releaseAll ads (Release (ad_Namespace ad @ ''/'' @ ad_Name ad) e)"
    by (simp add: releaseAll_def)
  then show ?case
    unfolding Cons.IH by (simp add: Release_eq_filter split_beta')
qed (simp add: releaseAll_def)

lemma usageOf_releaseAll [simp]: "usageOf qv (releaseAll ads e) = usageOf qv e"
proof -
  have "gpuResourceName (releaseAll ads e) = gpuResourceName e"
    by (simp add: reservations_releaseAll)
  then show ?thesis
    by (auto simp: fun_eq_iff usageOf_def computeDelta_def gpusForAD_def extractGPUs_def)
qed

lemma usedDim_sum:
  assumes "distinct (map (metaKey \<circ> ad_Meta) ads)" and "set ads = A"
  shows "usedDim d (ComputeUsage qv e (map ad_Spec ads)) = (\<Sum>ad \<in> A. usageOf qv e d (ad_Spec ad))"
  using assms by (auto simp: usedDim_ComputeUsage sum.distinct_set_conv_list distinct_map comp_def)

lemma usedDim_update [simp]:
  "usedDim d (st\<lparr>tq_UsedAgents := tq_UsedAgents u, tq_UsedGPUs := tq_UsedGPUs u, tq_UsedTotalReplicas := tq_UsedTotalReplicas u\<rparr>) = usedDim d u"
  "usedDim d (st\<lparr>tq_Conditions := cs\<rparr>) = usedDim d st"
  by (cases d; simp)+

lemma usageStatus_simps [simp]:
  "tq_Meta (usageStatus qv K e u latest) = tq_Meta latest" "tq_Spec (usageStatus qv K e u latest) = tq_Spec latest"
  by (simp_all add: usageStatus_def Let_def split: prod.splits)

lemma wp_withState: "wp (\<lambda>(e, s). f e s) E Q (e, s) = wp (\<lambda>_. f e s) E Q (e, s)" "wp (\<lambda>_. m st) E Q st = wp m E Q st"
  by (simp_all add: wp_def)

context kube_laws
begin

lemma usageStatus_reports:
  assumes "\<And>d. usedDim d usage = (\<Sum>ad \<in> ads. usageOf qv e d (ad_Spec ad))"
  shows "reportsUsage qv e ads (tq_Spec latest) (tq_Status (usageStatus qv K e' usage latest))"
  using assms IsOverQuota_iff [of "tq_Spec latest" usage]
  by (auto simp: reportsUsage_def usageStatus_def Let_def set_condition remove_condition split: prod.splits)

end

text \<open>The outcome of a reconcile of the TenantQuota at \<open>k\<close>, from \<open>(m, v)\<close> to \<open>(m', v')\<close>.\<close>

definition quotaReconciled :: "(Quantity \<Rightarrow> int64) \<Rightarrow> NamespacedName \<Rightarrow> Result \<Rightarrow> quotaMemory \<Rightarrow> cluster \<Rightarrow> quotaMemory \<Rightarrow> cluster \<Rightarrow> bool" where
  "quotaReconciled qv k res m v m' v' \<longleftrightarrow> (case cl_tq v k of
     None \<Rightarrow> res = NoRequeue \<and> m' = DeleteLabelValues (nn_Namespace k) m \<and> v' = v
   | Some tq \<Rightarrow> res = RequeueAfter (5 * Minute) \<and>
       reservations (qm_Enforcer m') =
         filter (\<lambda>(key, r). key \<notin> (\<lambda>ad. ad_Namespace ad @ ''/'' @ ad_Name ad) ` tenantAgents v tq) (reservations (qm_Enforcer m)) \<and>
       gpuResourceName (qm_Enforcer m') = gpuResourceName (qm_Enforcer m) \<and>
       (\<exists>tq'. v' = cl_tq_update (\<lambda>tqs. tqs(k \<mapsto> tq')) v \<and> tq_Spec tq' = tq_Spec tq \<and>
         reportsUsage qv (qm_Enforcer m) (tenantAgents v tq) (tq_Spec tq) (tq_Status tq') \<and>
         qm_UsageRatio m' = (qm_UsageRatio m)(nn_Namespace k \<mapsto> usageRatio (tq_Status tq') (tq_Spec tq))))"

lemma usageRatio_status: "usageRatio (tq_Status (usageStatus qv K e usage latest)) q = usageRatio usage q"
  by (simp add: usageRatio_def usageStatus_def Let_def split: prod.splits)

context kube_laws
begin

lemma wp_writeUsage:
  assumes "cl_tq (view s) k = Some tq"
    and "\<And>d. usedDim d (ComputeUsage qv (qm_Enforcer m) specs) = (\<Sum>ad \<in> ads. usageOf qv held d (ad_Spec ad))"
    and "\<And>tq' s'. view s' = cl_tq_update (\<lambda>tqs. tqs(k \<mapsto> tq')) (view s) \<Longrightarrow> tq_Spec tq' = tq_Spec tq \<Longrightarrow>
      reportsUsage qv held ads (tq_Spec tq) (tq_Status tq') \<Longrightarrow>
      Q (RequeueAfter (5 * Minute)) (SetUsageRatio (nn_Namespace k) (usageRatio (tq_Status tq') (tq_Spec tq)) m, s')"
    and "\<And>err m' s'. view s' = view s \<Longrightarrow> E err (m', s')"
  shows "wp (writeUsage qv K k specs) E Q (m, s)"
  unfolding writeUsage_def wp_withState Let_def wp_simps
proof (rule tqs.wp_get, goal_cases)
  case (1 latest s')
  let ?usage = "ComputeUsage qv (qm_Enforcer m) specs"
  let ?new = "usageStatus qv K (qm_Enforcer m) ?usage latest"
  let ?m = "SetUsageRatio (om_Namespace (tq_Meta latest)) (usageRatio ?usage (tq_Spec latest)) m"
  have new: "reportsUsage qv held ads (tq_Spec tq) (tq_Status ?new)"
    using 1 assms(1,2) usageStatus_reports [where usage = ?usage and latest = latest and e = held and e' = "qm_Enforcer m"] by simp
  have spec: "tq_Spec latest = tq_Spec tq"
    using 1 assms(1) by simp
  have ns: "om_Namespace (tq_Meta latest) = nn_Namespace k"
    using \<open>metaKey (tq_Meta latest) = k\<close> unfolding metaKey_def by (metis NamespacedName.select_convs(1))
  have m: "?m = SetUsageRatio (nn_Namespace k) (usageRatio st (tq_Spec tq)) m" if "st = tq_Status ?new" for st
    using that by (simp add: ns spec usageRatio_status)
  have "Q (RequeueAfter (5 * Minute)) (?m, s')" if "tq_Status latest = tq_Status ?new"
    unfolding m [OF that] using 1 assms(1) new that by (intro assms(3) [of s' latest]) (simp_all add: fun_upd_idem)
  moreover have "wp (r_StatusUpdate (k_tq K) ?new) (\<lambda>err s'. E (Errorf msg [err]) (?m, s')) (\<lambda>_ s'. Q (RequeueAfter (5 * Minute)) (?m, s')) s'" for msg
  proof (rule tqs.wp_status, goal_cases)
    case (1 tq' old s'')
    then have "tq_Status tq' = tq_Status ?new" by simp
    with 1 \<open>view s' = view s\<close> \<open>metaKey (tq_Meta latest) = k\<close> assms(1) new show ?case
      unfolding m [OF \<open>tq_Status tq' = tq_Status ?new\<close>] by (intro assms(3) [of s'' tq']) auto
  qed (use 1 in \<open>auto intro: assms(4)\<close>)
  ultimately show ?case
    by (simp add: wp_simps equal_tq)
next
  case (2 err s')
  with assms(1,4) show ?case by (auto simp: wp_simps)
qed

end

context kube_laws
begin

lemma wp_ReconcileQuota:
  assumes "tqr_Client r = K"
  shows "wp (ReconcileQuota qv r k) (\<lambda>_ (m', s'). view s' = view s)
    (\<lambda>res (m', s'). quotaReconciled qv k res m (view s) m' (view s')) (m, s)"
  unfolding ReconcileQuota_def Let_def assms wp_simps
proof (rule tqs.wp_get, goal_cases)
  case (1 tq s1)
  note s1 = 1
  show ?case
    unfolding wp_simps
  proof (rule ads.wp_list, goal_cases)
    case (1 adList s2)
    have agents: "set (referencing tq adList) = tenantAgents (view s) tq"
      using 1(3) s1(1) by (auto simp: referencing_def tenantAgents_def metaKey_def)
    have "distinct (map (metaKey \<circ> ad_Meta) (referencing tq adList))"
      using 1(2) by (simp add: referencing_def distinct_map_filter)
    note usage = usedDim_sum [OF this agents, of _ qv "releaseAll (referencing tq adList) (qm_Enforcer m)", unfolded usageOf_releaseAll]
    show ?case
      unfolding wp_simps
      by (rule wp_writeUsage [where tq = tq and held = "qm_Enforcer m" and ads = "tenantAgents (view s) tq"])
        (use 1 s1 agents usage in \<open>auto simp: quotaReconciled_def reservations_releaseAll SetUsageRatio_def\<close>)
  qed (use s1 in simp)
next
  case (2 err s1)
  then show ?case by (auto simp: wp_simps quotaReconciled_def)
qed

end

text \<open>The gauge is labelled with the namespace alone. Two TenantQuotas of one namespace write the same series, and when one of them is
  deleted the series goes, though the other tenant is still there.\<close>

lemma deleted_quota_erases_ratio:
  assumes "cl_tq v \<lparr>nn_Namespace = ns, nn_Name = gone\<rparr> = None" and "quotaReconciled qv \<lparr>nn_Namespace = ns, nn_Name = gone\<rparr> res m v m' v'"
  shows "qm_UsageRatio m' ns = None"
  using assms by (simp add: quotaReconciled_def DeleteLabelValues_def)

text \<open>C16. A reconcile of a TenantQuota that succeeds has written the usage of exactly the agents of the
  tenant that exist, each counted once, and the \<open>OverQuota\<close> condition exactly when a ceiling is passed; it has
  released exactly those agents' reservations, set the usage ratio of the namespace, and changed nothing else. For a
  missing TenantQuota only the ratio of the namespace is removed. A reconcile that fails has written nothing to the cluster.\<close>

theorem ReconcileQuota_reports_usage:
  assumes "kube_laws (tqr_Client r) view" and "ReconcileQuota qv r k (m, s) = (out, m', s')"
  shows "case out of Inl err \<Rightarrow> view s' = view s | Inr res \<Rightarrow> quotaReconciled qv k res m (view s) m' (view s')"
  using kube_laws.wp_ReconcileQuota [OF assms(1) refl, of qv k s m] assms(2)
  by (auto simp: wp_def split: sum.splits)

text \<open>A tenant with two agents, of which one still holds a reservation, and an agent of another tenant.\<close>

definition sample_member :: "string \<Rightarrow> string \<Rightarrow> int32 \<Rightarrow> AgentDeployment" where
  "sample_member name tenant n =
    \<lparr>ad_Meta = zero_ObjectMeta\<lparr>om_Name := name, om_Namespace := ''ns''\<rparr>, ad_Spec = sample_spec tenant ''1'' n, ad_Status = zero_AgentDeploymentStatus\<rparr>"

definition sample_tenant :: TenantQuota where
  "sample_tenant = (zero_TenantQuota \<lparr>nn_Namespace = ''ns'', nn_Name = ''t''\<rparr>)\<lparr>tq_Spec := sample_quota 5 4 9\<rparr>"

definition sample_tenant_cluster :: mem where
  "sample_tenant_cluster = empty_mem\<lparr>m_tq := [sample_tenant], m_ad := [sample_member ''a'' ''t'' 2, sample_member ''b'' ''u'' 7, sample_member ''c'' ''t'' 3]\<rparr>"

definition sample_held :: quotaMemory where
  "sample_held = \<lparr>qm_Enforcer = reserve sample_value 0 ''ns/a'' (sample_spec ''t'' ''1'' 2) None Second
     (reserve sample_value 0 ''ns/b'' (sample_spec ''u'' ''1'' 7) None Second (NewEnforcer [])), qm_UsageRatio = \<lambda>_. None\<rparr>"

theorem ReconcileQuota_reports_usage_witness:
  "case ReconcileQuota sample_value \<lparr>tqr_Client = mem_kube\<rparr> \<lparr>nn_Namespace = ''ns'', nn_Name = ''t''\<rparr> (sample_held, sample_tenant_cluster) of
     (out, m', s') \<Rightarrow> out = Inr (RequeueAfter (5 * Minute)) \<and> map fst (reservations (qm_Enforcer m')) = [''ns/b''] \<and>
       quotaReconciled sample_value \<lparr>nn_Namespace = ''ns'', nn_Name = ''t''\<rparr> (RequeueAfter (5 * Minute)) sample_held
         (mem_view sample_tenant_cluster) m' (mem_view s') \<and>
       map (tq_UsedTotalReplicas \<circ> tq_Status) (m_tq s') = [5]"
proof -
  let ?r = "ReconcileQuota sample_value \<lparr>tqr_Client = mem_kube\<rparr> \<lparr>nn_Namespace = ''ns'', nn_Name = ''t''\<rparr> (sample_held, sample_tenant_cluster)"
  have "case ?r of (out, m', s') \<Rightarrow> out = Inr (RequeueAfter (5 * Minute)) \<and> map fst (reservations (qm_Enforcer m')) = [''ns/b''] \<and>
      map (tq_UsedTotalReplicas \<circ> tq_Status) (m_tq s') = [5]"
    by code_simp
  moreover have "case fst ?r of Inl err \<Rightarrow> mem_view (snd (snd ?r)) = mem_view sample_tenant_cluster
    | Inr res \<Rightarrow> quotaReconciled sample_value \<lparr>nn_Namespace = ''ns'', nn_Name = ''t''\<rparr> res sample_held
        (mem_view sample_tenant_cluster) (fst (snd ?r)) (mem_view (snd (snd ?r)))"
    by (rule ReconcileQuota_reports_usage) (simp_all add: mem.kube_laws_axioms)
  ultimately show ?thesis by (simp add: split_beta)
qed

end
