(* ===== verification/Webhook.thy ===== *)
theory Webhook
  imports Quota Float64 Kube_Store
begin

text \<open>
  \<^verbatim>\<open>internal/webhook/agentdeployment_webhook.go\<close>: the defaults and the validation of an
  AgentDeployment at admission. A \<open>runtime.Object\<close> is an AgentDeployment, or the name of another Go
  type (\<open>Inl\<close>). The state is the shared quota enforcer and the state of the API reader; the clock is
  read once per request. \<open>dryRun\<close> is what the admission request in the context says: \<open>None\<close> when there
  is no request, \<open>Some None\<close> for a nil pointer. Latencies and logs are left out, and so is the value
  that a field error quotes besides its path and its text.
\<close>

section \<open>Field errors and outcomes\<close>

datatype pathElem = Child string | Index nat

datatype fieldErrorType = FieldInvalid | FieldRequired | FieldForbidden | FieldInternal

record fieldError =
  fe_Type :: fieldErrorType
  fe_Path :: "pathElem list"
  fe_Detail :: string

definition fieldErr :: "fieldErrorType \<Rightarrow> pathElem list \<Rightarrow> string \<Rightarrow> fieldError" where
  "fieldErr t p d = \<lparr>fe_Type = t, fe_Path = p, fe_Detail = d\<rparr>"

datatype admission =
    Allowed
  | DeniedInvalid string "fieldError list"
  | DeniedForbidden string string
  | WrongObject string

type_synonym runtimeObject = "string + AgentDeployment"

definition reservationTTL :: duration where
  "reservationTTL = 5 * Second"

section \<open>Defaults\<close>

definition isZeroResources :: "ResourceRequirements \<Rightarrow> bool" where
  "isZeroResources r \<longleftrightarrow> length (res_Requests r) = 0 \<and> length (res_Limits r) = 0"

definition defaultResources :: ResourceRequirements where
  "defaultResources =
    \<lparr>res_Requests = [(''cpu'', ''100m''), (''memory'', ''128Mi'')],
     res_Limits = [(''cpu'', ''500m''), (''memory'', ''512Mi'')]\<rparr>"

definition defaultSpec :: "AgentDeploymentSpec \<Rightarrow> AgentDeploymentSpec" where
  "defaultSpec spec =
    (let s1 = (if spec_Port spec = 0 then spec\<lparr>spec_Port := 8080\<rparr> else spec);
         s2 = (if ro_Strategy (spec_Rollout s1) = [] then s1\<lparr>spec_Rollout := (spec_Rollout s1)\<lparr>ro_Strategy := ''Recreate''\<rparr>\<rparr> else s1)
     in if isZeroResources (spec_Resources s2) then s2\<lparr>spec_Resources := defaultResources\<rparr> else s2)"

definition Default :: "runtimeObject \<Rightarrow> goerr + AgentDeployment" where
  "Default obj = (case obj of
     Inl goType \<Rightarrow> Inl (ErrNew (''expected AgentDeployment, got '' @ goType))
   | Inr ad \<Rightarrow> Inr (ad\<lparr>ad_Spec := defaultSpec (ad_Spec ad)\<rparr>))"

section \<open>Tool names\<close>

text \<open>\<open>strings.TrimSpace\<close> removes the runes of \<open>unicode.IsSpace\<close>; \<open>dropSpaceRune\<close> drops one such rune,
  as encoded in UTF-8, from the front of a string.\<close>

definition asciiSpace :: "char \<Rightarrow> bool" where
  "asciiSpace c \<longleftrightarrow> c \<in> {CHR 0x09, CHR 0x0A, CHR 0x0B, CHR 0x0C, CHR 0x0D, CHR 0x20}"

definition spaceRune2 :: "char \<Rightarrow> char \<Rightarrow> bool" where
  "spaceRune2 a b \<longleftrightarrow> a = CHR 0xC2 \<and> b \<in> {CHR 0x85, CHR 0xA0}"

definition spaceRune3 :: "char \<Rightarrow> char \<Rightarrow> char \<Rightarrow> bool" where
  "spaceRune3 a b c \<longleftrightarrow>
     a = CHR 0xE1 \<and> b = CHR 0x9A \<and> c = CHR 0x80 \<or>
     a = CHR 0xE2 \<and> b = CHR 0x80 \<and> (128 \<le> (of_char c :: nat) \<and> (of_char c :: nat) \<le> 138 \<or> c \<in> {CHR 0xA8, CHR 0xA9, CHR 0xAF}) \<or>
     a = CHR 0xE2 \<and> b = CHR 0x81 \<and> c = CHR 0x9F \<or>
     a = CHR 0xE3 \<and> b = CHR 0x80 \<and> c = CHR 0x80"

fun isBlank :: "string \<Rightarrow> bool" where
  "isBlank [] \<longleftrightarrow> True"
| "isBlank [a] \<longleftrightarrow> asciiSpace a"
| "isBlank [a, b] \<longleftrightarrow> asciiSpace a \<and> asciiSpace b \<or> spaceRune2 a b"
| "isBlank (a # b # c # cs) \<longleftrightarrow>
    (if asciiSpace a then isBlank (b # c # cs)
     else if spaceRune2 a b then isBlank (c # cs)
     else if spaceRune3 a b c then isBlank cs
     else False)"

fun toolErrors :: "pathElem list \<Rightarrow> nat \<Rightarrow> string list \<Rightarrow> string list \<Rightarrow> fieldError list" where
  "toolErrors fldPath i seen [] = []"
| "toolErrors fldPath i seen (t # ts) =
    (if isBlank t then [fieldErr FieldInvalid (fldPath @ [Index i]) ''tool name must not be empty''] else []) @
    (if t \<in> set seen then [fieldErr FieldInvalid (fldPath @ [Index i]) (''duplicate tool name '' @ show_quoted t)] else []) @
    toolErrors fldPath (Suc i) (t # seen) ts"

definition validateMCPTools :: "pathElem list \<Rightarrow> string list \<Rightarrow> fieldError list" where
  "validateMCPTools fldPath tools = toolErrors fldPath 0 [] tools"

section \<open>Canary rules\<close>

definition exactlyOne :: "CanaryStep \<Rightarrow> bool" where
  "exactlyOne step \<longleftrightarrow>
    \<not> ((cs_SetWeight step \<noteq> None \<and> cs_Pause step \<noteq> None) \<or> (cs_SetWeight step = None \<and> cs_Pause step = None))"

definition stepErrors :: "pathElem list \<Rightarrow> CanaryStep list \<Rightarrow> fieldError list" where
  "stepErrors rolloutPath steps =
    map (\<lambda>(i, step). fieldErr FieldInvalid (rolloutPath @ [Child ''steps'', Index i]) ''exactly one of setWeight or pause must be set per step'')
      (filter (\<lambda>(i, step). \<not> exactlyOne step) (enumerate 0 steps)) @
    (if list_ex (\<lambda>step. cs_SetWeight step = Some 100) steps then []
     else [fieldErr FieldInvalid (rolloutPath @ [Child ''steps'']) ''canary steps must include at least one setWeight: 100 for full promotion''])"

definition validateCanarySpec :: "AgentDeployment \<Rightarrow> fieldError list" where
  "validateCanarySpec ad =
    (let rolloutPath = [Child ''spec'', Child ''rollout'']; steps = ro_Steps (spec_Rollout (ad_Spec ad));
         rb = ro_Rollback (spec_Rollout (ad_Spec ad)); rollbackPath = rolloutPath @ [Child ''rollback'']
     in (if length steps = 0 then
           [fieldErr FieldRequired (rolloutPath @ [Child ''steps'']) ''at least one step is required when strategy is Canary'']
         else stepErrors rolloutPath steps) @
        (if rb_MaxErrorRate rb = [] then
           [fieldErr FieldRequired (rollbackPath @ [Child ''maxErrorRate'']) ''required when strategy is Canary'']
         else (case ParseErrorRate (rb_MaxErrorRate rb) of
             Inl err \<Rightarrow> [fieldErr FieldInvalid (rollbackPath @ [Child ''maxErrorRate'']) (err_text err)]
           | Inr _ \<Rightarrow> [])) @
        (if rb_MaxP99LatencyMs rb = 0 then
           [fieldErr FieldRequired (rollbackPath @ [Child ''maxP99LatencyMs'']) ''required when strategy is Canary''] else []) @
        (if rb_MinRequestSample rb = 0 then
           [fieldErr FieldRequired (rollbackPath @ [Child ''minRequestSample''])
             ''required when strategy is Canary; must be > 0 to prevent false positives at low traffic''] else []))"

section \<open>Validation\<close>

record 's AgentDeploymentCustomValidator =
  av_Client :: "'s kube"

text \<open>The rules that need no quota, once the TenantQuota was found.\<close>

definition specErrors :: "AgentDeployment \<Rightarrow> fieldError list" where
  "specErrors ad =
    (let specPath = [Child ''spec'']; replicas = spec_Replicas (ad_Spec ad) in
     (if sp_Max replicas <s sp_Min replicas then
        [fieldErr FieldInvalid (specPath @ [Child ''replicas'', Child ''min''])
          (''must be '' @ [CHR 0xE2, CHR 0x89, CHR 0xA4] @ '' spec.replicas.max ('' @ show_int32 (sp_Max replicas) @ '')'')]
      else []) @
     (if ro_Strategy (spec_Rollout (ad_Spec ad)) = ''Canary'' then validateCanarySpec ad else []) @
     (if 0 < length (mcp_Tools (spec_MCP (ad_Spec ad))) then
        validateMCPTools (specPath @ [Child ''mcp'', Child ''tools'']) (mcp_Tools (spec_MCP (ad_Spec ad)))
      else []))"

definition admissionKey :: "AgentDeployment \<Rightarrow> string" where
  "admissionKey ad = ad_Namespace ad @ ''/'' @ ad_Name ad"

definition quotaErrors :: "(Quantity \<Rightarrow> int64) \<Rightarrow> time \<Rightarrow> bool option option \<Rightarrow> TenantQuota \<Rightarrow> AgentDeployment \<Rightarrow>
    AgentDeploymentSpec option \<Rightarrow> Enforcer \<Rightarrow> fieldError list \<times> Enforcer" where
  "quotaErrors qv now dryRun tq ad oldSpec e =
    (let decide = (\<lambda>(ok, reason). if ok then [] else [fieldErr FieldForbidden [Child ''spec''] (''quota exceeded: '' @ reason)])
     in if dryRun = Some (Some True) then
          (decide (CanAdmit qv now e (admissionKey ad) (tq_Spec tq) (tq_Status tq) (ad_Spec ad) oldSpec), e)
        else (case AdmitAndReserve qv now (admissionKey ad) (tq_Spec tq) (tq_Status tq) (ad_Spec ad) oldSpec reservationTTL e of
          (verdict, e') \<Rightarrow> (decide verdict, e')))"

definition validateSpec :: "(Quantity \<Rightarrow> int64) \<Rightarrow> 's AgentDeploymentCustomValidator \<Rightarrow> time \<Rightarrow> bool option option \<Rightarrow>
    AgentDeployment \<Rightarrow> AgentDeploymentSpec option \<Rightarrow> Enforcer \<times> 's \<Rightarrow> fieldError list \<times> Enforcer \<times> 's" where
  "validateSpec qv v now dryRun ad oldSpec = (\<lambda>(e, s).
    case r_Get (k_tq (av_Client v)) \<lparr>nn_Namespace = ad_Namespace ad, nn_Name = spec_TenantRef (ad_Spec ad)\<rparr> s of
      (Inl err, s') \<Rightarrow>
        ([if IsNotFound err then fieldErr FieldInvalid [Child ''spec'', Child ''tenantRef'']
            (''TenantQuota '' @ show_quoted (spec_TenantRef (ad_Spec ad)) @ '' not found in namespace '' @ show_quoted (ad_Namespace ad))
          else fieldErr FieldInternal [Child ''spec'', Child ''tenantRef''] (err_text err)], e, s')
    | (Inr tq, s') \<Rightarrow>
        (let errs = specErrors ad in
         if length errs = 0 then (case quotaErrors qv now dryRun tq ad oldSpec e of (qerrs, e') \<Rightarrow> (qerrs, e', s'))
         else (errs, e, s')))"

definition verdict :: "AgentDeployment \<Rightarrow> fieldError list \<Rightarrow> admission" where
  "verdict ad allErrs = (if 0 < length allErrs then DeniedInvalid (ad_Name ad) allErrs else Allowed)"

definition ValidateCreate :: "(Quantity \<Rightarrow> int64) \<Rightarrow> 's AgentDeploymentCustomValidator \<Rightarrow> time \<Rightarrow> bool option option \<Rightarrow>
    runtimeObject \<Rightarrow> Enforcer \<times> 's \<Rightarrow> admission \<times> Enforcer \<times> 's" where
  "ValidateCreate qv v now dryRun obj st = (case obj of
     Inl goType \<Rightarrow> (WrongObject (''expected AgentDeployment, got '' @ goType), st)
   | Inr ad \<Rightarrow> (case validateSpec qv v now dryRun ad None st of (allErrs, st') \<Rightarrow> (verdict ad allErrs, st')))"

definition ValidateUpdate :: "(Quantity \<Rightarrow> int64) \<Rightarrow> 's AgentDeploymentCustomValidator \<Rightarrow> time \<Rightarrow> bool option option \<Rightarrow>
    runtimeObject \<Rightarrow> runtimeObject \<Rightarrow> Enforcer \<times> 's \<Rightarrow> admission \<times> Enforcer \<times> 's" where
  "ValidateUpdate qv v now dryRun oldObj newObj st = (case newObj of
     Inl goType \<Rightarrow> (WrongObject (''expected AgentDeployment, got '' @ goType), st)
   | Inr ad \<Rightarrow> (case oldObj of
       Inl goType \<Rightarrow> (WrongObject (''expected old AgentDeployment, got '' @ goType), st)
     | Inr oldAD \<Rightarrow>
         if om_DeletionTimestamp (ad_Meta ad) \<noteq> None then (Allowed, st)
         else if spec_Image (ad_Spec oldAD) \<noteq> spec_Image (ad_Spec ad) \<and> status_Phase (ad_Status oldAD) = PhaseRolloutInProgress then
           (DeniedForbidden (ad_Name ad) ''image update rejected: a rollout is already in progress (status.phase=RolloutInProgress)'', st)
         else (case validateSpec qv v now dryRun ad (Some (ad_Spec oldAD)) st of (allErrs, st') \<Rightarrow> (verdict ad allErrs, st'))))"

definition ValidateDelete :: "runtimeObject \<Rightarrow> admission" where
  "ValidateDelete obj = Allowed"

section \<open>What admission guarantees\<close>

text \<open>The rules of the documentation for a spec, as predicates.\<close>

definition wellFormedSteps :: "CanaryStep list \<Rightarrow> bool" where
  "wellFormedSteps steps \<longleftrightarrow> steps \<noteq> [] \<and> (\<forall>step \<in> set steps. (cs_SetWeight step = None) \<noteq> (cs_Pause step = None)) \<and>
     (\<exists>step \<in> set steps. cs_SetWeight step = Some 100)"

definition wellFormedRollback :: "RollbackPolicy \<Rightarrow> bool" where
  "wellFormedRollback rb \<longleftrightarrow> rb_MaxErrorRate rb \<noteq> [] \<and> (\<exists>rate. ParseErrorRate (rb_MaxErrorRate rb) = Inr rate) \<and>
     rb_MaxP99LatencyMs rb \<noteq> 0 \<and> rb_MinRequestSample rb \<noteq> 0"

definition wellFormedSpec :: "AgentDeploymentSpec \<Rightarrow> bool" where
  "wellFormedSpec spec \<longleftrightarrow>
     sint (sp_Min (spec_Replicas spec)) \<le> sint (sp_Max (spec_Replicas spec)) \<and>
     (ro_Strategy (spec_Rollout spec) = ''Canary'' \<longrightarrow>
       wellFormedSteps (ro_Steps (spec_Rollout spec)) \<and> wellFormedRollback (ro_Rollback (spec_Rollout spec))) \<and>
     distinct (mcp_Tools (spec_MCP spec)) \<and> (\<forall>t \<in> set (mcp_Tools (spec_MCP spec)). \<not> isBlank t)"

lemma toolErrors_Nil_iff:
  "toolErrors p i seen ts = [] \<longleftrightarrow> distinct ts \<and> set ts \<inter> set seen = {} \<and> (\<forall>t \<in> set ts. \<not> isBlank t)"
  by (induction p i seen ts rule: toolErrors.induct) auto

lemma stepErrors_Nil_iff:
  "stepErrors p steps = [] \<longleftrightarrow> (\<forall>step \<in> set steps. (cs_SetWeight step = None) \<noteq> (cs_Pause step = None)) \<and>
     (\<exists>step \<in> set steps. cs_SetWeight step = Some 100)"
proof -
  have "filter (\<lambda>(i, step). \<not> exactlyOne step) (enumerate n xs) = [] \<longleftrightarrow> (\<forall>step \<in> set xs. exactlyOne step)" for n xs
    by (induction xs arbitrary: n) auto
  then show ?thesis
    by (auto simp: stepErrors_def list_ex_iff exactlyOne_def)
qed

lemma validateCanarySpec_Nil_iff:
  "validateCanarySpec ad = [] \<longleftrightarrow> wellFormedSteps (ro_Steps (spec_Rollout (ad_Spec ad))) \<and>
     wellFormedRollback (ro_Rollback (spec_Rollout (ad_Spec ad)))"
  by (auto simp: validateCanarySpec_def Let_def wellFormedSteps_def wellFormedRollback_def stepErrors_Nil_iff split: sum.splits)

lemma specErrors_Nil_iff: "specErrors ad = [] \<longleftrightarrow> wellFormedSpec (ad_Spec ad)"
  by (auto simp: specErrors_def Let_def wellFormedSpec_def validateCanarySpec_Nil_iff validateMCPTools_def
      toolErrors_Nil_iff int32_simps not_less)

text \<open>A request is admissible when its TenantQuota is found, the spec obeys the rules, and the quota has
  room for it; \<open>found\<close> is the answer of the API reader.\<close>

definition admissible :: "(Quantity \<Rightarrow> int64) \<Rightarrow> time \<Rightarrow> Enforcer \<Rightarrow> goerr + TenantQuota \<Rightarrow> AgentDeployment \<Rightarrow>
    AgentDeploymentSpec option \<Rightarrow> bool" where
  "admissible qv now e found ad oldSpec = (case found of
     Inl err \<Rightarrow> False
   | Inr tq \<Rightarrow> wellFormedSpec (ad_Spec ad) \<and>
       fst (CanAdmit qv now e (admissionKey ad) (tq_Spec tq) (tq_Status tq) (ad_Spec ad) oldSpec))"

definition tenantKey :: "AgentDeployment \<Rightarrow> NamespacedName" where
  "tenantKey ad = \<lparr>nn_Namespace = ad_Namespace ad, nn_Name = spec_TenantRef (ad_Spec ad)\<rparr>"

lemma verdict_Allowed_iff [simp]: "verdict ad errs = Allowed \<longleftrightarrow> errs = []"
  by (simp add: verdict_def)

text \<open>The state after a request: a reservation is written for a request that is admitted for real.\<close>

definition afterRequest :: "(Quantity \<Rightarrow> int64) \<Rightarrow> time \<Rightarrow> bool option option \<Rightarrow> bool \<Rightarrow> AgentDeployment \<Rightarrow> AgentDeploymentSpec option \<Rightarrow>
    Enforcer \<Rightarrow> Enforcer" where
  "afterRequest qv now dryRun admitted ad oldSpec e =
    (if admitted \<and> dryRun \<noteq> Some (Some True) then reserve qv now (admissionKey ad) (ad_Spec ad) oldSpec reservationTTL e else e)"

lemma quotaErrors_decides:
  fixes tq ad defines "ok qv now e old \<equiv> fst (CanAdmit qv now e (admissionKey ad) (tq_Spec tq) (tq_Status tq) (ad_Spec ad) old)"
  shows "fst (quotaErrors qv now dryRun tq ad old e) = [] \<longleftrightarrow> ok qv now e old"
    and "snd (quotaErrors qv now dryRun tq ad old e) = afterRequest qv now dryRun (ok qv now e old) ad old e"
  by (cases rule: AdmitAndReserve_cases [of qv now "admissionKey ad" "tq_Spec tq" "tq_Status tq" "ad_Spec ad" old reservationTTL e];
      auto simp: ok_def quotaErrors_def afterRequest_def Let_def split: prod.splits)+

lemma validateSpec_decides:
  fixes v s ad defines "found \<equiv> r_Get (k_tq (av_Client v)) (tenantKey ad) s"
  shows "fst (validateSpec qv v now dryRun ad old (e, s)) = [] \<longleftrightarrow> admissible qv now e (fst found) ad old"
    and "snd (validateSpec qv v now dryRun ad old (e, s)) =
      (afterRequest qv now dryRun (admissible qv now e (fst found) ad old) ad old e, snd found)"
  using quotaErrors_decides [of qv now dryRun _ ad old e]
  by (cases found; cases "fst found"; cases "specErrors ad = []";
      simp add: found_def validateSpec_def tenantKey_def admissible_def afterRequest_def split_beta flip: specErrors_Nil_iff)+

section \<open>Properties\<close>

text \<open>C14. A create is admitted exactly when its TenantQuota is found, its spec obeys every documented rule
  and the quota has room for it. The enforcer then holds the request's reservation, except for a dry run,
  which decides the same way; a request that is denied leaves the enforcer as it was.\<close>

theorem ValidateCreate_decides:
  "let found = r_Get (k_tq (av_Client v)) (tenantKey ad) s; ok = admissible qv now e (fst found) ad None;
       outcome = ValidateCreate qv v now dryRun (Inr ad) (e, s)
   in (fst outcome = Allowed \<longleftrightarrow> ok) \<and> snd outcome = (afterRequest qv now dryRun ok ad None e, snd found)"
  using validateSpec_decides [of qv v now dryRun ad None e s] by (simp add: ValidateCreate_def Let_def split_beta)

text \<open>C15. An update of an object that is being deleted is always admitted, so that finalizers can be removed,
  and an update that changes the image while a rollout runs is always rejected; neither touches the enforcer.
  Any other update is decided like a create, relative to the old spec.\<close>

theorem ValidateUpdate_decides:
  "let found = r_Get (k_tq (av_Client v)) (tenantKey ad) s; ok = admissible qv now e (fst found) ad (Some (ad_Spec old));
       deleting = (om_DeletionTimestamp (ad_Meta ad) \<noteq> None);
       frozen = (spec_Image (ad_Spec old) \<noteq> spec_Image (ad_Spec ad) \<and> status_Phase (ad_Status old) = PhaseRolloutInProgress);
       outcome = ValidateUpdate qv v now dryRun (Inr old) (Inr ad) (e, s)
   in (fst outcome = Allowed \<longleftrightarrow> (if deleting then True else if frozen then False else ok)) \<and>
      snd outcome = (if deleting \<or> frozen then (e, s) else (afterRequest qv now dryRun ok ad (Some (ad_Spec old)) e, snd found))"
  using validateSpec_decides [of qv v now dryRun ad "Some (ad_Spec old)" e s]
  by (simp add: ValidateUpdate_def Let_def split_beta)


end
