(* ===== verification/Main_Config.thy ===== *)
theory Main_Config
  imports AD_Reconcile TQ_Controller Webhook
begin

text \<open>
  \<^verbatim>\<open>cmd/main.go\<close>: how the manager binary resolves its configuration from the environment and the
  flags, and what it builds from it. \<open>time.ParseDuration\<close> is modelled as its documentation and source
  give it, with 64-bit overflow checks and the float64 arithmetic of fractions.
\<close>

section \<open>Durations in the environment\<close>

text \<open>\<open>leadingInt\<close> and \<open>leadingFraction\<close> of package \<open>time\<close>: digits from the front of a string.\<close>

fun leadingInt :: "int \<Rightarrow> string \<Rightarrow> (int \<times> string) option" where
  "leadingInt x [] = Some (x, [])"
| "leadingInt x (c # cs) =
    (if \<not> is_digit c then Some (x, c # cs)
     else if 2 ^ 63 div 10 < x then None
     else let x' = x * 10 + int (digit_value c) in if 2 ^ 63 < x' then None else leadingInt x' cs)"

fun leadingFraction :: "int \<Rightarrow> int \<Rightarrow> bool \<Rightarrow> string \<Rightarrow> int \<times> int \<times> string" where
  "leadingFraction x scale overflow [] = (x, scale, [])"
| "leadingFraction x scale overflow (c # cs) =
    (if \<not> is_digit c then (x, scale, c # cs)
     else if overflow then leadingFraction x scale True cs
     else if (2 ^ 63 - 1) div 10 < x then leadingFraction x scale True cs
     else let y = x * 10 + int (digit_value c)
       in if 2 ^ 63 < y then leadingFraction x scale True cs else leadingFraction y (scale * 10) False cs)"

text \<open>The last two spellings of a microsecond begin with the micro sign and with the Greek letter mu.\<close>

definition unitMap :: "(string \<times> int) list" where
  "unitMap = [(''ns'', 1), (''us'', 1000), ([CHR 0xC2, CHR 0xB5, CHR ''s''], 1000), ([CHR 0xCE, CHR 0xBC, CHR ''s''], 1000),
     (''ms'', Millisecond), (''s'', Second), (''m'', Minute), (''h'', Hour)]"

definition unitChar :: "char \<Rightarrow> bool" where
  "unitChar c \<longleftrightarrow> \<not> (c = CHR ''.'' \<or> is_digit c)"

definition truncate64 :: "f64 \<Rightarrow> int" where
  "truncate64 x = (case x of Fin q \<Rightarrow> \<lfloor>q\<rfloor> | _ \<Rightarrow> 0)"

definition f64_times :: "f64 \<Rightarrow> f64 \<Rightarrow> f64" where
  "f64_times x y = (case y of Fin q \<Rightarrow> f64_scale x q | _ \<Rightarrow> NaN)"

definition fractionNanos :: "int \<Rightarrow> int \<Rightarrow> int \<Rightarrow> int" where
  "fractionNanos f unit scale = truncate64 (f64_times (round64 (of_int f)) (f64_quot (round64 (of_int unit)) (of_int scale)))"

definition durationError :: "string \<Rightarrow> goerr" where
  "durationError orig = ErrNew (''time: invalid duration '' @ show_quoted orig)"

text \<open>One number with its unit, from the front of a non-empty string: its length and the rest.\<close>

definition durationPart :: "string \<Rightarrow> string \<Rightarrow> goerr + int \<times> string" where
  "durationPart orig s =
    (if \<not> (hd s = CHR ''.'' \<or> is_digit (hd s)) then Inl (durationError orig)
     else case leadingInt 0 s of
       None \<Rightarrow> Inl (durationError orig)
     | Some (v, s1) \<Rightarrow>
         (let pre = (length s \<noteq> length s1);
              (f, scale, s2, post) = (if s1 \<noteq> [] \<and> hd s1 = CHR ''.'' then
                 (case leadingFraction 0 1 False (tl s1) of (f, scale, s2) \<Rightarrow> (f, scale, s2, length (tl s1) \<noteq> length s2))
               else (0, 1, s1, False));
              u = takeWhile unitChar s2; rest = dropWhile unitChar s2
          in if \<not> pre \<and> \<not> post then Inl (durationError orig)
             else if u = [] then Inl (ErrNew (''time: missing unit in duration '' @ show_quoted orig))
             else case map_of unitMap u of
               None \<Rightarrow> Inl (ErrNew (''time: unknown unit '' @ show_quoted u @ '' in duration '' @ show_quoted orig))
             | Some unit \<Rightarrow>
                 if 2 ^ 63 div unit < v then Inl (durationError orig)
                 else let w = v * unit + (if 0 < f then fractionNanos f unit scale else 0)
                   in if 2 ^ 63 < w then Inl (durationError orig) else Inr (w, rest)))"

lemma leadingInt_length: "leadingInt x s = Some (y, r) \<Longrightarrow> length r \<le> length s"
  by (induction x s rule: leadingInt.induct) (auto simp: Let_def split: if_splits)

lemma leadingFraction_length: "leadingFraction x sc b s = (y, sc', r) \<Longrightarrow> length r \<le> length s"
  by (induction x sc b s rule: leadingFraction.induct) (auto simp: Let_def split: if_splits)

lemma dropWhile_shorter: "takeWhile P xs \<noteq> [] \<Longrightarrow> length (dropWhile P xs) < length xs"
  by (cases xs) (auto split: if_splits simp: length_dropWhile_le le_imp_less_Suc)

lemma durationPart_shorter: "durationPart orig s = Inr (w, rest) \<Longrightarrow> length rest < length s"
  by (auto simp: durationPart_def Let_def split: if_splits option.splits prod.splits
      dest!: leadingInt_length leadingFraction_length dropWhile_shorter)

function durationSum :: "string \<Rightarrow> int \<Rightarrow> string \<Rightarrow> goerr + int" where
  "durationSum orig d s =
    (if s = [] then Inr d
     else case durationPart orig s of
       Inl err \<Rightarrow> Inl err
     | Inr (w, rest) \<Rightarrow> if 2 ^ 63 < d + w then Inl (durationError orig) else durationSum orig (d + w) rest)"
  by pat_completeness auto
termination
  by (relation "measure (\<lambda>(orig, d, s). length s)") (auto dest: durationPart_shorter)

definition ParseDuration :: "string \<Rightarrow> goerr + duration" where
  "ParseDuration orig =
    (let neg = (orig \<noteq> [] \<and> hd orig = CHR ''-'');
         s = (if orig \<noteq> [] \<and> (hd orig = CHR ''-'' \<or> hd orig = CHR ''+'') then tl orig else orig)
     in if s = ''0'' then Inr 0
        else if s = [] then Inl (durationError orig)
        else case durationSum orig 0 s of
          Inl err \<Rightarrow> Inl err
        | Inr d \<Rightarrow> if neg then Inr (- d) else if 2 ^ 63 - 1 < d then Inl (durationError orig) else Inr d)"

declare durationSum.simps [simp del]

section \<open>Resolution\<close>

text \<open>\<open>os.Getenv\<close> is a function that gives the empty string for a variable that is not set;
  \<open>certs\<close> says whether \<open>os.Stat\<close> finds the serving certificate.\<close>

type_synonym environment = "string \<Rightarrow> string"

record flags =
  fl_gpuResourceName :: string
  fl_prometheusURL :: string
  fl_gatewayName :: string
  fl_gatewayNamespace :: string
  fl_registryAddr :: string

definition enableWebhooks :: "environment \<Rightarrow> bool \<Rightarrow> bool" where
  "enableWebhooks env certs =
    (let enabled = (env ''ENABLE_WEBHOOKS'' = ''true'');
         enabled' = (if certs then True else enabled)
     in if env ''ENABLE_WEBHOOKS'' = ''false'' then False else enabled')"

definition registryNamespace :: "environment \<Rightarrow> string" where
  "registryNamespace env = (if env ''POD_NAMESPACE'' = [] then ''agentrax-system'' else env ''POD_NAMESPACE'')"

definition durationFromEnv :: "string \<Rightarrow> duration \<Rightarrow> duration" where
  "durationFromEnv v fallback =
    (if v = [] then fallback
     else case ParseDuration v of
       Inl err \<Rightarrow> fallback
     | Inr parsed \<Rightarrow> if parsed < Second then fallback else parsed)"

definition registryTTL :: "environment \<Rightarrow> duration" where
  "registryTTL env = durationFromEnv (env ''AGENTRAX_REGISTRY_TTL'') DefaultTTL"

definition mcpHealthInterval :: "environment \<Rightarrow> duration" where
  "mcpHealthInterval env =
    (let interval = durationFromEnv (env ''AGENTRAX_MCP_HEALTH_INTERVAL'') (60 * Second)
     in if registryTTL env \<le> interval then registryTTL env sdiv 2 else interval)"

section \<open>Construction\<close>

definition canaryController :: "flags \<Rightarrow> 's kube \<Rightarrow> 's httpGet \<Rightarrow> 's AgentRegistrar \<Rightarrow> 's Controller option" where
  "canaryController fl K get A =
    (if fl_prometheusURL fl \<noteq> [] then
       Some \<lparr>cc_Client = K, cc_PromClient = NewClient get (fl_prometheusURL fl) [], cc_Registrar = Some A,
         cc_GatewayName = fl_gatewayName fl, cc_GatewayNamespace = fl_gatewayNamespace fl, cc_FailSafeTimeout = 60 * Second\<rparr>
     else None)"

definition mcpRegistry :: "environment \<Rightarrow> 's kube \<Rightarrow> 's Registry" where
  "mcpRegistry env K = NewRegistry (Some K) (registryNamespace env) (registryTTL env)"

definition agentDeploymentReconciler :: "environment \<Rightarrow> flags \<Rightarrow> 's kube \<Rightarrow> 's httpGet \<Rightarrow> 's AgentRegistrar \<Rightarrow> 's AgentDeploymentReconciler" where
  "agentDeploymentReconciler env fl K get A =
    \<lparr>adr_Client = K, adr_GPUResourceName = fl_gpuResourceName fl, adr_CanaryController = canaryController fl K get A,
     adr_Registrar = Some A, adr_MCPHealthInterval = mcpHealthInterval env, adr_hasServiceMonitorCRD = False\<rparr>"

definition servesRegistry :: "flags \<Rightarrow> bool" where
  "servesRegistry fl \<longleftrightarrow> fl_registryAddr fl \<noteq> [] \<and> fl_registryAddr fl \<noteq> ''0''"

section \<open>Bounds of parsed durations\<close>

lemma round64_nonneg: "0 \<le> q \<Longrightarrow> round64 q = Fin v \<Longrightarrow> 0 \<le> v"
  using round_even_ge [of 0 "q / pow2 (ulp_exp q)"] by (auto simp: round64_def Let_def zero_le_mult_iff less_imp_le split: if_splits)

lemma f64_nonneg:
  "(\<And>x. a = Fin x \<Longrightarrow> 0 \<le> x) \<Longrightarrow> 0 \<le> c \<Longrightarrow> f64_quot a c = Fin v \<Longrightarrow> 0 \<le> v"
  "(\<And>x. a = Fin x \<Longrightarrow> 0 \<le> x) \<Longrightarrow> 0 \<le> c \<Longrightarrow> f64_scale a c = Fin v \<Longrightarrow> 0 \<le> v"
  by (cases a; auto dest: round64_nonneg [rotated])+

lemma fractionNanos_nonneg:
  assumes "0 \<le> f" "0 \<le> unit" "0 \<le> scale"
  shows "0 \<le> fractionNanos f unit scale"
proof -
  have r: "0 \<le> x" if "round64 (of_int n) = Fin x" "0 \<le> n" for n x
    using that round64_nonneg [of "of_int n" x] by simp
  let ?q = "f64_quot (round64 (of_int unit)) (of_int scale)"
  have "0 \<le> v" if v: "f64_times (round64 (of_int f)) ?q = Fin v" for v
  proof -
    from v obtain q where q: "?q = Fin q" by (cases ?q) (simp_all add: f64_times_def)
    then have "0 \<le> q"
      by (rule f64_nonneg(1) [rotated 2]) (use assms r in simp_all)
    with q v assms r show ?thesis
      by (intro f64_nonneg(2) [of "round64 (of_int f)" q v]) (simp_all add: f64_times_def)
  qed
  then show ?thesis
    by (simp add: fractionNanos_def truncate64_def split: f64.split)
qed

lemma leadingInt_nonneg: "leadingInt x s = Some (y, r) \<Longrightarrow> 0 \<le> x \<Longrightarrow> 0 \<le> y"
  by (induction x s rule: leadingInt.induct) (auto simp: Let_def split: if_splits)

lemma leadingFraction_nonneg: "leadingFraction x sc b s = (y, sc', r) \<Longrightarrow> 0 \<le> x \<Longrightarrow> 0 \<le> sc \<Longrightarrow> 0 \<le> y \<and> 0 \<le> sc'"
  by (induction x sc b s rule: leadingFraction.induct) (auto simp: Let_def split: if_splits)

lemma unitMap_pos: "map_of unitMap u = Some unit \<Longrightarrow> 0 < unit"
  by (auto simp: unitMap_def split: if_splits)

lemma durationPart_bounds: "durationPart orig s = Inr (w, rest) \<Longrightarrow> 0 \<le> w \<and> w \<le> 2 ^ 63"
  by (auto simp: durationPart_def Let_def split: if_splits option.splits prod.splits
      dest!: leadingInt_nonneg leadingFraction_nonneg unitMap_pos intro!: add_nonneg_nonneg fractionNanos_nonneg)

lemma durationSum_bounds: "durationSum orig d s = Inr d' \<Longrightarrow> 0 \<le> d \<Longrightarrow> d \<le> 2 ^ 63 \<Longrightarrow> 0 \<le> d' \<and> d' \<le> 2 ^ 63"
proof (induction orig d s rule: durationSum.induct)
  case (1 orig d s)
  from "1.prems"(1) consider "s = []" "d' = d"
    | w rest where "s \<noteq> []" "durationPart orig s = Inr (w, rest)" "\<not> 2 ^ 63 < d + w" "durationSum orig (d + w) rest = Inr d'"
    by (subst (asm) durationSum.simps) (auto split: if_splits sum.splits)
  then show ?case
    using 1 by cases (auto dest: durationPart_bounds)
qed

lemma ParseDuration_bounds: "ParseDuration s = Inr d \<Longrightarrow> - (2 ^ 63) \<le> d \<and> d \<le> 2 ^ 63 - 1"
  by (auto simp: ParseDuration_def Let_def split: if_splits sum.splits dest!: durationSum_bounds)

section \<open>Durations in queries\<close>

lemma foldl_value_mono: "0 \<le> x \<Longrightarrow> x \<le> foldl (\<lambda>n c. 10 * n + int (digit_value c)) x ds"
proof (induction ds arbitrary: x)
  case (Cons c ds)
  then have "10 * x + int (digit_value c) \<le> foldl (\<lambda>n c. 10 * n + int (digit_value c)) (10 * x + int (digit_value c)) ds" by simp
  with Cons.prems show ?case by simp
qed simp

lemma leadingInt_digits:
  assumes "\<forall>c \<in> set ds. is_digit c" and "0 \<le> x" and "foldl (\<lambda>n c. 10 * n + int (digit_value c)) x ds \<le> 2 ^ 63"
    and "r = [] \<or> \<not> is_digit (hd r)"
  shows "leadingInt x (ds @ r) = Some (foldl (\<lambda>n c. 10 * n + int (digit_value c)) x ds, r)"
  using assms
proof (induction ds arbitrary: x)
  case Nil
  then show ?case by (cases r) auto
next
  case (Cons c ds)
  have "10 * x + int (digit_value c) \<le> 2 ^ 63"
    using Cons.prems foldl_value_mono [of "10 * x + int (digit_value c)" ds] by simp
  then have "\<not> 2 ^ 63 div 10 < x" "\<not> 2 ^ 63 < x * 10 + int (digit_value c)" by simp_all
  with Cons show ?case by (simp add: Let_def mult.commute)
qed

lemma leadingInt_show_nat:
  "int n \<le> 2 ^ 63 \<Longrightarrow> r = [] \<or> \<not> is_digit (hd r) \<Longrightarrow> leadingInt 0 (show_nat n @ r) = Some (int n, r)"
  using leadingInt_digits [of "show_nat n" 0 r] show_nat_digits [of n] foldl_digits [of 0 "show_nat n"] read_show_nat [of n]
  by (simp add: read_nat_def)

lemma durationPart_show:
  assumes "map_of unitMap u = Some unit" and "u \<noteq> []" "\<forall>c \<in> set u. unitChar c" and "r = [] \<or> is_digit (hd r)" and "int n * unit \<le> 2 ^ 63"
  shows "durationPart orig (show_nat n @ u @ r) = Inr (int n * unit, r)"
proof -
  have unit: "0 < unit" using assms(1) by (rule unitMap_pos)
  then have n: "int n \<le> 2 ^ 63 div unit"
    using zdiv_mono1 [OF assms(5) unit] by simp
  have "int n * 1 \<le> int n * unit"
    using unit by (intro mult_left_mono) auto
  with assms(5) have "int n \<le> 2 ^ 63" by simp
  have c: "unitChar (hd u)" using assms(2,3) by simp
  then have hd: "\<not> is_digit (hd (u @ r))" "hd (u @ r) \<noteq> CHR ''.''"
    using assms(2) by (auto simp: unitChar_def)
  have d: "is_digit (hd (show_nat n @ u @ r))"
    using show_nat_digits [of n] by (simp add: hd_append)
  have lead: "leadingInt 0 (show_nat n @ u @ r) = Some (int n, u @ r)"
    using \<open>int n \<le> 2 ^ 63\<close> hd by (intro leadingInt_show_nat) auto
  have "takeWhile unitChar (u @ r) = u \<and> dropWhile unitChar (u @ r) = r"
    using assms(3,4) by (cases r) (auto simp: unitChar_def)
  with assms n lead hd d show ?thesis
    by (simp add: durationPart_def)
qed

text \<open>The sum of printed parts.\<close>

lemma durationSum_show:
  assumes "map_of unitMap u = Some unit" and "u \<noteq> []" "\<forall>c \<in> set u. unitChar c" and "r = [] \<or> is_digit (hd r)"
    and "0 \<le> d" and "d + int n * unit \<le> 2 ^ 63"
  shows "durationSum orig d (show_nat n @ u @ r) = durationSum orig (d + int n * unit) r"
proof -
  have "durationPart orig (show_nat n @ u @ r) = Inr (int n * unit, r)"
    using assms by (intro durationPart_show) auto
  with assms(6) show ?thesis by (subst durationSum.simps) simp
qed

lemma durationSum_Nil [simp]: "durationSum orig d [] = Inr d"
  by (subst durationSum.simps) simp

definition durationText :: "int \<Rightarrow> string \<Rightarrow> string" where
  "durationText n u = (if 0 < n then show_int n @ u else [])"

lemma durationText_digit: "durationText n u = [] \<or> is_digit (hd (durationText n u))"
  using show_nat_digits [of "nat n"] by (simp add: durationText_def show_int_def hd_append)

lemma durationSum_text:
  assumes "map_of unitMap u = Some unit" and "u \<noteq> []" "\<forall>c \<in> set u. unitChar c" and "r = [] \<or> is_digit (hd r)"
    and "0 \<le> n" and "0 \<le> d" and "d + n * unit \<le> 2 ^ 63"
  shows "durationSum orig d (durationText n u @ r) = durationSum orig (d + n * unit) r"
  using durationSum_show [OF assms(1-4,6), of "nat n" orig] assms(5,7) by (auto simp: durationText_def show_int_def)

lemma units:
  "map_of unitMap ''h'' = Some Hour" "map_of unitMap ''m'' = Some Minute" "map_of unitMap ''s'' = Some Second"
  "map_of unitMap ''ms'' = Some Millisecond" "unitChar CHR ''h''" "unitChar CHR ''m''" "unitChar CHR ''s''"
  by code_simp+

lemma durationSum_hms:
  assumes "0 \<le> h" "0 \<le> m" "0 \<le> s" and "h * Hour + m * Minute + s * Second = d" and "d \<le> 2 ^ 63 - 1"
  shows "durationSum orig 0 (durationText h ''h'' @ durationText m ''m'' @ durationText s ''s'') = Inr d"
proof -
  have bound: "h * Hour \<le> 2 ^ 63" "h * Hour + m * Minute \<le> 2 ^ 63" "h * Hour + m * Minute + s * Second \<le> 2 ^ 63"
    using assms by auto
  have "durationText m ''m'' @ durationText s ''s'' = [] \<or> is_digit (hd (durationText m ''m'' @ durationText s ''s''))"
    using durationText_digit [of m "''m''"] durationText_digit [of s "''s''"] by (auto simp: hd_append)
  then have "durationSum orig 0 (durationText h ''h'' @ durationText m ''m'' @ durationText s ''s'') =
      durationSum orig (h * Hour) (durationText m ''m'' @ durationText s ''s'')"
    using durationSum_text [OF units(1), of "durationText m ''m'' @ durationText s ''s''" h 0 orig] units assms(1) bound by simp
  also have "\<dots> = durationSum orig (h * Hour + m * Minute) (durationText s ''s'' @ [])"
    using durationSum_text [OF units(2), of "durationText s ''s''" m "h * Hour" orig] durationText_digit [of s "''s''"] units
      assms(1,2) bound by simp
  also have "\<dots> = Inr d"
    using durationSum_text [OF units(3), of "[]" s "h * Hour + m * Minute" orig] units assms bound by simp
  finally show ?thesis .
qed

lemma div_pos_of_dvd: "0 < d \<Longrightarrow> 0 < k \<Longrightarrow> d mod k = 0 \<Longrightarrow> 0 < d div (k :: int)"
  by (simp add: pos_imp_zdiv_pos_iff zdvd_imp_le mod_0_imp_dvd)

lemma div_units:
  fixes d :: int
  assumes "m dvd h" "s dvd m" "d mod s = 0"
  shows "d div h * h + d mod h div m * m + d mod m div s * s = d"
proof -
  have "d mod h mod m = d mod m" "d mod m mod s = 0"
    using assms by (simp_all add: mod_mod_cancel)
  then show ?thesis
    using div_mult_mod_eq [of d h] div_mult_mod_eq [of "d mod h" m] div_mult_mod_eq [of "d mod m" s] by linarith
qed

lemma dur_units:
  fixes a b :: int
  assumes "0 \<le> a" and "0 < b"
  shows "a sdiv b = a div b" "dur_rem a b = a mod b" "a - a div b * b = a mod b"
  using assms by (simp_all add: dur_rem_def signed_divide_int_def signed_modulo_int_def sgn_if minus_mult_div_eq_mod minus_div_mult_eq_mod)

lemma promDuration_cases:
  assumes "0 < d"
  shows "promDuration d = (if d mod Second = 0 then
      Inr (durationText (d div Hour) ''h'' @ durationText (d mod Hour div Minute) ''m'' @ durationText (d mod Minute div Second) ''s'')
    else if d mod Millisecond = 0 then Inr (durationText (d div Millisecond) ''ms'')
    else Inl (ErrNew (''duration '' @ show_duration d @ '' has sub-millisecond precision, which PromQL range selectors cannot represent'')))"
proof -
  have nn: "0 \<le> d" "0 \<le> d mod Hour" "0 \<le> d mod Minute"
    and u: "0 < Hour" "0 < Minute" "0 < Second" "0 < Millisecond" using assms by simp_all
  have mm: "d mod Hour mod Minute = d mod Minute"
    by (rule mod_mod_cancel) simp
  note parts = dur_units [OF nn(1) u(1)] dur_units [OF nn(2) u(2)] dur_units [OF nn(3) u(3)] dur_units [OF nn(1) u(3)] dur_units [OF nn(1) u(4)]
  consider "d mod Second = 0" | "d mod Second \<noteq> 0" "d mod Millisecond = 0" "0 < d div Millisecond"
    | "d mod Second \<noteq> 0" "d mod Millisecond \<noteq> 0"
    using div_pos_of_dvd [OF assms u(4)] by metis
  then show ?thesis
    using assms by cases (simp_all only: promDuration_def Let_def parts mm durationText_def not_le [symmetric] if_True if_False simp_thms)
qed

lemma ParseDuration_printed:
  assumes "\<And>orig. durationSum orig 0 s = Inr d" and "is_digit (hd s)" and "s \<noteq> []" and "s \<noteq> ''0''" and "d \<le> 2 ^ 63 - 1"
  shows "ParseDuration s = Inr d"
  using assms by (auto simp: ParseDuration_def Let_def is_digit_def)

lemma durationText_not_zero: "u \<noteq> [] \<Longrightarrow> last u \<noteq> CHR ''0'' \<Longrightarrow> durationText n u = [] \<or> last (durationText n u) \<noteq> CHR ''0''"
  by (simp add: durationText_def)

lemma ParseDuration_hms:
  assumes "0 \<le> h" "0 \<le> m" "0 \<le> s" and "h * Hour + m * Minute + s * Second = d" and "0 < d" and "d \<le> 2 ^ 63 - 1"
  shows "ParseDuration (durationText h ''h'' @ durationText m ''m'' @ durationText s ''s'') = Inr d"
proof (rule ParseDuration_printed)
  let ?t = "durationText h ''h'' @ durationText m ''m'' @ durationText s ''s''"
  show sum: "durationSum orig 0 ?t = Inr d" for orig
    using assms by (intro durationSum_hms)
  show nonempty: "?t \<noteq> []"
    using sum assms(5) by auto
  then show "is_digit (hd ?t)"
    using durationText_digit [of h "''h''"] durationText_digit [of m "''m''"] durationText_digit [of s "''s''"] by (auto simp: hd_append)
  have "last ?t \<noteq> CHR ''0''"
    using nonempty durationText_not_zero [of "''h''" h] durationText_not_zero [of "''m''" m] durationText_not_zero [of "''s''" s]
    by (auto simp: last_append)
  then show "?t \<noteq> ''0''" by auto
qed (rule assms)

lemma ParseDuration_ms:
  assumes "0 < n" and "n * Millisecond = d" and "d \<le> 2 ^ 63 - 1"
  shows "ParseDuration (durationText n ''ms'') = Inr d"
proof (rule ParseDuration_printed)
  show "durationSum orig 0 (durationText n ''ms'') = Inr d" for orig
    using durationSum_text [OF units(4), of "[]" n 0 orig] units assms by simp
  show "is_digit (hd (durationText n ''ms''))" "durationText n ''ms'' \<noteq> []"
    using assms(1) durationText_digit [of n "''ms''"] by (auto simp: durationText_def)
  then show "durationText n ''ms'' \<noteq> ''0''"
    using durationText_not_zero [of "''ms''" n] by auto
qed (rule assms)

section \<open>Properties\<close>

text \<open>C27. Whatever the environment says, the operator runs with a usable configuration: the time to live of a registration is at least
  a second and fits a \<open>time.Duration\<close>, the heartbeat interval is positive and shorter than it, and so an agent that was heard from
  is still listed when its next heartbeat is due.\<close>

theorem configured_heartbeat_keeps_lease:
  "Second \<le> registryTTL env \<and> registryTTL env \<le> 2 ^ 63 - 1 \<and> 0 < mcpHealthInterval env \<and> mcpHealthInterval env < registryTTL env \<and>
   reg_defaultTTL (mcpRegistry env K) = registryTTL env \<and>
   \<not> expired (mcpRegistry env K) (time_add (ent_HeartbeatAt e) (mcpHealthInterval env)) (e\<lparr>ent_TTL := 0\<rparr>)"
proof -
  have from_env: "Second \<le> durationFromEnv v d \<and> durationFromEnv v d \<le> 2 ^ 63 - 1" if "Second \<le> d" "d \<le> 2 ^ 63 - 1" for v d
    using that by (auto simp: durationFromEnv_def split: sum.splits dest: ParseDuration_bounds)
  have ttl: "Second \<le> registryTTL env \<and> registryTTL env \<le> 2 ^ 63 - 1"
    unfolding registryTTL_def by (rule from_env) simp_all
  have "Second \<le> durationFromEnv (env ''AGENTRAX_MCP_HEALTH_INTERVAL'') (60 * Second)"
    using from_env [of "60 * Second"] by simp
  with ttl have hb: "0 < mcpHealthInterval env \<and> mcpHealthInterval env < registryTTL env"
    by (auto simp: mcpHealthInterval_def Let_def signed_divide_int_def)
  from ttl hb show ?thesis
    by (auto simp: mcpRegistry_def NewRegistry_def expired_def entryTTL_def time_sub_def time_add_def)
qed

text \<open>C28. The windows of the Prometheus queries are the configured pauses, exactly: a positive duration of whole milliseconds is written
  as a range that reads back as the same duration, and one with a finer part, which such a range cannot express, is refused.\<close>

theorem promDuration_roundtrip:
  assumes "0 < d" and "d \<le> 2 ^ 63 - 1"
  shows "case promDuration d of Inr s \<Rightarrow> ParseDuration s = Inr d \<and> d mod Millisecond = 0 | Inl err \<Rightarrow> d mod Millisecond \<noteq> 0"
proof (cases "d mod Second = 0")
  case True
  have dvd: "Minute dvd Hour" "Second dvd Minute" "Millisecond dvd Second" by simp_all
  have "ParseDuration (durationText (d div Hour) ''h'' @ durationText (d mod Hour div Minute) ''m'' @ durationText (d mod Minute div Second) ''s'') = Inr d"
  proof (rule ParseDuration_hms [OF _ _ _ div_units [OF dvd(1,2) True] assms])
  qed (use assms(1) in \<open>auto intro!: pos_imp_zdiv_nonneg_iff [THEN iffD2]\<close>)
  moreover have "d mod Millisecond = 0"
    using True dvd(3) by (metis dvd_trans mod_0_imp_dvd mod_eq_0_iff_dvd)
  ultimately show ?thesis
    using True by (simp only: promDuration_cases [OF assms(1)] if_P sum.case simp_thms)
next
  case False
  have "ParseDuration (durationText (d div Millisecond) ''ms'') = Inr d" if "d mod Millisecond = 0"
  proof (rule ParseDuration_ms [OF _ _ assms(2)])
    show "0 < d div Millisecond"
      using div_pos_of_dvd [OF assms(1) _ that] by simp
    show "d div Millisecond * Millisecond = d"
      using div_mult_mod_eq [of d Millisecond] unfolding that by (simp only: add_0_right)
  qed
  with False show ?thesis
    by (cases "d mod Millisecond = 0") (simp_all only: promDuration_cases [OF assms(1)] if_True if_False sum.case simp_thms)
qed

theorem promDuration_roundtrip_witness:
  "promDuration (90 * Second) = Inr ''1m30s'' \<and> ParseDuration ''1m30s'' = Inr (90 * Second)"
proof -
  have "promDuration (90 * Second) = Inr ''1m30s''" by code_simp
  then show ?thesis using promDuration_roundtrip [of "90 * Second"] by simp
qed

end
