(* ===== verification/Startup.thy ===== *)
theory Startup
  imports Main_Config
begin

text \<open>
  The rest of \<^verbatim>\<open>cmd/main.go\<close>: what \<open>main\<close> sets up, in which order and with which options, with the \<open>SetupWithManager\<close> methods of the two
  controllers, the registry server and the tracer of \<^verbatim>\<open>internal/observability/tracing.go\<close>. The calls of controller-runtime and of the
  OpenTelemetry SDK are parameters. The log level and the registration of the schemes are left out.
\<close>

section \<open>What the controllers watch\<close>

datatype objectKind = KindAgentDeployment | KindTenantQuota | KindDeployment | KindService | KindHPA | KindServiceMonitor | KindHTTPRoute

record controllerBuilder =
  cb_For :: objectKind
  cb_Owns :: "objectKind list"
  cb_Watches :: "objectKind list"

definition agentController :: "'s AgentDeploymentReconciler \<Rightarrow> controllerBuilder" where
  "agentController r =
    \<lparr>cb_For = KindAgentDeployment,
     cb_Owns = [KindDeployment, KindService, KindHPA] @ (if adr_hasServiceMonitorCRD r then [KindServiceMonitor] else []) @
       (if adr_CanaryController r \<noteq> None then [KindHTTPRoute] else []),
     cb_Watches = [KindTenantQuota]\<rparr>"

definition SetupWithManager :: "(string \<Rightarrow> ('s, unit) act) \<Rightarrow> (controllerBuilder \<Rightarrow> ('s, unit) act) \<Rightarrow> 's AgentDeploymentReconciler \<Rightarrow>
    ('s, 's AgentDeploymentReconciler) act" where
  "SetupWithManager getCRD bComplete r =
    andThen (wrapErr ''checking servicemonitor CRD at setup: '' (serviceMonitorCRDExists getCRD)) (\<lambda>b.
    let r' = r\<lparr>adr_hasServiceMonitorCRD := b\<rparr> in
    andThen (bComplete (agentController r')) (\<lambda>_. ret r'))"

definition quotaController :: controllerBuilder where
  "quotaController = \<lparr>cb_For = KindTenantQuota, cb_Owns = [], cb_Watches = [KindAgentDeployment]\<rparr>"

definition SetupQuotaWithManager :: "(controllerBuilder \<Rightarrow> ('s, unit) act) \<Rightarrow> ('s, unit) act" where
  "SetupQuotaWithManager bComplete = bComplete quotaController"

section \<open>Tracing\<close>

text \<open>The tracer the process uses. Creating the exporter and merging the resource description are calls of another package.\<close>

datatype tracer = NoopTracer | OTLPTracer string bool

record 's tracing =
  tr_NewExporter :: "string \<Rightarrow> bool \<Rightarrow> ('s, unit) act"
  tr_MergeResource :: "('s, unit) act"
  tr_Install :: "tracer \<Rightarrow> ('s, unit) act"
  tr_Shutdown :: "('s, unit) act"

definition InitTracerProvider :: "'s tracing \<Rightarrow> string \<Rightarrow> bool \<Rightarrow> ('s, tracer) act" where
  "InitTracerProvider T endpoint insecure =
    (if endpoint = [] then ret NoopTracer
     else andThen (wrapErr ''creating OTLP gRPC exporter: '' (tr_NewExporter T endpoint insecure)) (\<lambda>_.
       andThen (wrapErr ''creating OTel resource: '' (tr_MergeResource T)) (\<lambda>_.
       andThen (tr_Install T (OTLPTracer endpoint insecure)) (\<lambda>_.
       ret (OTLPTracer endpoint insecure)))))"

text \<open>The function it returns: nothing to flush without a provider.\<close>

definition tpShutdown :: "'s tracing \<Rightarrow> tracer \<Rightarrow> ('s, unit) act" where
  "tpShutdown T tp = (case tp of NoopTracer \<Rightarrow> ret () | OTLPTracer _ _ \<Rightarrow> tr_Shutdown T)"

section \<open>The registry server\<close>

text \<open>\<open>http.ErrServerClosed\<close>, which \<open>ListenAndServe\<close> returns after a shutdown.\<close>

abbreviation ErrServerClosed :: goerr where
  "ErrServerClosed \<equiv> ErrNew ''http: Server closed''"

definition serveRegistry :: "('s, unit) regAct \<Rightarrow> ('s, unit) regAct" where
  "serveRegistry listenAndServe =
    andThen Start (\<lambda>_. catchErr listenAndServe (\<lambda>err. if err_is err ErrServerClosed then ret () else fail err) (\<lambda>_. ret ()))"

definition NeedLeaderElection :: bool where
  "NeedLeaderElection = False"

section \<open>The binary\<close>

record mainFlags = flags +
  fl_metricsAddr :: string
  fl_enableLeaderElection :: bool
  fl_probeAddr :: string
  fl_secureMetrics :: bool
  fl_enableHTTP2 :: bool
  fl_otlpEndpoint :: string
  fl_otlpInsecure :: bool

definition defaultFlags :: mainFlags where
  "defaultFlags =
    \<lparr>fl_gpuResourceName = DefaultGPUResourceName, fl_prometheusURL = [], fl_gatewayName = ''agentrax-gateway'',
     fl_gatewayNamespace = ''agentrax-system'', fl_registryAddr = '':9090'', fl_metricsAddr = ''0'', fl_enableLeaderElection = False,
     fl_probeAddr = '':8081'', fl_secureMetrics = True, fl_enableHTTP2 = False, fl_otlpEndpoint = [], fl_otlpInsecure = False\<rparr>"

text \<open>The options of the manager: the TLS protocols the servers offer when they are restricted, whether there is a webhook server,
  whether the metrics are behind authentication, and the namespaces whose ConfigMaps are cached.\<close>

record ctrlOptions =
  mo_NextProtos :: "string list option"
  mo_WebhookServer :: bool
  mo_MetricsBindAddress :: string
  mo_SecureServing :: bool
  mo_MetricsAuth :: bool
  mo_HealthProbeBindAddress :: string
  mo_LeaderElection :: bool
  mo_LeaderElectionID :: string
  mo_ConfigMapNamespaces :: "string list"

definition managerOptions :: "environment \<Rightarrow> mainFlags \<Rightarrow> bool \<Rightarrow> ctrlOptions" where
  "managerOptions env fl certs =
    \<lparr>mo_NextProtos = (if fl_enableHTTP2 fl then None else Some [''http/1.1'']), mo_WebhookServer = enableWebhooks env certs,
     mo_MetricsBindAddress = fl_metricsAddr fl, mo_SecureServing = fl_secureMetrics fl, mo_MetricsAuth = fl_secureMetrics fl,
     mo_HealthProbeBindAddress = fl_probeAddr fl, mo_LeaderElection = fl_enableLeaderElection fl,
     mo_LeaderElectionID = ''ddf1aac5.agentrax.io'', mo_ConfigMapNamespaces = [registryNamespace env]\<rparr>"

text \<open>The calls of controller-runtime.\<close>

record 's manager =
  mg_NewManager :: "ctrlOptions \<Rightarrow> ('s, unit) act"
  mg_AddRegistryServer :: "string \<Rightarrow> ('s, unit) act"
  mg_GetCRD :: "string \<Rightarrow> ('s, unit) act"
  mg_Complete :: "controllerBuilder \<Rightarrow> ('s, unit) act"
  mg_CompleteWebhook :: "('s, unit) act"
  mg_AddHealthzCheck :: "string \<Rightarrow> ('s, unit) act"
  mg_AddReadyzCheck :: "string \<Rightarrow> ('s, unit) act"
  mg_Start :: "('s, unit) act"

text \<open>An error is logged with a message, and the process ends with \<open>os.Exit(1)\<close>, which runs no deferred function: the tracer is shut down
  only when \<open>main\<close> returns. An error of that shutdown is only logged.\<close>

definition main :: "'s tracing \<Rightarrow> 's manager \<Rightarrow> 's kube \<Rightarrow> 's httpGet \<Rightarrow> 's AgentRegistrar \<Rightarrow> environment \<Rightarrow> mainFlags \<Rightarrow> bool \<Rightarrow> ('s, unit) act" where
  "main T M K get A env fl certs =
    andThen (wrapErr ''unable to initialize OpenTelemetry TracerProvider'' (InitTracerProvider T (fl_otlpEndpoint fl) (fl_otlpInsecure fl))) (\<lambda>tp.
    andThen (wrapErr ''unable to start manager'' (mg_NewManager M (managerOptions env fl certs))) (\<lambda>_.
    andThen (if servesRegistry (flags.truncate fl)
        then wrapErr ''unable to add registry server to manager'' (mg_AddRegistryServer M (fl_registryAddr fl)) else ret ()) (\<lambda>_.
    andThen (wrapErr ''unable to create controller''
        (SetupWithManager (mg_GetCRD M) (mg_Complete M) (agentDeploymentReconciler env (flags.truncate fl) K get A))) (\<lambda>_.
    andThen (wrapErr ''unable to create controller'' (SetupQuotaWithManager (mg_Complete M))) (\<lambda>_.
    andThen (if enableWebhooks env certs then wrapErr ''unable to register webhook'' (mg_CompleteWebhook M) else ret ()) (\<lambda>_.
    andThen (wrapErr ''unable to set up health check'' (mg_AddHealthzCheck M ''healthz'')) (\<lambda>_.
    andThen (wrapErr ''unable to set up ready check'' (mg_AddReadyzCheck M ''readyz'')) (\<lambda>_.
    andThen (wrapErr ''problem running manager'' (mg_Start M)) (\<lambda>_.
    catchErr (tpShutdown T tp) (\<lambda>err. ret ()) (\<lambda>_. ret ()))))))))))"

section \<open>The calls of a run\<close>

text \<open>Surroundings that record each call, in order, and in which any set of calls may fail.\<close>

datatype call =
    CallExporter string bool
  | CallResource
  | CallInstall tracer
  | CallShutdown
  | CallNewManager ctrlOptions
  | CallAddRegistryServer string
  | CallGetCRD string
  | CallComplete controllerBuilder
  | CallWebhook
  | CallHealthz string
  | CallReadyz string
  | CallStart

definition recordCall :: "(call \<Rightarrow> goerr option) \<Rightarrow> call \<Rightarrow> (call list, unit) act" where
  "recordCall fails c made = (case fails c of None \<Rightarrow> (Inr (), made @ [c]) | Some err \<Rightarrow> (Inl err, made @ [c]))"

definition recordedTracing :: "(call \<Rightarrow> goerr option) \<Rightarrow> call list tracing" where
  "recordedTracing fails = \<lparr>tr_NewExporter = \<lambda>e i. recordCall fails (CallExporter e i), tr_MergeResource = recordCall fails CallResource,
     tr_Install = \<lambda>tp. recordCall (\<lambda>_. None) (CallInstall tp), tr_Shutdown = recordCall fails CallShutdown\<rparr>"

definition recordedManager :: "(call \<Rightarrow> goerr option) \<Rightarrow> call list manager" where
  "recordedManager fails = \<lparr>mg_NewManager = \<lambda>opts. recordCall fails (CallNewManager opts),
     mg_AddRegistryServer = \<lambda>addr. recordCall fails (CallAddRegistryServer addr), mg_GetCRD = \<lambda>n. recordCall fails (CallGetCRD n),
     mg_Complete = \<lambda>b. recordCall fails (CallComplete b), mg_CompleteWebhook = recordCall fails CallWebhook,
     mg_AddHealthzCheck = \<lambda>n. recordCall fails (CallHealthz n), mg_AddReadyzCheck = \<lambda>n. recordCall fails (CallReadyz n),
     mg_Start = recordCall fails CallStart\<rparr>"

text \<open>\<open>uptoFailure\<close> keeps the calls up to the first that fails, that one included. \<open>performs fails m cs x\<close>: the action makes the calls
  \<open>cs\<close> up to the first failure, and returns \<open>x\<close> when there is none.\<close>

fun uptoFailure :: "(call \<Rightarrow> bool) \<Rightarrow> call list \<Rightarrow> call list" where
  "uptoFailure bad [] = []"
| "uptoFailure bad (c # cs) = (if bad c then [c] else c # uptoFailure bad cs)"

definition performs :: "(call \<Rightarrow> bool) \<Rightarrow> (call list, 'a) act \<Rightarrow> call list \<Rightarrow> 'a \<Rightarrow> bool" where
  "performs bad m cs x \<longleftrightarrow> (\<forall>made. snd (m made) = made @ uptoFailure bad cs \<and> (if list_ex bad cs then \<exists>err. fst (m made) = Inl err else fst (m made) = Inr x))"

lemma uptoFailure_append: "uptoFailure bad (xs @ ys) = (if list_ex bad xs then uptoFailure bad xs else xs @ uptoFailure bad ys)"
  by (induction xs) auto

lemma uptoFailure_all: "\<not> list_ex bad xs \<Longrightarrow> uptoFailure bad xs = xs"
  using uptoFailure_append [of bad xs "[]"] by simp

lemma performs_ret: "performs bad (ret x) [] x"
  by (simp add: performs_def)

lemma performs_andThen: "performs bad m cs x \<Longrightarrow> performs bad (k x) ds y \<Longrightarrow> performs bad (andThen m k) (cs @ ds) y"
  unfolding performs_def
  by (intro allI; drule spec; cases "list_ex bad cs") (auto simp: andThen_def uptoFailure_append uptoFailure_all split_beta prod_eq_iff split: sum.splits)

lemma performs_wrapErr: "performs bad m cs x \<Longrightarrow> performs bad (wrapErr msg m) cs x"
  unfolding performs_def by (intro allI; drule spec; cases "list_ex bad cs") (auto simp: wrapErr_def split_beta split: sum.splits)

lemma performs_if: "(b \<Longrightarrow> performs bad m cs x) \<Longrightarrow> (\<not> b \<Longrightarrow> performs bad m' ds x) \<Longrightarrow> performs bad (if b then m else m') (if b then cs else ds) x"
  by simp

lemma performs_call: "(fails c \<noteq> None) = bad c \<Longrightarrow> performs bad (recordCall fails c) [c] ()"
  by (auto simp: performs_def recordCall_def split: option.splits)

text \<open>The calls that end the process when they fail: a missing CRD is an answer, and an error of the shutdown is only logged.\<close>

definition fatal :: "(call \<Rightarrow> goerr option) \<Rightarrow> call \<Rightarrow> bool" where
  "fatal fails c = (case c of
     CallInstall _ \<Rightarrow> False
   | CallShutdown \<Rightarrow> False
   | CallGetCRD _ \<Rightarrow> (case fails c of None \<Rightarrow> False | Some err \<Rightarrow> \<not> IsNotFound err)
   | _ \<Rightarrow> fails c \<noteq> None)"

definition tracingCalls :: "mainFlags \<Rightarrow> call list" where
  "tracingCalls fl = (if fl_otlpEndpoint fl = [] then []
     else [CallExporter (fl_otlpEndpoint fl) (fl_otlpInsecure fl), CallResource, CallInstall (OTLPTracer (fl_otlpEndpoint fl) (fl_otlpInsecure fl))])"

definition ownedKinds :: "bool \<Rightarrow> bool \<Rightarrow> objectKind list" where
  "ownedKinds monitored canary = [KindDeployment, KindService, KindHPA] @ (if monitored then [KindServiceMonitor] else []) @
     (if canary then [KindHTTPRoute] else [])"

definition startPlan :: "bool \<Rightarrow> environment \<Rightarrow> mainFlags \<Rightarrow> bool \<Rightarrow> call list" where
  "startPlan monitored env fl certs =
    tracingCalls fl @ [CallNewManager (managerOptions env fl certs)] @
    (if servesRegistry (flags.truncate fl) then [CallAddRegistryServer (fl_registryAddr fl)] else []) @
    [CallGetCRD serviceMonitorCRDName] @
    [CallComplete \<lparr>cb_For = KindAgentDeployment, cb_Owns = ownedKinds monitored (fl_prometheusURL fl \<noteq> []), cb_Watches = [KindTenantQuota]\<rparr>] @
    [CallComplete \<lparr>cb_For = KindTenantQuota, cb_Owns = [], cb_Watches = [KindAgentDeployment]\<rparr>] @
    (if enableWebhooks env certs then [CallWebhook] else []) @
    [CallHealthz ''healthz''] @ [CallReadyz ''readyz''] @ [CallStart] @ (if fl_otlpEndpoint fl = [] then [] else [CallShutdown])"

lemma performs_tracing:
  "performs (fatal fails) (InitTracerProvider (recordedTracing fails) (fl_otlpEndpoint fl) (fl_otlpInsecure fl)) (tracingCalls fl)
     (if fl_otlpEndpoint fl = [] then NoopTracer else OTLPTracer (fl_otlpEndpoint fl) (fl_otlpInsecure fl))"
proof (cases "fl_otlpEndpoint fl = []")
  case True
  then show ?thesis by (simp add: InitTracerProvider_def tracingCalls_def performs_ret)
next
  case False
  have "performs (fatal fails) (InitTracerProvider (recordedTracing fails) (fl_otlpEndpoint fl) (fl_otlpInsecure fl))
      ([CallExporter (fl_otlpEndpoint fl) (fl_otlpInsecure fl)] @ [CallResource] @ [CallInstall (OTLPTracer (fl_otlpEndpoint fl) (fl_otlpInsecure fl))] @ [])
      (OTLPTracer (fl_otlpEndpoint fl) (fl_otlpInsecure fl))"
    using False unfolding InitTracerProvider_def recordedTracing_def
    by (simp only: if_False tracing.select_convs) (intro performs_andThen performs_wrapErr performs_ret; rule performs_call; simp add: fatal_def)
  with False show ?thesis by (simp add: tracingCalls_def)
qed

lemma performs_CRD:
  "performs (fatal fails) (serviceMonitorCRDExists (\<lambda>n. recordCall fails (CallGetCRD n))) [CallGetCRD serviceMonitorCRDName]
     (fails (CallGetCRD serviceMonitorCRDName) = None)"
  by (auto simp: performs_def serviceMonitorCRDExists_def recordCall_def catchErr_def fatal_def split: option.splits)

lemma performs_setup:
  fixes r :: "call list AgentDeploymentReconciler" and fails
  defines "b \<equiv> (fails (CallGetCRD serviceMonitorCRDName) = None)"
  shows "performs (fatal fails) (SetupWithManager (\<lambda>n. recordCall fails (CallGetCRD n)) (\<lambda>b. recordCall fails (CallComplete b)) r)
    ([CallGetCRD serviceMonitorCRDName] @ [CallComplete (agentController (r\<lparr>adr_hasServiceMonitorCRD := b\<rparr>))] @ []) (r\<lparr>adr_hasServiceMonitorCRD := b\<rparr>)"
  unfolding SetupWithManager_def Let_def b_def
  by (rule performs_andThen [OF performs_wrapErr [OF performs_CRD] performs_andThen [OF performs_call performs_ret]]) (simp add: fatal_def)

lemma performs_shutdown:
  "performs (fatal fails) (catchErr (tpShutdown (recordedTracing fails) (if e = [] then NoopTracer else OTLPTracer e i)) (\<lambda>err. ret ()) (\<lambda>_. ret ()))
     (if e = [] then [] else [CallShutdown]) ()"
  by (auto simp: performs_def tpShutdown_def recordedTracing_def recordCall_def catchErr_def fatal_def split: option.splits)

lemma performs_main:
  "performs (fatal fails) (main (recordedTracing fails) (recordedManager fails) K get A env fl certs)
     (startPlan (fails (CallGetCRD serviceMonitorCRDName) = None) env fl certs) ()"
proof -
  let ?b = "fails (CallGetCRD serviceMonitorCRDName) = None"
  let ?r = "(agentDeploymentReconciler env (flags.truncate fl) K get A)\<lparr>adr_hasServiceMonitorCRD := ?b\<rparr>"
  have "agentController ?r = \<lparr>cb_For = KindAgentDeployment, cb_Owns = ownedKinds ?b (fl_prometheusURL fl \<noteq> []), cb_Watches = [KindTenantQuota]\<rparr>"
    by (simp add: agentController_def agentDeploymentReconciler_def canaryController_def ownedKinds_def flags.defs)
  then have plan: "startPlan ?b env fl certs = tracingCalls fl @ [CallNewManager (managerOptions env fl certs)] @
      (if servesRegistry (flags.truncate fl) then [CallAddRegistryServer (fl_registryAddr fl)] else []) @
      ([CallGetCRD serviceMonitorCRDName] @ [CallComplete (agentController ?r)] @ []) @ [CallComplete quotaController] @
      (if enableWebhooks env certs then [CallWebhook] else []) @ [CallHealthz ''healthz''] @ [CallReadyz ''readyz''] @ [CallStart] @
      (if fl_otlpEndpoint fl = [] then [] else [CallShutdown])"
    by (simp add: startPlan_def quotaController_def)
  show ?thesis
    unfolding main_def plan recordedManager_def manager.select_convs SetupQuotaWithManager_def
    by (intro performs_andThen [OF performs_wrapErr [OF performs_tracing]] performs_andThen [OF performs_wrapErr [OF performs_setup]] performs_andThen [OF performs_if] performs_andThen
        performs_shutdown performs_wrapErr; (rule performs_ret | (rule performs_call, simp add: fatal_def)))
qed

text \<open>The last call is \<open>os.Exit\<close>'s undoing of the deferred shutdown: a manager that stops with an error leaves the spans unflushed.\<close>

lemma failed_manager_skips_shutdown:
  assumes "fails CallStart \<noteq> None"
  shows "CallShutdown \<notin> set (snd (main (recordedTracing fails) (recordedManager fails) K get A env fl certs []))"
proof -
  have "CallShutdown \<notin> set (uptoFailure (fatal fails) (xs @ [CallStart] @ ys))" if "CallShutdown \<notin> set xs" for xs ys
    using that assms by (induction xs) (auto simp: fatal_def)
  moreover have "\<exists>xs ys. startPlan b env fl certs = xs @ [CallStart] @ ys \<and> CallShutdown \<notin> set xs" for b
    unfolding startPlan_def
    by (rule exI [of _ "tracingCalls fl @ [CallNewManager (managerOptions env fl certs)] @
      (if servesRegistry (flags.truncate fl) then [CallAddRegistryServer (fl_registryAddr fl)] else []) @ [CallGetCRD serviceMonitorCRDName] @
      [CallComplete \<lparr>cb_For = KindAgentDeployment, cb_Owns = ownedKinds b (fl_prometheusURL fl \<noteq> []), cb_Watches = [KindTenantQuota]\<rparr>] @
      [CallComplete \<lparr>cb_For = KindTenantQuota, cb_Owns = [], cb_Watches = [KindAgentDeployment]\<rparr>] @
      (if enableWebhooks env certs then [CallWebhook] else []) @ [CallHealthz ''healthz''] @ [CallReadyz ''readyz'']"])
      (auto simp: tracingCalls_def)
  ultimately show ?thesis
    using performs_main [of fails K get A env fl certs] unfolding performs_def by (metis append_Nil)
qed

section \<open>Replicas of the registry\<close>

text \<open>The registry server performs on every replica, and each has a registry of its own; only the leader registers agents and hears from
  them. A replica reads the ConfigMap when it starts, and its sweeper then removes an agent whose lease, as of that reading, has
  run out, from the ConfigMap also: though the leader has heard from the agent and lists it, the next leader will not find it.\<close>

definition sample_leased :: Entry where
  "sample_leased = \<lparr>ent_Namespace = ''ns'', ent_Name = ''a'', ent_Endpoint = ''http://a'', ent_Tools = [],
     ent_RegisteredAt = 0, ent_HeartbeatAt = 0, ent_TTL = 0\<rparr>"

lemma replica_forgets_live_agent:
  "let fresh = NewRegistry (Some mem_kube) ''sys'' (90 * Second);
       (_, leader, s1) = Register 0 sample_leased (fresh, empty_mem);
       (_, replica, s2) = Start (fresh, s1);
       (_, leader', s3) = Heartbeat (60 * Second) ''ns'' ''a'' (leader, s2);
       (_, replica', s4) = sweeperTick (100 * Second) (replica, s3);
       (_, next_leader, s5) = Start (fresh, s4)
   in List (100 * Second) leader' \<noteq> Inr [] \<and> reg_entries next_leader = []"
  by code_simp

section \<open>Properties\<close>


end
