(* ===== verification/Deep_Copy.thy ===== *)
theory Deep_Copy
  imports Api_Types
begin

text \<open>
  \<^verbatim>\<open>api/v1alpha1/zz_generated.deepcopy.go\<close>: the deep copies of the custom resources. Everywhere else in the development a
  resource is a value; here it is what it is in memory, structs with pointers and slices over a store of cells, and the
  generated functions are shown to give each copy cells of its own. The copy functions of other packages
  (\<open>ObjectMeta\<close>, \<open>ListMeta\<close>, \<open>ResourceRequirements\<close>, \<open>EnvVar\<close>, \<open>Condition\<close>, \<open>Time\<close>) are parameters.
\<close>

section \<open>The store\<close>

text \<open>A pointer is an address, or \<open>None\<close> for nil. A slice is nil or a window of an array, by offset and length.\<close>

type_synonym addr = nat

datatype slice = NilSlice | Slice addr nat nat

text \<open>The structs as Go lays them out, with pointers and slices in place of what they refer to. Structs without any are those
  of the value model; \<open>TypeMeta\<close>, two strings, is left out as it is there. A value of \<open>'f\<close> stands for a struct of another package, which may hold pointers of its own.\<close>

record gCanaryStep =
  gcs_SetWeight :: "addr option"
  gcs_Pause :: "addr option"

record gRolloutPolicy =
  gro_Strategy :: string
  gro_Steps :: slice
  gro_Rollback :: RollbackPolicy
  gro_Abort :: bool

record gMCPConfig =
  gmcp_Expose :: bool
  gmcp_Tools :: slice

record 'f gAgentDeploymentSpec =
  gspec_Image :: string
  gspec_Port :: int32
  gspec_TenantRef :: string
  gspec_Replicas :: ScalingPolicy
  gspec_Rollout :: gRolloutPolicy
  gspec_MCP :: gMCPConfig
  gspec_Resources :: 'f
  gspec_Env :: slice
  gspec_Args :: slice

record gAgentDeploymentStatus =
  gstatus_Phase :: Phase
  gstatus_CurrentReplicas :: int32
  gstatus_StableVersion :: string
  gstatus_CanaryVersion :: string
  gstatus_CanaryWeight :: int32
  gstatus_CanaryStepIndex :: int
  gstatus_PauseStartedAt :: "addr option"
  gstatus_PromUnreachableSince :: "addr option"
  gstatus_Registered :: bool
  gstatus_Conditions :: slice

record 'f gAgentDeployment =
  gad_Meta :: 'f
  gad_Spec :: "'f gAgentDeploymentSpec"
  gad_Status :: gAgentDeploymentStatus

record gTenantQuotaStatus =
  gtq_UsedAgents :: int32
  gtq_UsedGPUs :: int32
  gtq_UsedTotalReplicas :: int32
  gtq_Conditions :: slice

record 'f gTenantQuota =
  gtq_Meta :: 'f
  gtq_Spec :: TenantQuotaSpec
  gtq_Status :: gTenantQuotaStatus

record 'f gObjectList =
  gl_ListMeta :: 'f
  gl_Items :: slice

datatype 'f cell =
    CInt32 int32
  | CDuration duration
  | CTime time
  | CStrings "string list"
  | CSteps "gCanaryStep list"
  | CForeigns "'f list"
  | CAgents "'f gAgentDeployment list"
  | CQuotas "'f gTenantQuota list"

text \<open>Cells are allocated in order and never freed.\<close>

record 'f store =
  st_next :: addr
  st_cells :: "addr \<Rightarrow> 'f cell option"

type_synonym ('f, 'g) copier = "'g \<Rightarrow> 'f store \<Rightarrow> 'g \<times> 'f store"

definition load :: "'f store \<Rightarrow> addr \<Rightarrow> 'f cell option" where
  "load h a = (if a < st_next h then st_cells h a else None)"

definition alloc :: "'f cell \<Rightarrow> 'f store \<Rightarrow> addr \<times> 'f store" where
  "alloc c h = (st_next h, h\<lparr>st_next := st_next h + 1, st_cells := (st_cells h)(st_next h \<mapsto> c)\<rparr>)"

definition assign :: "addr \<Rightarrow> 'f cell \<Rightarrow> 'f store \<Rightarrow> 'f store" where
  "assign a c h = h\<lparr>st_cells := (st_cells h)(a \<mapsto> c)\<rparr>"

fun theInt32 :: "'f cell \<Rightarrow> int32 option" where
  "theInt32 (CInt32 x) = Some x"
| "theInt32 _ = None"

fun theDuration :: "'f cell \<Rightarrow> duration option" where
  "theDuration (CDuration x) = Some x"
| "theDuration _ = None"

fun theTime :: "'f cell \<Rightarrow> time option" where
  "theTime (CTime x) = Some x"
| "theTime _ = None"

fun theStrings :: "'f cell \<Rightarrow> string list option" where
  "theStrings (CStrings xs) = Some xs"
| "theStrings _ = None"

fun theSteps :: "'f cell \<Rightarrow> gCanaryStep list option" where
  "theSteps (CSteps xs) = Some xs"
| "theSteps _ = None"

fun theForeigns :: "'f cell \<Rightarrow> 'f list option" where
  "theForeigns (CForeigns xs) = Some xs"
| "theForeigns _ = None"

fun theAgents :: "'f cell \<Rightarrow> 'f gAgentDeployment list option" where
  "theAgents (CAgents xs) = Some xs"
| "theAgents _ = None"

fun theQuotas :: "'f cell \<Rightarrow> 'f gTenantQuota list option" where
  "theQuotas (CQuotas xs) = Some xs"
| "theQuotas _ = None"

section \<open>Copying pointers and slices\<close>

text \<open>The shapes of which the generated code is made. \<open>copyCell\<close> is \<open>*out = new(T); **out = **in\<close>; \<open>copyPtr\<close> guards a copy by
  \<open>!= nil\<close>; \<open>copySlice\<close> is \<open>make\<close> followed by the loop that copies element by element. Go's types exclude
  the branches for an address without a cell of the right type.\<close>

definition copyValue :: "('f, 'g) copier" where
  "copyValue g h = (g, h)"

definition copyCell :: "('f, addr) copier" where
  "copyCell a h = (case load h a of None \<Rightarrow> (a, h) | Some c \<Rightarrow> alloc c h)"

definition copyPtr :: "('f, addr) copier \<Rightarrow> ('f, addr option) copier" where
  "copyPtr copy p h = (case p of None \<Rightarrow> (None, h) | Some a \<Rightarrow> (case copy a h of (a', h') \<Rightarrow> (Some a', h')))"

fun copyList :: "('f, 'g) copier \<Rightarrow> ('f, 'g list) copier" where
  "copyList copy [] h = ([], h)"
| "copyList copy (g # gs) h = (case copy g h of (g', h1) \<Rightarrow> (case copyList copy gs h1 of (gs', h2) \<Rightarrow> (g' # gs', h2)))"

definition elements :: "('f cell \<Rightarrow> 'g list option) \<Rightarrow> 'f store \<Rightarrow> slice \<Rightarrow> 'g list option" where
  "elements unpack h s = (case s of
     NilSlice \<Rightarrow> Some []
   | Slice a i n \<Rightarrow> (case Option.bind (load h a) unpack of
       None \<Rightarrow> None
     | Some gs \<Rightarrow> if i + n \<le> length gs then Some (take n (drop i gs)) else None))"

definition copySlice :: "('g list \<Rightarrow> 'f cell) \<Rightarrow> ('f cell \<Rightarrow> 'g list option) \<Rightarrow> ('f, 'g) copier \<Rightarrow> ('f, slice) copier" where
  "copySlice pack unpack copy s h = (case s of
     NilSlice \<Rightarrow> (NilSlice, h)
   | Slice a i n \<Rightarrow> (case elements unpack h s of
       None \<Rightarrow> (s, h)
     | Some gs \<Rightarrow> (case alloc (pack []) h of (a', h1) \<Rightarrow>
         (case copyList copy gs h1 of (gs', h2) \<Rightarrow> (Slice a' 0 n, assign a' (pack gs') h2)))))"

definition copyPair :: "('f, 'g) copier \<Rightarrow> ('f, 'k) copier \<Rightarrow> ('f, 'g \<times> 'k) copier" where
  "copyPair c d p h = (case c (fst p) h of (x, h1) \<Rightarrow> (case d (snd p) h1 of (y, h2) \<Rightarrow> ((x, y), h2)))"

definition copyField :: "('s \<Rightarrow> 'g) \<Rightarrow> ('g \<Rightarrow> 's \<Rightarrow> 's) \<Rightarrow> ('f, 'g) copier \<Rightarrow> ('f, 's) copier" where
  "copyField get put copy s h = (case copy (get s) h of (g, h') \<Rightarrow> (put g s, h'))"

section \<open>The generated functions\<close>

text \<open>The copy functions of other packages.\<close>

record 'f foreignCopies =
  fc_ObjectMeta :: "('f, 'f) copier"
  fc_ListMeta :: "('f, 'f) copier"
  fc_Resources :: "('f, 'f) copier"
  fc_EnvVar :: "('f, 'f) copier"
  fc_Condition :: "('f, 'f) copier"
  fc_Time :: "('f, addr) copier"

text \<open>\<open>*out = *in\<close> makes the result the struct itself; then every field that holds a pointer or a slice is replaced by a copy.\<close>

definition DeepCopyInto_RollbackPolicy :: "('f, RollbackPolicy) copier" where
  "DeepCopyInto_RollbackPolicy = copyValue"

definition DeepCopyInto_ScalingPolicy :: "('f, ScalingPolicy) copier" where
  "DeepCopyInto_ScalingPolicy = copyValue"

definition DeepCopyInto_TenantQuotaSpec :: "('f, TenantQuotaSpec) copier" where
  "DeepCopyInto_TenantQuotaSpec = copyValue"

definition DeepCopyInto_CanaryStep :: "('f, gCanaryStep) copier" where
  "DeepCopyInto_CanaryStep g h =
    (case copyPtr copyCell (gcs_SetWeight g) h of (w, h1) \<Rightarrow>
     case copyPtr copyCell (gcs_Pause g) h1 of (p, h2) \<Rightarrow> (g\<lparr>gcs_SetWeight := w, gcs_Pause := p\<rparr>, h2))"

definition DeepCopyInto_MCPConfig :: "('f, gMCPConfig) copier" where
  "DeepCopyInto_MCPConfig g h = (case copySlice CStrings theStrings copyValue (gmcp_Tools g) h of (ts, h1) \<Rightarrow> (g\<lparr>gmcp_Tools := ts\<rparr>, h1))"

definition DeepCopyInto_RolloutPolicy :: "('f, gRolloutPolicy) copier" where
  "DeepCopyInto_RolloutPolicy g h =
    (case copySlice CSteps theSteps DeepCopyInto_CanaryStep (gro_Steps g) h of (ss, h1) \<Rightarrow> (g\<lparr>gro_Steps := ss\<rparr>, h1))"

definition DeepCopyInto_AgentDeploymentSpec :: "'f foreignCopies \<Rightarrow> ('f, 'f gAgentDeploymentSpec) copier" where
  "DeepCopyInto_AgentDeploymentSpec F g h =
    (case DeepCopyInto_RolloutPolicy (gspec_Rollout g) h of (ro, h1) \<Rightarrow>
     case DeepCopyInto_MCPConfig (gspec_MCP g) h1 of (mcp, h2) \<Rightarrow>
     case fc_Resources F (gspec_Resources g) h2 of (res, h3) \<Rightarrow>
     case copySlice CForeigns theForeigns (fc_EnvVar F) (gspec_Env g) h3 of (env, h4) \<Rightarrow>
     case copySlice CStrings theStrings copyValue (gspec_Args g) h4 of (args, h5) \<Rightarrow>
       (g\<lparr>gspec_Rollout := ro, gspec_MCP := mcp, gspec_Resources := res, gspec_Env := env, gspec_Args := args\<rparr>, h5))"

definition DeepCopyInto_AgentDeploymentStatus :: "'f foreignCopies \<Rightarrow> ('f, gAgentDeploymentStatus) copier" where
  "DeepCopyInto_AgentDeploymentStatus F g h =
    (case copyPtr (fc_Time F) (gstatus_PauseStartedAt g) h of (p, h1) \<Rightarrow>
     case copyPtr (fc_Time F) (gstatus_PromUnreachableSince g) h1 of (u, h2) \<Rightarrow>
     case copySlice CForeigns theForeigns (fc_Condition F) (gstatus_Conditions g) h2 of (cs, h3) \<Rightarrow>
       (g\<lparr>gstatus_PauseStartedAt := p, gstatus_PromUnreachableSince := u, gstatus_Conditions := cs\<rparr>, h3))"

definition DeepCopyInto_AgentDeployment :: "'f foreignCopies \<Rightarrow> ('f, 'f gAgentDeployment) copier" where
  "DeepCopyInto_AgentDeployment F g h =
    (case fc_ObjectMeta F (gad_Meta g) h of (m, h1) \<Rightarrow>
     case DeepCopyInto_AgentDeploymentSpec F (gad_Spec g) h1 of (sp, h2) \<Rightarrow>
     case DeepCopyInto_AgentDeploymentStatus F (gad_Status g) h2 of (st, h3) \<Rightarrow>
       (g\<lparr>gad_Meta := m, gad_Spec := sp, gad_Status := st\<rparr>, h3))"

definition DeepCopyInto_AgentDeploymentList :: "'f foreignCopies \<Rightarrow> ('f, 'f gObjectList) copier" where
  "DeepCopyInto_AgentDeploymentList F g h =
    (case fc_ListMeta F (gl_ListMeta g) h of (m, h1) \<Rightarrow>
     case copySlice CAgents theAgents (DeepCopyInto_AgentDeployment F) (gl_Items g) h1 of (items, h2) \<Rightarrow>
       (g\<lparr>gl_ListMeta := m, gl_Items := items\<rparr>, h2))"

definition DeepCopyInto_TenantQuotaStatus :: "'f foreignCopies \<Rightarrow> ('f, gTenantQuotaStatus) copier" where
  "DeepCopyInto_TenantQuotaStatus F g h =
    (case copySlice CForeigns theForeigns (fc_Condition F) (gtq_Conditions g) h of (cs, h1) \<Rightarrow> (g\<lparr>gtq_Conditions := cs\<rparr>, h1))"

definition DeepCopyInto_TenantQuota :: "'f foreignCopies \<Rightarrow> ('f, 'f gTenantQuota) copier" where
  "DeepCopyInto_TenantQuota F g h =
    (case fc_ObjectMeta F (gtq_Meta g) h of (m, h1) \<Rightarrow>
     case DeepCopyInto_TenantQuotaStatus F (gtq_Status g) h1 of (st, h2) \<Rightarrow> (g\<lparr>gtq_Meta := m, gtq_Status := st\<rparr>, h2))"

definition DeepCopyInto_TenantQuotaList :: "'f foreignCopies \<Rightarrow> ('f, 'f gObjectList) copier" where
  "DeepCopyInto_TenantQuotaList F g h =
    (case fc_ListMeta F (gl_ListMeta g) h of (m, h1) \<Rightarrow>
     case copySlice CQuotas theQuotas (DeepCopyInto_TenantQuota F) (gl_Items g) h1 of (items, h2) \<Rightarrow>
       (g\<lparr>gl_ListMeta := m, gl_Items := items\<rparr>, h2))"

text \<open>\<open>DeepCopy\<close> of any of the structs: nil for nil, otherwise a new struct filled by \<open>DeepCopyInto\<close>.\<close>

definition DeepCopy :: "('f, 'g) copier \<Rightarrow> 'g option \<Rightarrow> 'f store \<Rightarrow> 'g option \<times> 'f store" where
  "DeepCopy into g h = (case g of None \<Rightarrow> (None, h) | Some x \<Rightarrow> (case into x h of (y, h') \<Rightarrow> (Some y, h')))"

definition DeepCopy_CanaryStep :: "('f, gCanaryStep option) copier" where
  "DeepCopy_CanaryStep = DeepCopy DeepCopyInto_CanaryStep"

definition DeepCopy_MCPConfig :: "('f, gMCPConfig option) copier" where
  "DeepCopy_MCPConfig = DeepCopy DeepCopyInto_MCPConfig"

definition DeepCopy_RollbackPolicy :: "('f, RollbackPolicy option) copier" where
  "DeepCopy_RollbackPolicy = DeepCopy DeepCopyInto_RollbackPolicy"

definition DeepCopy_RolloutPolicy :: "('f, gRolloutPolicy option) copier" where
  "DeepCopy_RolloutPolicy = DeepCopy DeepCopyInto_RolloutPolicy"

definition DeepCopy_ScalingPolicy :: "('f, ScalingPolicy option) copier" where
  "DeepCopy_ScalingPolicy = DeepCopy DeepCopyInto_ScalingPolicy"

definition DeepCopy_AgentDeploymentSpec :: "'f foreignCopies \<Rightarrow> ('f, 'f gAgentDeploymentSpec option) copier" where
  "DeepCopy_AgentDeploymentSpec F = DeepCopy (DeepCopyInto_AgentDeploymentSpec F)"

definition DeepCopy_AgentDeploymentStatus :: "'f foreignCopies \<Rightarrow> ('f, gAgentDeploymentStatus option) copier" where
  "DeepCopy_AgentDeploymentStatus F = DeepCopy (DeepCopyInto_AgentDeploymentStatus F)"

definition DeepCopy_AgentDeployment :: "'f foreignCopies \<Rightarrow> ('f, 'f gAgentDeployment option) copier" where
  "DeepCopy_AgentDeployment F = DeepCopy (DeepCopyInto_AgentDeployment F)"

definition DeepCopy_AgentDeploymentList :: "'f foreignCopies \<Rightarrow> ('f, 'f gObjectList option) copier" where
  "DeepCopy_AgentDeploymentList F = DeepCopy (DeepCopyInto_AgentDeploymentList F)"

definition DeepCopy_TenantQuotaSpec :: "('f, TenantQuotaSpec option) copier" where
  "DeepCopy_TenantQuotaSpec = DeepCopy DeepCopyInto_TenantQuotaSpec"

definition DeepCopy_TenantQuotaStatus :: "'f foreignCopies \<Rightarrow> ('f, gTenantQuotaStatus option) copier" where
  "DeepCopy_TenantQuotaStatus F = DeepCopy (DeepCopyInto_TenantQuotaStatus F)"

definition DeepCopy_TenantQuota :: "'f foreignCopies \<Rightarrow> ('f, 'f gTenantQuota option) copier" where
  "DeepCopy_TenantQuota F = DeepCopy (DeepCopyInto_TenantQuota F)"

definition DeepCopy_TenantQuotaList :: "'f foreignCopies \<Rightarrow> ('f, 'f gObjectList option) copier" where
  "DeepCopy_TenantQuotaList F = DeepCopy (DeepCopyInto_TenantQuotaList F)"

text \<open>\<open>DeepCopyObject\<close> returns the copy as a \<open>runtime.Object\<close>: the nil interface for a nil pointer, and not an interface that holds one.\<close>

datatype 'g interface = NilInterface | Holding "'g option"

definition asObject :: "'g option \<times> 'f store \<Rightarrow> 'g interface \<times> 'f store" where
  "asObject res = (case res of (None, h) \<Rightarrow> (NilInterface, h) | (Some c, h) \<Rightarrow> (Holding (Some c), h))"

definition DeepCopyObject_AgentDeployment :: "'f foreignCopies \<Rightarrow> 'f gAgentDeployment option \<Rightarrow> 'f store \<Rightarrow> 'f gAgentDeployment interface \<times> 'f store" where
  "DeepCopyObject_AgentDeployment F g h = asObject (DeepCopy_AgentDeployment F g h)"

definition DeepCopyObject_AgentDeploymentList :: "'f foreignCopies \<Rightarrow> 'f gObjectList option \<Rightarrow> 'f store \<Rightarrow> 'f gObjectList interface \<times> 'f store" where
  "DeepCopyObject_AgentDeploymentList F g h = asObject (DeepCopy_AgentDeploymentList F g h)"

definition DeepCopyObject_TenantQuota :: "'f foreignCopies \<Rightarrow> 'f gTenantQuota option \<Rightarrow> 'f store \<Rightarrow> 'f gTenantQuota interface \<times> 'f store" where
  "DeepCopyObject_TenantQuota F g h = asObject (DeepCopy_TenantQuota F g h)"

definition DeepCopyObject_TenantQuotaList :: "'f foreignCopies \<Rightarrow> 'f gObjectList option \<Rightarrow> 'f store \<Rightarrow> 'f gObjectList interface \<times> 'f store" where
  "DeepCopyObject_TenantQuotaList F g h = asObject (DeepCopy_TenantQuotaList F g h)"

section \<open>What a deep copy is\<close>

text \<open>\<open>extends h h'\<close>: the store has only grown; every cell it had is as it was.\<close>

definition extends :: "'f store \<Rightarrow> 'f store \<Rightarrow> bool" where
  "extends h h' \<longleftrightarrow> st_next h \<le> st_next h' \<and> (\<forall>a < st_next h. load h' a = load h a)"

lemma extends_refl [simp]: "extends h h"
  by (simp add: extends_def)

lemma extends_trans [trans]: "extends h h1 \<Longrightarrow> extends h1 h2 \<Longrightarrow> extends h h2"
  by (auto simp: extends_def)

text \<open>A copier together with the cells a struct reaches and the value it denotes. The value depends on those cells only; a copy
  denotes the same value, reaches only cells allocated for it, and leaves all others alone.\<close>

locale deep_copy =
  fixes copy :: "('f, 'g) copier" and foot :: "'f store \<Rightarrow> 'g \<Rightarrow> addr set" and sees :: "'f store \<Rightarrow> 'g \<Rightarrow> 'v option"
  assumes grows: "extends h (snd (copy g h))"
    and copied: "sees h g = Some v \<Longrightarrow> sees (snd (copy g h)) (fst (copy g h)) = Some v"
    and fresh: "sees h g = Some v \<Longrightarrow> foot (snd (copy g h)) (fst (copy g h)) \<subseteq> {st_next h ..< st_next (snd (copy g h))}"
    and bounded: "sees h g = Some v \<Longrightarrow> foot h g \<subseteq> {..< st_next h}"
    and determined: "sees h g = Some v \<Longrightarrow> (\<And>a. a \<in> foot h g \<Longrightarrow> load h' a = load h a) \<Longrightarrow> sees h' g = Some v \<and> foot h' g = foot h g"
begin

lemma kept: "sees h g = Some v \<Longrightarrow> extends h h' \<Longrightarrow> sees h' g = Some v \<and> foot h' g = foot h g"
  using bounded [of h g v] by (intro determined) (auto simp: extends_def subset_iff)

lemma independent:
  assumes "sees h g = Some v" and "copy g h = (g', h')"
    and "\<And>a. st_next h \<le> a \<Longrightarrow> a < st_next h' \<Longrightarrow> load h'' a = load h' a"
  shows "sees h'' g' = Some v"
proof -
  have "load h'' a = load h' a" if "a \<in> foot h' g'" for a
    using fresh [OF assms(1)] assms(2,3) that by (auto simp: subset_iff)
  then show ?thesis
    using determined [of h' g' v h''] copied [OF assms(1)] assms(2) by simp
qed

lemma original:
  assumes "sees h g = Some v" and "copy g h = (g', h')" and "\<And>a. a < st_next h \<Longrightarrow> load h'' a = load h' a"
  shows "sees h'' g = Some v"
proof -
  have "load h'' a = load h a" if "a \<in> foot h g" for a
    using that bounded [OF assms(1)] assms(2,3) grows [of h g] by (auto simp: extends_def)
  then show ?thesis
    using determined [OF assms(1)] by blast
qed

end

section \<open>The shapes copy deeply\<close>

lemma load_alloc: "alloc c h = (a, h') \<Longrightarrow> load h' b = (if b = a then Some c else load h b) \<and> a = st_next h \<and> st_next h' = st_next h + 1"
  by (auto simp: alloc_def load_def)

lemma load_new: "load (snd (alloc c h)) (fst (alloc c h)) = Some c"
  by (simp add: alloc_def load_def)

lemma load_assign: "a < st_next h \<Longrightarrow> load (assign a c h) b = (if b = a then Some c else load h b)" "st_next (assign a c h) = st_next h"
  by (auto simp: assign_def load_def)

lemma load_bound: "load h a = Some c \<Longrightarrow> a < st_next h"
  by (simp add: load_def split: if_splits)

lemma extends_alloc: "extends h (snd (alloc c h))"
  by (auto simp: extends_def alloc_def load_def)

lemma deep_copyValue: "deep_copy copyValue (\<lambda>h g. {}) (\<lambda>h g. Some g)"
  by unfold_locales (simp_all add: copyValue_def)

definition seesCell :: "('f cell \<Rightarrow> 'v option) \<Rightarrow> 'f store \<Rightarrow> addr \<Rightarrow> 'v option" where
  "seesCell unpack h a = Option.bind (load h a) unpack"

lemma deep_copyCell: "deep_copy copyCell (\<lambda>h a. {a}) (seesCell unpack)"
proof (unfold_locales, goal_cases)
  case (1 h g)
  show ?case by (auto simp: copyCell_def extends_alloc split: option.splits)
next
  case (2 h g v)
  then show ?case by (auto simp: copyCell_def seesCell_def bind_eq_Some_conv load_new)
next
  case (3 h g v)
  then show ?case by (auto simp: copyCell_def seesCell_def bind_eq_Some_conv alloc_def)
next
  case (4 h g v)
  then show ?case by (auto simp: seesCell_def bind_eq_Some_conv dest: load_bound)
qed (auto simp: seesCell_def bind_eq_Some_conv)

definition seesPtr :: "('f store \<Rightarrow> addr \<Rightarrow> 'v option) \<Rightarrow> 'f store \<Rightarrow> addr option \<Rightarrow> 'v option option" where
  "seesPtr sees h p = (case p of None \<Rightarrow> Some None | Some a \<Rightarrow> map_option Some (sees h a))"

definition footPtr :: "('f store \<Rightarrow> addr \<Rightarrow> addr set) \<Rightarrow> 'f store \<Rightarrow> addr option \<Rightarrow> addr set" where
  "footPtr foot h p = (case p of None \<Rightarrow> {} | Some a \<Rightarrow> foot h a)"

lemma deep_copyPtr:
  assumes "deep_copy copy foot sees"
  shows "deep_copy (copyPtr copy) (footPtr foot) (seesPtr sees)"
proof (unfold_locales, goal_cases)
  case (1 h p)
  show ?case using deep_copy.grows [OF assms] by (cases p) (simp_all add: copyPtr_def split_beta)
next
  case (2 h p v)
  then show ?case using deep_copy.copied [OF assms] by (cases p) (auto simp: copyPtr_def seesPtr_def split_beta)
next
  case (3 h p v)
  then show ?case using deep_copy.fresh [OF assms] by (cases p) (auto simp: copyPtr_def seesPtr_def footPtr_def split_beta)
next
  case (4 h p v)
  then show ?case using deep_copy.bounded [OF assms] by (cases p) (auto simp: seesPtr_def footPtr_def)
next
  case (5 h p v h')
  then show ?case using deep_copy.determined [OF assms, of h "the p" _ h'] by (cases p) (auto simp: seesPtr_def footPtr_def)
qed

text \<open>Two copies in a row, and a copy of a field: \<open>flat\<close> is what the field's struct denotes, given what the field denotes.\<close>

definition seesPair :: "('f store \<Rightarrow> 'g \<Rightarrow> 'v option) \<Rightarrow> ('f store \<Rightarrow> 'k \<Rightarrow> 'w option) \<Rightarrow> 'f store \<Rightarrow> 'g \<times> 'k \<Rightarrow> ('v \<times> 'w) option" where
  "seesPair s t h p = Option.bind (s h (fst p)) (\<lambda>x. map_option (\<lambda>y. (x, y)) (t h (snd p)))"

definition footPair :: "('f store \<Rightarrow> 'g \<Rightarrow> addr set) \<Rightarrow> ('f store \<Rightarrow> 'k \<Rightarrow> addr set) \<Rightarrow> 'f store \<Rightarrow> 'g \<times> 'k \<Rightarrow> addr set" where
  "footPair f g h p = f h (fst p) \<union> g h (snd p)"

lemma extends_Suc: "extends h h' \<Longrightarrow> st_next h \<le> st_next h'"
  by (simp add: extends_def)

lemma deep_copyPair:
  assumes c: "deep_copy c f s" and d: "deep_copy d g t"
  shows "deep_copy (copyPair c d) (footPair f g) (seesPair s t)"
proof (unfold_locales, goal_cases)
  case (1 h p)
  show ?case
    using deep_copy.grows [OF c, of h "fst p"] deep_copy.grows [OF d] by (auto simp: copyPair_def split_beta intro: extends_trans)
next
  case (2 h p v)
  let ?h1 = "snd (c (fst p) h)"
  from 2 have s: "s h (fst p) = Some (fst v)" and t: "t h (snd p) = Some (snd v)" by (auto simp: seesPair_def bind_eq_Some_conv)
  then have "t ?h1 (snd p) = Some (snd v)"
    using deep_copy.kept [OF d] deep_copy.grows [OF c] by blast
  then show ?case
    using deep_copy.copied [OF d, of ?h1 "snd p"] deep_copy.kept [OF c deep_copy.copied [OF c s] deep_copy.grows [OF d]]
    by (auto simp: copyPair_def seesPair_def split_beta)
next
  case (3 h p v)
  let ?h1 = "snd (c (fst p) h)"
  from 3 have s: "s h (fst p) = Some (fst v)" and t: "t h (snd p) = Some (snd v)" by (auto simp: seesPair_def bind_eq_Some_conv)
  then have "t ?h1 (snd p) = Some (snd v)"
    using deep_copy.kept [OF d] deep_copy.grows [OF c] by blast
  from deep_copy.fresh [OF d this] deep_copy.fresh [OF c s] deep_copy.kept [OF c deep_copy.copied [OF c s] deep_copy.grows [OF d]]
    extends_Suc [OF deep_copy.grows [OF c, of h "fst p"]] extends_Suc [OF deep_copy.grows [OF d, of ?h1 "snd p"]]
  show ?case by (fastforce simp: copyPair_def footPair_def split_beta)
next
  case (4 h p v)
  then show ?case
    using deep_copy.bounded [OF c] deep_copy.bounded [OF d] by (fastforce simp: footPair_def seesPair_def bind_eq_Some_conv)
next
  case (5 h p v h')
  then have s: "s h (fst p) = Some (fst v)" and t: "t h (snd p) = Some (snd v)" by (auto simp: seesPair_def bind_eq_Some_conv)
  from deep_copy.determined [OF c s, of h'] deep_copy.determined [OF d t, of h'] 5(2) show ?case
    by (auto simp: seesPair_def footPair_def)
qed

lemma deep_copyField:
  assumes c: "deep_copy c f s" and "\<And>x g. get (put x g) = x" and "\<And>x g v. flat (put x g) v = flat g v"
  shows "deep_copy (copyField get put c) (\<lambda>h g. f h (get g)) (\<lambda>h g. map_option (flat g) (s h (get g)))"
proof (unfold_locales, goal_cases)
  case (1 h g)
  show ?case using deep_copy.grows [OF c] by (simp add: copyField_def split_beta)
next
  case (2 h g v)
  then show ?case using deep_copy.copied [OF c] by (auto simp: copyField_def split_beta assms(2,3))
next
  case (3 h g v)
  then show ?case using deep_copy.fresh [OF c] by (auto simp: copyField_def split_beta assms(2))
next
  case (4 h g v)
  then show ?case using deep_copy.bounded [OF c] by blast
next
  case (5 h g v h')
  then show ?case using deep_copy.determined [OF c, of h "get g" _ h'] by auto
qed

definition seesList :: "('f store \<Rightarrow> 'g \<Rightarrow> 'v option) \<Rightarrow> 'f store \<Rightarrow> 'g list \<Rightarrow> 'v list option" where
  "seesList sees h gs = those (map (sees h) gs)"

lemma seesList_simps [simp]:
  "seesList sees h [] = Some []"
  "seesList sees h (g # gs) = Option.bind (sees h g) (\<lambda>v. map_option (Cons v) (seesList sees h gs))"
  by (simp_all add: seesList_def split: option.split)

text \<open>A list is copied like the pair of its head and its tail.\<close>

lemma seesList_local:
  assumes "deep_copy copy foot sees" and "seesList sees h gs = Some vs"
  shows "\<Union> (foot h ` set gs) \<subseteq> {..< st_next h}"
    and "(\<And>a. a \<in> \<Union> (foot h ` set gs) \<Longrightarrow> load h' a = load h a) \<Longrightarrow>
      seesList sees h' gs = Some vs \<and> \<Union> (foot h' ` set gs) = \<Union> (foot h ` set gs)"
  using assms(2)
proof (induction gs arbitrary: vs)
  case (Cons g gs)
  {
    case 1
    then obtain v vs' where "sees h g = Some v" "seesList sees h gs = Some vs'" by (auto simp: bind_eq_Some_conv)
    with Cons(1) deep_copy.bounded [OF assms(1)] show ?case by auto
  next
    case 2
    then obtain v vs' where "sees h g = Some v" "seesList sees h gs = Some vs'" "vs = v # vs'" by (auto simp: bind_eq_Some_conv)
    with 2(1) Cons(2) deep_copy.determined [OF assms(1), of h g v h'] show ?case by auto
  }
qed simp_all

lemma deep_copyList:
  assumes "deep_copy copy foot sees"
  shows "deep_copy (copyList copy) (\<lambda>h gs. \<Union> (foot h ` set gs)) (seesList sees)"
proof -
  let ?foot = "\<lambda>h gs. \<Union> (foot h ` set gs)"
  have grows: "extends h (snd (copyList copy gs h))" for h gs
    by (induction gs arbitrary: h) (auto simp: split_beta intro: extends_trans deep_copy.grows [OF assms])
  have copied: "seesList sees (snd (copyList copy gs h)) (fst (copyList copy gs h)) = Some vs \<and>
      ?foot (snd (copyList copy gs h)) (fst (copyList copy gs h)) \<subseteq> {st_next h ..< st_next (snd (copyList copy gs h))}"
    if "seesList sees h gs = Some vs" for h gs vs
    using that
  proof (induction gs arbitrary: h vs)
    case (Cons g gs)
    then obtain v vs' where v: "sees h g = Some v" and vs: "seesList sees h gs = Some vs'" "vs = v # vs'" by (auto simp: bind_eq_Some_conv)
    let ?h1 = "snd (copy g h)" and ?h2 = "snd (copyList copy gs (snd (copy g h)))"
    note ext = deep_copy.grows [OF assms, of h g] grows [of ?h1 gs]
    have "seesList sees ?h1 gs = Some vs'"
      using seesList_local(1) [OF assms vs(1)] seesList_local(2) [OF assms vs(1), of ?h1] ext(1) by (auto simp: extends_def subset_iff)
    note IH = Cons.IH [OF this]
    note head = deep_copy.kept [OF assms deep_copy.copied [OF assms v] ext(2)] deep_copy.fresh [OF assms v]
    from IH head vs(2) extends_Suc [OF ext(1)] extends_Suc [OF ext(2)] show ?case
      by (fastforce simp: split_beta subset_iff)
  qed simp
  show ?thesis
    by (rule deep_copy.intro; (rule grows | erule copied [THEN conjunct1] | erule copied [THEN conjunct2] | erule seesList_local(1) [OF assms]
        | (erule seesList_local(2) [OF assms], blast)))
qed

definition seesSlice :: "('f cell \<Rightarrow> 'g list option) \<Rightarrow> ('f store \<Rightarrow> 'g \<Rightarrow> 'v option) \<Rightarrow> 'f store \<Rightarrow> slice \<Rightarrow> 'v list option" where
  "seesSlice unpack sees h s = Option.bind (elements unpack h s) (seesList sees h)"

definition footSlice :: "('f cell \<Rightarrow> 'g list option) \<Rightarrow> ('f store \<Rightarrow> 'g \<Rightarrow> addr set) \<Rightarrow> 'f store \<Rightarrow> slice \<Rightarrow> addr set" where
  "footSlice unpack foot h s = (case s of NilSlice \<Rightarrow> {} | Slice a i n \<Rightarrow>
     insert a (case elements unpack h s of None \<Rightarrow> {} | Some gs \<Rightarrow> \<Union> (foot h ` set gs)))"

lemma length_copyList [simp]: "length (fst (copyList copy gs h)) = length gs"
  by (induction gs arbitrary: h) (auto simp: split_beta)

lemma elements_load: "load h' a = load h a \<Longrightarrow> elements unpack h' (Slice a i n) = elements unpack h (Slice a i n)"
  by (simp add: elements_def)

lemma elements_bound: "elements unpack h (Slice a i n) = Some gs \<Longrightarrow> a < st_next h \<and> length gs = n"
  by (auto simp: elements_def bind_eq_Some_conv split: option.splits if_splits dest: load_bound)

text \<open>The array is allocated before its elements are copied, and filled after.\<close>

lemma copySlice_filled:
  fixes h pack unpack copy a i n
  defines "res \<equiv> copySlice pack unpack copy (Slice a i n) h"
  assumes pack: "\<And>gs. unpack (pack gs) = Some gs" and elem: "deep_copy copy foot sees" and gs: "elements unpack h (Slice a i n) = Some gs"
  shows "extends h (snd res)"
    and "seesList sees h gs = Some vs \<Longrightarrow> seesSlice unpack sees (snd res) (fst res) = Some vs \<and>
      footSlice unpack foot (snd res) (fst res) \<subseteq> {st_next h ..< st_next (snd res)}"
proof -
  note list = deep_copyList [OF elem]
  define h1 h2 where "h1 = snd (alloc (pack []) h)" and "h2 = snd (copyList copy gs h1)"
  let ?gs = "fst (copyList copy gs h1)" and ?h3 = "assign (st_next h) (pack (fst (copyList copy gs h1))) h2"
  have res: "res = (Slice (st_next h) 0 n, ?h3)"
    using gs by (simp add: res_def copySlice_def h1_def h2_def split_beta alloc_def)
  have next1: "st_next h1 = Suc (st_next h)" and ext: "extends h h1" "extends h1 h2"
    using extends_alloc deep_copy.grows [OF list] by (auto simp: h1_def h2_def alloc_def)
  then have next2: "st_next h < st_next h2" using extends_Suc [OF ext(2)] by simp
  note load3 = load_assign(1) [OF next2] load_assign(2)
  have elems: "elements unpack ?h3 (Slice (st_next h) 0 n) = Some ?gs"
    using elements_bound [OF gs] by (simp add: elements_def load3 pack)
  show "extends h (snd res)"
    using extends_trans [OF ext] next2 by (simp add: extends_def load3 res)
  assume "seesList sees h gs = Some vs"
  then have vs: "seesList sees h1 gs = Some vs"
    using deep_copy.kept [OF list _ ext(1)] by simp
  have fresh: "\<Union> (foot h2 ` set ?gs) \<subseteq> {st_next h1 ..< st_next h2}"
    using deep_copy.fresh [OF list vs] by (simp add: h2_def)
  then have "load ?h3 b = load h2 b" if "b \<in> \<Union> (foot h2 ` set ?gs)" for b
    using that next1 by (auto simp: load3)
  then have "seesList sees ?h3 ?gs = Some vs \<and> \<Union> (foot ?h3 ` set ?gs) = \<Union> (foot h2 ` set ?gs)"
    using deep_copy.determined [OF list deep_copy.copied [OF list vs], of ?h3] by (simp add: h2_def)
  with fresh next1 next2 show "seesSlice unpack sees (snd res) (fst res) = Some vs \<and>
      footSlice unpack foot (snd res) (fst res) \<subseteq> {st_next h ..< st_next (snd res)}"
    by (auto simp: seesSlice_def footSlice_def elems load3 res)
qed

lemma slice_nil [simp]:
  "copySlice pack unpack copy NilSlice h = (NilSlice, h)" "seesSlice unpack sees h NilSlice = Some []" "footSlice unpack foot h NilSlice = {}"
  by (simp_all add: copySlice_def seesSlice_def footSlice_def elements_def)

lemma seesSlice_Some: "seesSlice unpack sees h s = Some vs \<longleftrightarrow> (\<exists>gs. elements unpack h s = Some gs \<and> seesList sees h gs = Some vs)"
  by (simp add: seesSlice_def bind_eq_Some_conv)

lemma deep_copySlice:
  assumes pack: "\<And>gs. unpack (pack gs) = Some gs" and elem: "deep_copy copy foot sees"
  shows "deep_copy (copySlice pack unpack copy) (footSlice unpack foot) (seesSlice unpack sees)"
proof (unfold_locales, goal_cases)
  case (1 h s)
  have "copySlice pack unpack copy s h = (s, h)" if "elements unpack h s = None"
    using that by (cases s) (simp_all add: copySlice_def)
  with copySlice_filled(1) [of unpack pack, OF pack elem] show ?case
    by (cases s; cases "elements unpack h s") auto
next
  case (2 h s vs)
  with copySlice_filled(2) [of unpack pack, OF pack elem] show ?case
    by (cases s) (auto simp: seesSlice_Some [of unpack sees h])
next
  case (3 h s vs)
  then obtain gs where "elements unpack h s = Some gs" "seesList sees h gs = Some vs" by (auto simp: seesSlice_Some)
  with copySlice_filled(2) [of unpack pack, OF pack elem] show ?case
    by (cases s) simp_all
next
  case (4 h s vs)
  then obtain gs where gs: "elements unpack h s = Some gs" "seesList sees h gs = Some vs" by (auto simp: seesSlice_Some)
  from gs(1) elements_bound [of unpack h] deep_copy.bounded [OF deep_copyList [OF elem] gs(2)] show ?case
    by (cases s) (auto simp: footSlice_def)
next
  case (5 h s vs h')
  show ?case
  proof (cases s)
    case (Slice a i n)
    with 5 obtain gs where gs: "elements unpack h s = Some gs" "seesList sees h gs = Some vs" by (auto simp: seesSlice_Some)
    have "elements unpack h' s = Some gs"
      using 5(2) [of a] gs(1) elements_load [of h' a h unpack i n] unfolding Slice by (simp add: footSlice_def)
    with 5(2) gs deep_copy.determined [OF deep_copyList [OF elem] gs(2), of h'] show ?thesis
      unfolding Slice by (auto simp: seesSlice_Some footSlice_def)
  qed (use 5(1) in simp)
qed

section \<open>The structs copy deeply\<close>

text \<open>What the structs denote in the value model of \<open>Api_Types\<close>, and the cells they reach.\<close>

record 'f foreignViews =
  fv_foot :: "'f store \<Rightarrow> 'f \<Rightarrow> addr set"
  fv_ObjectMeta :: "'f store \<Rightarrow> 'f \<Rightarrow> ObjectMeta option"
  fv_ListMeta :: "'f store \<Rightarrow> 'f \<Rightarrow> string option"
  fv_Resources :: "'f store \<Rightarrow> 'f \<Rightarrow> ResourceRequirements option"
  fv_EnvVar :: "'f store \<Rightarrow> 'f \<Rightarrow> EnvVar option"
  fv_Condition :: "'f store \<Rightarrow> 'f \<Rightarrow> Condition option"

text \<open>The copy functions of other packages are deep copies, as their documentation says.\<close>

definition copiesForeign :: "'f foreignCopies \<Rightarrow> 'f foreignViews \<Rightarrow> bool" where
  "copiesForeign F V \<longleftrightarrow> deep_copy (fc_ObjectMeta F) (fv_foot V) (fv_ObjectMeta V) \<and> deep_copy (fc_ListMeta F) (fv_foot V) (fv_ListMeta V) \<and>
     deep_copy (fc_Resources F) (fv_foot V) (fv_Resources V) \<and> deep_copy (fc_EnvVar F) (fv_foot V) (fv_EnvVar V) \<and>
     deep_copy (fc_Condition F) (fv_foot V) (fv_Condition V) \<and> deep_copy (fc_Time F) (\<lambda>h a. {a}) (seesCell theTime)"

definition footStep :: "'f store \<Rightarrow> gCanaryStep \<Rightarrow> addr set" where
  "footStep h g = footPair (footPtr (\<lambda>h a. {a})) (footPtr (\<lambda>h a. {a})) h (gcs_SetWeight g, gcs_Pause g)"

definition seesStep :: "'f store \<Rightarrow> gCanaryStep \<Rightarrow> CanaryStep option" where
  "seesStep h g = map_option (\<lambda>(w, p). \<lparr>cs_SetWeight = w, cs_Pause = p\<rparr>)
     (seesPair (seesPtr (seesCell theInt32)) (seesPtr (seesCell theDuration)) h (gcs_SetWeight g, gcs_Pause g))"

lemma DeepCopyInto_CanaryStep_eq:
  "DeepCopyInto_CanaryStep = copyField (\<lambda>g. (gcs_SetWeight g, gcs_Pause g)) (\<lambda>x g. g\<lparr>gcs_SetWeight := fst x, gcs_Pause := snd x\<rparr>)
      (copyPair (copyPtr copyCell) (copyPtr copyCell))"
  by (simp add: fun_eq_iff DeepCopyInto_CanaryStep_def copyField_def copyPair_def split_beta)

lemma deep_copyStep: "deep_copy DeepCopyInto_CanaryStep footStep seesStep"
  unfolding DeepCopyInto_CanaryStep_eq footStep_def [abs_def] seesStep_def [abs_def]
  by (rule deep_copyField [OF deep_copyPair [OF deep_copyPtr deep_copyPtr]]) (auto simp: deep_copyCell)

interpretation canary_step: deep_copy DeepCopyInto_CanaryStep footStep seesStep
  by (rule deep_copyStep)

definition seesMCP :: "'f store \<Rightarrow> gMCPConfig \<Rightarrow> MCPConfig option" where
  "seesMCP h g = map_option (\<lambda>ts. \<lparr>mcp_Expose = gmcp_Expose g, mcp_Tools = ts\<rparr>) (seesSlice theStrings (\<lambda>h. Some) h (gmcp_Tools g))"

abbreviation footStrings :: "'f store \<Rightarrow> slice \<Rightarrow> addr set" where
  "footStrings \<equiv> footSlice theStrings (\<lambda>h g. {})"

lemma deep_copyStrings: "deep_copy (copySlice CStrings theStrings copyValue) footStrings (seesSlice theStrings (\<lambda>h. Some))"
  by (rule deep_copySlice) (simp_all add: deep_copyValue)

lemma DeepCopyInto_MCPConfig_eq:
  "DeepCopyInto_MCPConfig = copyField gmcp_Tools (\<lambda>ts g. g\<lparr>gmcp_Tools := ts\<rparr>) (copySlice CStrings theStrings copyValue)"
  by (simp add: fun_eq_iff DeepCopyInto_MCPConfig_def copyField_def)

lemma deep_copyMCP: "deep_copy DeepCopyInto_MCPConfig (\<lambda>h g. footStrings h (gmcp_Tools g)) seesMCP"
  unfolding DeepCopyInto_MCPConfig_eq seesMCP_def [abs_def]
  by (rule deep_copyField [OF deep_copyStrings]) (auto)

interpretation mcp_config: deep_copy DeepCopyInto_MCPConfig "\<lambda>h g. footStrings h (gmcp_Tools g)" seesMCP
  by (rule deep_copyMCP)

definition footRollout :: "'f store \<Rightarrow> gRolloutPolicy \<Rightarrow> addr set" where
  "footRollout h g = footSlice theSteps footStep h (gro_Steps g)"

definition seesRollout :: "'f store \<Rightarrow> gRolloutPolicy \<Rightarrow> RolloutPolicy option" where
  "seesRollout h g = map_option (\<lambda>ss. \<lparr>ro_Strategy = gro_Strategy g, ro_Steps = ss, ro_Rollback = gro_Rollback g, ro_Abort = gro_Abort g\<rparr>)
     (seesSlice theSteps seesStep h (gro_Steps g))"

lemma DeepCopyInto_RolloutPolicy_eq:
  "DeepCopyInto_RolloutPolicy = copyField gro_Steps (\<lambda>ss g. g\<lparr>gro_Steps := ss\<rparr>) (copySlice CSteps theSteps DeepCopyInto_CanaryStep)"
  by (intro ext) (simp add: DeepCopyInto_RolloutPolicy_def copyField_def)

lemma deep_copyRollout: "deep_copy DeepCopyInto_RolloutPolicy footRollout seesRollout"
  unfolding DeepCopyInto_RolloutPolicy_eq seesRollout_def [abs_def] footRollout_def [abs_def]
  by (rule deep_copyField [OF deep_copySlice]) (auto intro: deep_copyStep)

interpretation rollout_policy: deep_copy DeepCopyInto_RolloutPolicy footRollout seesRollout
  by (rule deep_copyRollout)

definition seesSpec :: "'f foreignViews \<Rightarrow> 'f store \<Rightarrow> 'f gAgentDeploymentSpec \<Rightarrow> AgentDeploymentSpec option" where
  "seesSpec V h g = map_option (\<lambda>(ro, mcp, res, env, args). \<lparr>spec_Image = gspec_Image g, spec_Port = gspec_Port g,
       spec_TenantRef = gspec_TenantRef g, spec_Replicas = gspec_Replicas g, spec_Rollout = ro, spec_MCP = mcp, spec_Resources = res,
       spec_Env = env, spec_Args = args\<rparr>)
     (seesPair seesRollout (seesPair seesMCP (seesPair (fv_Resources V)
        (seesPair (seesSlice theForeigns (fv_EnvVar V)) (seesSlice theStrings (\<lambda>h. Some))))) h
        (gspec_Rollout g, gspec_MCP g, gspec_Resources g, gspec_Env g, gspec_Args g))"

definition footSpec :: "'f foreignViews \<Rightarrow> 'f store \<Rightarrow> 'f gAgentDeploymentSpec \<Rightarrow> addr set" where
  "footSpec V h g = footPair footRollout (footPair (\<lambda>h g. footStrings h (gmcp_Tools g)) (footPair (fv_foot V)
     (footPair (footSlice theForeigns (fv_foot V)) footStrings))) h
     (gspec_Rollout g, gspec_MCP g, gspec_Resources g, gspec_Env g, gspec_Args g)"

lemma deep_copySpec:
  assumes "copiesForeign F V"
  shows "deep_copy (DeepCopyInto_AgentDeploymentSpec F) (footSpec V) (seesSpec V)"
proof -
  have "DeepCopyInto_AgentDeploymentSpec F = copyField (\<lambda>g. (gspec_Rollout g, gspec_MCP g, gspec_Resources g, gspec_Env g, gspec_Args g))
      (\<lambda>(ro, mcp, res, env, args) g. g\<lparr>gspec_Rollout := ro, gspec_MCP := mcp, gspec_Resources := res, gspec_Env := env, gspec_Args := args\<rparr>)
      (copyPair DeepCopyInto_RolloutPolicy (copyPair DeepCopyInto_MCPConfig (copyPair (fc_Resources F)
        (copyPair (copySlice CForeigns theForeigns (fc_EnvVar F)) (copySlice CStrings theStrings copyValue)))))"
    by (simp add: fun_eq_iff DeepCopyInto_AgentDeploymentSpec_def copyField_def copyPair_def split_beta)
  then show ?thesis
    unfolding footSpec_def [abs_def] seesSpec_def [abs_def]
    by (simp only:) (rule deep_copyField, intro deep_copyPair deep_copyRollout deep_copyMCP deep_copyStrings
        deep_copySlice, use assms in \<open>auto simp: copiesForeign_def\<close>)
qed

definition seesStatus :: "'f foreignViews \<Rightarrow> 'f store \<Rightarrow> gAgentDeploymentStatus \<Rightarrow> AgentDeploymentStatus option" where
  "seesStatus V h g = map_option (\<lambda>(p, u, cs). \<lparr>status_Phase = gstatus_Phase g, status_CurrentReplicas = gstatus_CurrentReplicas g,
       status_StableVersion = gstatus_StableVersion g, status_CanaryVersion = gstatus_CanaryVersion g,
       status_CanaryWeight = gstatus_CanaryWeight g, status_CanaryStepIndex = gstatus_CanaryStepIndex g, status_PauseStartedAt = p,
       status_PromUnreachableSince = u, status_Registered = gstatus_Registered g, status_Conditions = cs\<rparr>)
     (seesPair (seesPtr (seesCell theTime)) (seesPair (seesPtr (seesCell theTime)) (seesSlice theForeigns (fv_Condition V))) h
        (gstatus_PauseStartedAt g, gstatus_PromUnreachableSince g, gstatus_Conditions g))"

definition footStatus :: "'f foreignViews \<Rightarrow> 'f store \<Rightarrow> gAgentDeploymentStatus \<Rightarrow> addr set" where
  "footStatus V h g = footPair (footPtr (\<lambda>h a. {a})) (footPair (footPtr (\<lambda>h a. {a})) (footSlice theForeigns (fv_foot V))) h
     (gstatus_PauseStartedAt g, gstatus_PromUnreachableSince g, gstatus_Conditions g)"

lemma deep_copyStatus:
  assumes "copiesForeign F V"
  shows "deep_copy (DeepCopyInto_AgentDeploymentStatus F) (footStatus V) (seesStatus V)"
proof -
  have "DeepCopyInto_AgentDeploymentStatus F = copyField (\<lambda>g. (gstatus_PauseStartedAt g, gstatus_PromUnreachableSince g, gstatus_Conditions g))
      (\<lambda>(p, u, cs) g. g\<lparr>gstatus_PauseStartedAt := p, gstatus_PromUnreachableSince := u, gstatus_Conditions := cs\<rparr>)
      (copyPair (copyPtr (fc_Time F)) (copyPair (copyPtr (fc_Time F)) (copySlice CForeigns theForeigns (fc_Condition F))))"
    by (simp add: fun_eq_iff DeepCopyInto_AgentDeploymentStatus_def copyField_def copyPair_def split_beta)
  then show ?thesis
    unfolding footStatus_def [abs_def] seesStatus_def [abs_def]
    by (simp only:) (rule deep_copyField, intro deep_copyPair deep_copyPtr deep_copySlice, use assms in \<open>auto simp: copiesForeign_def\<close>)
qed

definition seesAgent :: "'f foreignViews \<Rightarrow> 'f store \<Rightarrow> 'f gAgentDeployment \<Rightarrow> AgentDeployment option" where
  "seesAgent V h g = map_option (\<lambda>(m, sp, st). \<lparr>ad_Meta = m, ad_Spec = sp, ad_Status = st\<rparr>)
     (seesPair (fv_ObjectMeta V) (seesPair (seesSpec V) (seesStatus V)) h (gad_Meta g, gad_Spec g, gad_Status g))"

definition footAgent :: "'f foreignViews \<Rightarrow> 'f store \<Rightarrow> 'f gAgentDeployment \<Rightarrow> addr set" where
  "footAgent V h g = footPair (fv_foot V) (footPair (footSpec V) (footStatus V)) h (gad_Meta g, gad_Spec g, gad_Status g)"

lemma deep_copyAgent:
  assumes "copiesForeign F V"
  shows "deep_copy (DeepCopyInto_AgentDeployment F) (footAgent V) (seesAgent V)"
proof -
  have "DeepCopyInto_AgentDeployment F = copyField (\<lambda>g. (gad_Meta g, gad_Spec g, gad_Status g))
      (\<lambda>(m, sp, st) g. g\<lparr>gad_Meta := m, gad_Spec := sp, gad_Status := st\<rparr>)
      (copyPair (fc_ObjectMeta F) (copyPair (DeepCopyInto_AgentDeploymentSpec F) (DeepCopyInto_AgentDeploymentStatus F)))"
    by (simp add: fun_eq_iff DeepCopyInto_AgentDeployment_def copyField_def copyPair_def split_beta)
  then show ?thesis
    unfolding footAgent_def [abs_def] seesAgent_def [abs_def]
    by (simp only:) (rule deep_copyField, intro deep_copyPair deep_copySpec deep_copyStatus, use assms in \<open>auto simp: copiesForeign_def\<close>)
qed

definition seesQuotaStatus :: "'f foreignViews \<Rightarrow> 'f store \<Rightarrow> gTenantQuotaStatus \<Rightarrow> TenantQuotaStatus option" where
  "seesQuotaStatus V h g = map_option (\<lambda>cs. \<lparr>tq_UsedAgents = gtq_UsedAgents g, tq_UsedGPUs = gtq_UsedGPUs g,
       tq_UsedTotalReplicas = gtq_UsedTotalReplicas g, tq_Conditions = cs\<rparr>) (seesSlice theForeigns (fv_Condition V) h (gtq_Conditions g))"

definition footQuotaStatus :: "'f foreignViews \<Rightarrow> 'f store \<Rightarrow> gTenantQuotaStatus \<Rightarrow> addr set" where
  "footQuotaStatus V h g = footSlice theForeigns (fv_foot V) h (gtq_Conditions g)"

lemma deep_copyQuotaStatus:
  assumes "copiesForeign F V"
  shows "deep_copy (DeepCopyInto_TenantQuotaStatus F) (footQuotaStatus V) (seesQuotaStatus V)"
proof -
  have "DeepCopyInto_TenantQuotaStatus F = copyField gtq_Conditions (\<lambda>cs g. g\<lparr>gtq_Conditions := cs\<rparr>) (copySlice CForeigns theForeigns (fc_Condition F))"
    by (simp add: fun_eq_iff DeepCopyInto_TenantQuotaStatus_def copyField_def)
  then show ?thesis
    unfolding footQuotaStatus_def [abs_def] seesQuotaStatus_def [abs_def]
    by (simp only:) (rule deep_copyField [OF deep_copySlice], use assms in \<open>auto simp: copiesForeign_def\<close>)
qed

definition seesQuota :: "'f foreignViews \<Rightarrow> 'f store \<Rightarrow> 'f gTenantQuota \<Rightarrow> TenantQuota option" where
  "seesQuota V h g = map_option (\<lambda>(m, st). \<lparr>tq_Meta = m, tq_Spec = gtq_Spec g, tq_Status = st\<rparr>)
     (seesPair (fv_ObjectMeta V) (seesQuotaStatus V) h (gtq_Meta g, gtq_Status g))"

definition footQuota :: "'f foreignViews \<Rightarrow> 'f store \<Rightarrow> 'f gTenantQuota \<Rightarrow> addr set" where
  "footQuota V h g = footPair (fv_foot V) (footQuotaStatus V) h (gtq_Meta g, gtq_Status g)"

lemma deep_copyQuota:
  assumes "copiesForeign F V"
  shows "deep_copy (DeepCopyInto_TenantQuota F) (footQuota V) (seesQuota V)"
proof -
  have "DeepCopyInto_TenantQuota F = copyField (\<lambda>g. (gtq_Meta g, gtq_Status g)) (\<lambda>(m, st) g. g\<lparr>gtq_Meta := m, gtq_Status := st\<rparr>)
      (copyPair (fc_ObjectMeta F) (DeepCopyInto_TenantQuotaStatus F))"
    by (simp add: fun_eq_iff DeepCopyInto_TenantQuota_def copyField_def copyPair_def split_beta)
  then show ?thesis
    unfolding footQuota_def [abs_def] seesQuota_def [abs_def]
    by (simp only:) (rule deep_copyField, intro deep_copyPair deep_copyQuotaStatus, use assms in \<open>auto simp: copiesForeign_def\<close>)
qed

definition seesAgents :: "'f foreignViews \<Rightarrow> 'f store \<Rightarrow> 'f gObjectList \<Rightarrow> (string \<times> AgentDeployment list) option" where
  "seesAgents V h g = seesPair (fv_ListMeta V) (seesSlice theAgents (seesAgent V)) h (gl_ListMeta g, gl_Items g)"

lemma deep_copyAgents:
  assumes "copiesForeign F V"
  shows "deep_copy (DeepCopyInto_AgentDeploymentList F) (\<lambda>h g. footPair (fv_foot V) (footSlice theAgents (footAgent V)) h (gl_ListMeta g, gl_Items g)) (seesAgents V)"
proof -
  have "DeepCopyInto_AgentDeploymentList F = copyField (\<lambda>g. (gl_ListMeta g, gl_Items g)) (\<lambda>(m, items) g. g\<lparr>gl_ListMeta := m, gl_Items := items\<rparr>)
      (copyPair (fc_ListMeta F) (copySlice CAgents theAgents (DeepCopyInto_AgentDeployment F)))"
    by (simp add: fun_eq_iff DeepCopyInto_AgentDeploymentList_def copyField_def copyPair_def split_beta)
  moreover have "seesAgents V = (\<lambda>h g. map_option (\<lambda>x. x) (seesPair (fv_ListMeta V) (seesSlice theAgents (seesAgent V)) h (gl_ListMeta g, gl_Items g)))"
    by (simp add: fun_eq_iff seesAgents_def option.map_ident)
  ultimately show ?thesis
    by (simp only:) (rule deep_copyField, intro deep_copyPair deep_copySlice deep_copyAgent, use assms in \<open>auto simp: copiesForeign_def\<close>)
qed

definition seesQuotas :: "'f foreignViews \<Rightarrow> 'f store \<Rightarrow> 'f gObjectList \<Rightarrow> (string \<times> TenantQuota list) option" where
  "seesQuotas V h g = seesPair (fv_ListMeta V) (seesSlice theQuotas (seesQuota V)) h (gl_ListMeta g, gl_Items g)"

lemma deep_copyQuotas:
  assumes "copiesForeign F V"
  shows "deep_copy (DeepCopyInto_TenantQuotaList F) (\<lambda>h g. footPair (fv_foot V) (footSlice theQuotas (footQuota V)) h (gl_ListMeta g, gl_Items g)) (seesQuotas V)"
proof -
  have "DeepCopyInto_TenantQuotaList F = copyField (\<lambda>g. (gl_ListMeta g, gl_Items g)) (\<lambda>(m, items) g. g\<lparr>gl_ListMeta := m, gl_Items := items\<rparr>)
      (copyPair (fc_ListMeta F) (copySlice CQuotas theQuotas (DeepCopyInto_TenantQuota F)))"
    by (simp add: fun_eq_iff DeepCopyInto_TenantQuotaList_def copyField_def copyPair_def split_beta)
  moreover have "seesQuotas V = (\<lambda>h g. map_option (\<lambda>x. x) (seesPair (fv_ListMeta V) (seesSlice theQuotas (seesQuota V)) h (gl_ListMeta g, gl_Items g)))"
    by (simp add: fun_eq_iff seesQuotas_def option.map_ident)
  ultimately show ?thesis
    by (simp only:) (rule deep_copyField, intro deep_copyPair deep_copySlice deep_copyQuota, use assms in \<open>auto simp: copiesForeign_def\<close>)
qed

text \<open>What the reconcilers rely on when they compare a status with the copy they took of it: writing a condition into the array of the
  original does not show in the copy.\<close>

lemma status_copy_unaffected:
  assumes "copiesForeign F V" and "seesStatus V h g = Some st" and "DeepCopyInto_AgentDeploymentStatus F g h = (prev, h')" and "a < st_next h"
  shows "seesStatus V (assign a c h') prev = Some st"
  by (rule deep_copy.independent [OF deep_copyStatus [OF assms(1)] assms(2,3)]) (use assms(4) in \<open>simp add: load_def assign_def\<close>)

section \<open>Properties\<close>

text \<open>C24. Go's copies are the values of the model: the deep copy of an AgentDeployment denotes the same object as the original, in the
  store the copy leaves and in every later one in which only the original's cells, or new ones, were written; and likewise the
  original is unaffected by writes to the copy.\<close>

theorem AgentDeployment_DeepCopy_independent:
  assumes "copiesForeign F V" and "seesAgent V h g = Some ad" and "DeepCopy_AgentDeployment F (Some g) h = (g', h')"
  shows "\<exists>c. g' = Some c \<and> seesAgent V h' c = Some ad \<and> seesAgent V h' g = Some ad \<and>
    (\<forall>h''. (\<forall>a. st_next h \<le> a \<and> a < st_next h' \<longrightarrow> load h'' a = load h' a) \<longrightarrow> seesAgent V h'' c = Some ad) \<and>
    (\<forall>h''. (\<forall>a < st_next h. load h'' a = load h' a) \<longrightarrow> seesAgent V h'' g = Some ad)"
proof -
  obtain c where c: "DeepCopyInto_AgentDeployment F g h = (c, h')" "g' = Some c"
    using assms(3) by (auto simp: DeepCopy_AgentDeployment_def DeepCopy_def split: prod.splits)
  note copy = deep_copy.independent [OF deep_copyAgent [OF assms(1)] assms(2) c(1)] deep_copy.original [OF deep_copyAgent [OF assms(1)] assms(2) c(1)]
  show ?thesis
    using copy c(2) by blast
qed

text \<open>A copier of other packages' structs that keep their data in one array of the heap, and an agent with a paused rollout.\<close>

definition sample_foreign :: "nat foreignCopies" where
  "sample_foreign = \<lparr>fc_ObjectMeta = copyCell, fc_ListMeta = copyCell, fc_Resources = copyCell, fc_EnvVar = copyCell, fc_Condition = copyCell,
     fc_Time = copyCell\<rparr>"

definition sample_views :: "nat foreignViews" where
  "sample_views =
    \<lparr>fv_foot = \<lambda>h a. {a},
     fv_ObjectMeta = seesCell (\<lambda>c. map_option (\<lambda>xs. zero_ObjectMeta\<lparr>om_Finalizers := xs\<rparr>) (theStrings c)),
     fv_ListMeta = seesCell (\<lambda>c. map_option concat (theStrings c)),
     fv_Resources = seesCell (\<lambda>c. map_option (\<lambda>xs. \<lparr>res_Requests = [], res_Limits = map (\<lambda>x. (x, x)) xs\<rparr>) (theStrings c)),
     fv_EnvVar = seesCell (\<lambda>c. map_option (\<lambda>xs. (concat xs, [])) (theStrings c)),
     fv_Condition = seesCell (\<lambda>c. map_option (\<lambda>xs. \<lparr>cond_Type = concat xs, cond_Status = ConditionTrue, cond_Reason = [], cond_Message = [],
       cond_ObservedGeneration = 0\<rparr>) (theStrings c))\<rparr>"

definition sample_heap :: "nat store" where
  "sample_heap = \<lparr>st_next = 8, st_cells = \<lambda>a. Some ([CStrings [''finalizer''], CStrings [''Ready''], CForeigns [1], CInt32 20, CDuration 5, CTime 7,
     CSteps [\<lparr>gcs_SetWeight = Some 3, gcs_Pause = None\<rparr>, \<lparr>gcs_SetWeight = None, gcs_Pause = Some 4\<rparr>], CStrings [''search'']] ! a)\<rparr>"

definition sample_gagent :: "nat gAgentDeployment" where
  "sample_gagent = \<lparr>gad_Meta = 0,
     gad_Spec = \<lparr>gspec_Image = ''img:v2'', gspec_Port = 80, gspec_TenantRef = ''t'', gspec_Replicas = \<lparr>sp_Min = 1, sp_Max = 2, sp_Metric = [], sp_Target = 0\<rparr>,
       gspec_Rollout = \<lparr>gro_Strategy = ''Canary'', gro_Steps = Slice 6 0 2,
         gro_Rollback = \<lparr>rb_MaxErrorRate = [], rb_MaxP99LatencyMs = 0, rb_MinRequestSample = 0\<rparr>, gro_Abort = False\<rparr>,
       gspec_MCP = \<lparr>gmcp_Expose = True, gmcp_Tools = Slice 7 0 1\<rparr>, gspec_Resources = 1, gspec_Env = NilSlice, gspec_Args = NilSlice\<rparr>,
     gad_Status = \<lparr>gstatus_Phase = PhaseRolloutInProgress, gstatus_CurrentReplicas = 1, gstatus_StableVersion = ''img:v1'',
       gstatus_CanaryVersion = ''img:v2'', gstatus_CanaryWeight = 20, gstatus_CanaryStepIndex = 1, gstatus_PauseStartedAt = Some 5,
       gstatus_PromUnreachableSince = None, gstatus_Registered = True, gstatus_Conditions = Slice 2 0 1\<rparr>\<rparr>"

lemma sample_copiesForeign: "copiesForeign sample_foreign sample_views"
  by (simp add: copiesForeign_def sample_foreign_def sample_views_def deep_copyCell)

theorem AgentDeployment_DeepCopy_independent_witness:
  "let res = DeepCopy_AgentDeployment sample_foreign (Some sample_gagent) sample_heap
   in \<exists>c ad. fst res = Some c \<and> gad_Meta c \<noteq> gad_Meta sample_gagent \<and> map cs_Pause (ro_Steps (spec_Rollout (ad_Spec ad))) = [None, Some 5] \<and>
     seesAgent sample_views (snd res) c = Some ad \<and> seesAgent sample_views (assign 4 (CDuration 9) (snd res)) c = Some ad"
proof -
  let ?res = "DeepCopy_AgentDeployment sample_foreign (Some sample_gagent) sample_heap"
  have view: "map_option (\<lambda>ad. map cs_Pause (ro_Steps (spec_Rollout (ad_Spec ad)))) (seesAgent sample_views sample_heap sample_gagent) = Some [None, Some 5]"
    by code_simp
  then obtain ad where ad: "seesAgent sample_views sample_heap sample_gagent = Some ad" "map cs_Pause (ro_Steps (spec_Rollout (ad_Spec ad))) = [None, Some 5]"
    by (cases "seesAgent sample_views sample_heap sample_gagent") auto
  have meta: "map_option gad_Meta (fst ?res) = Some 8" "st_next sample_heap = 8" "gad_Meta sample_gagent = 0"
    by code_simp+
  obtain c where c: "fst ?res = Some c \<and> seesAgent sample_views (snd ?res) c = Some ad" and
    kept: "\<And>h''. (\<forall>a. st_next sample_heap \<le> a \<and> a < st_next (snd ?res) \<longrightarrow> load h'' a = load (snd ?res) a) \<Longrightarrow> seesAgent sample_views h'' c = Some ad"
    using AgentDeployment_DeepCopy_independent [OF sample_copiesForeign ad(1) prod.collapse [symmetric]] by metis
  have "seesAgent sample_views (assign 4 (CDuration 9) (snd ?res)) c = Some ad"
    by (rule kept) (simp add: meta load_def assign_def)
  moreover have "gad_Meta c \<noteq> gad_Meta sample_gagent"
    using meta c by auto
  ultimately show ?thesis
    unfolding Let_def by (intro exI [of _ c] exI [of _ ad] conjI) (simp_all only: c ad(2) simp_thms)
qed

end
