(* ===== verification/Spec2Isabelle.thy ===== *)
theory Spec2Isabelle
  imports Startup Deep_Copy
begin

text \<open>
  A verification development of Agentrax, a Kubernetes operator written in Go. Users describe an agent by an \<open>AgentDeployment\<close> and the
  budget of a tenant by a \<open>TenantQuota\<close>. The operator admits requests against the budget, runs each agent as a Deployment with a
  Service and an autoscaler, rolls new images out behind a canary whose metrics it judges, and lists the agents in a discovery registry.

  \<^bold>\<open>The parts and their theories.\<close> Paths are relative to \<^verbatim>\<open>src/\<close>. A definition has the name of the Go function or type it translates; a record's
  fields are prefixed by a tag of the struct, and a piece of a longer function that is a definition of its own is named after what it does.

  \<^item> \<open>Prelude\<close>: integers at their width, times, errors, calls that fail and change a state (\<open>act\<close>), and the weakest preconditions \<open>wp\<close> by
    which all stateful code is verified; decimal printing. \<open>Json\<close>: values of \<^verbatim>\<open>encoding/json\<close>. \<open>Float64\<close>: \<open>float64\<close>, \<open>strconv.ParseFloat\<close> and
    \<^verbatim>\<open>api/v1alpha1/error_rate.go\<close>.
  \<^item> \<open>Api_Types\<close>: the structs of \<^verbatim>\<open>api/v1alpha1\<close> as values. \<open>Deep_Copy\<close>: the same structs in memory, and the generated copies of
    \<^verbatim>\<open>zz_generated.deepcopy.go\<close>, over an explicit store.
  \<^item> \<open>Kube\<close>: the objects and the calls of the API server, with their laws (\<open>kube_kind\<close> for one kind of object, \<open>kube_laws\<close> for all).
    \<open>Kube_Store\<close>: a store that obeys them.
  \<^item> \<open>Quota\<close>: \<^verbatim>\<open>internal/quota/enforcer.go\<close>. Its state is the map of reservations in flight, shared by the webhook and the reconciler.
  \<^item> \<open>Webhook\<close>: \<^verbatim>\<open>internal/webhook/agentdeployment_webhook.go\<close>, defaulting and validation; the state is the enforcer and the API reader's.
  \<^item> \<open>TQ_Controller\<close>: \<^verbatim>\<open>internal/controller/tenantquota_controller.go\<close>; the state is the enforcer, the usage gauge and the client's.
  \<^item> \<open>Scaling\<close>: \<^verbatim>\<open>internal/scaling/autoscaler.go\<close>. \<open>Prom\<close> and \<open>PromQL\<close>: \<^verbatim>\<open>internal/metrics/prometheus.go\<close> and \<^verbatim>\<open>internal/rollout/promql.go\<close>, the
    queries on the canary and the verdict.
  \<^item> \<open>Canary\<close>: \<^verbatim>\<open>internal/rollout/canary.go\<close>, the rollout, one \<open>Step\<close> per reconcile.
  \<^item> \<open>Registry\<close> and \<open>Registrar\<close>: \<^verbatim>\<open>internal/registry\<close>, the discovery registry with its leases and its ConfigMap, the handshake with an
    agent, and the registrar the reconciler calls (\<open>agent_registrar\<close>).
  \<^item> \<open>AD_Controller\<close>: \<^verbatim>\<open>internal/controller/agentdeployment_controller.go\<close> with \<^verbatim>\<open>conditions.go\<close>, \<^verbatim>\<open>crd_check.go\<close> and \<^verbatim>\<open>enqueue_handlers.go\<close>, function
    by function; \<open>AD_Reconcile\<close>: what the composed \<open>Reconcile\<close> does.
  \<^item> \<open>Main_Config\<close> and \<open>Startup\<close>: \<^verbatim>\<open>cmd/main.go\<close>, the configuration (with \<open>time.ParseDuration\<close>) and what \<open>main\<close> sets up;
    \<open>InitTracerProvider\<close> of \<^verbatim>\<open>internal/observability/tracing.go\<close>.

  \<^bold>\<open>How the parts interact.\<close> A request passes \<open>ValidateCreate\<close> or \<open>ValidateUpdate\<close>, which reserve its demand in the enforcer;
  \<open>ReconcileQuota\<close> counts what was stored and releases the reservations. \<open>Reconcile\<close> finalizes a deleted agent, hands an agent in a rollout to
  \<open>Step\<close> or \<open>Rollback\<close>, starts a rollout for a changed image, and otherwise converges the children, the registration and the status. This
  theory composes admission with rollouts and with the operator's own writes.

  \<^bold>\<open>What is assumed.\<close> client-go, controller-runtime, apimachinery and the OpenTelemetry SDK are not part of the sources: they are records of
  functions over an abstract state, and a call may fail at any time. Theorems on the controllers hold for every client that obeys
  \<open>kube_laws\<close>: a read returns what is stored, a write that succeeds stores the object, one that fails changes nothing, status and spec are
  written separately. Prometheus and the agents may answer anything. \<open>mem_kube\<close> is a client that obeys the laws, with injected faults; the
  witnesses run on it, and \<open>sharedKube\<close> puts it beside the registry's state, so that \<open>agent_registrar\<close> is obeyed by the model of the
  registrar itself. The quota contract \<open>quota_gate\<close> and the contract \<open>deep_copy\<close> of a copy function are obeyed by the definitions of \<open>Quota\<close> and
  \<open>Deep_Copy\<close>.

  \<^bold>\<open>What is shown.\<close>
  \<^item> Rollouts: \<open>Step\<close> refines the machine \<open>rollout_step\<close> and \<open>Reconcile\<close> the machine \<open>lifecycle_step\<close>; the invariant of every run; that a rollout
    ends; what a promotion, a rollback, a pause and a traffic step leave behind; that a spec the webhook admitted cannot get stuck on a
    malformed step; the verdict on the metrics.
  \<^item> Quota: concurrent creates never over-commit; the atomic check agrees with the dry run; GPU arithmetic, clamping and sweeping; the webhook
    admits exactly the documented requests; the reconciler reports exactly the tenant's usage; the autoscalers share the budget.
  \<^item> Discovery: leases, listing, persistence and its round trip, heartbeats; the status does not claim a registration the registry lacks; a
    finalizer goes only after the registration; the configured heartbeat keeps a lease alive.
  \<^item> Representation: deep copies are independent, durations and ConfigMaps read back as written, and the binary's start-up
    follows its plan up to the first failure.
  \<^item> Where the code does not do what it says, a lemma or a property shows the behaviour on a concrete run, for instance
    \<open>failed_image_redeployed\<close>, \<open>finalizer_update_reopens_quota\<close> and \<open>replica_forgets_live_agent\<close>.

  \<^bold>\<open>Choices.\<close> All recursion is structural or has a measure, and nothing runs on fuel. Of the loops that never end, the sweepers take the list of
  their ticks, and the reconcile loop is modelled by one iteration, with the time read from the client; sequences of iterations are
  the runs \<open>rollout_run\<close>, and runs of the quota gate. Operations under a mutex are atomic. A Go map is an association list whose order is
  arbitrary; theorems that could depend on the order say that they do not. \<open>retry.RetryOnConflict\<close> is characterised by its attempts
  (\<open>retries\<close>); the store makes at most five, as the library's default does.

  \<^bold>\<open>Not modelled.\<close> Logs, spans and the reconcile-duration histogram, which nothing reads back; the registration of the schemes
  (\<^verbatim>\<open>groupversion_info.go\<close>, \<open>init\<close>), the parsing of the command line and the log level; the sending of HTTP requests, which is a
  parameter; JSON texts, which are represented by their values; \<^verbatim>\<open>test/utils\<close>, which is not part of the operator.
\<close>

section \<open>Admission and rollouts\<close>

text \<open>A spec enters the cluster through the webhook, by a create or by an update of an object that is not being deleted.\<close>

definition admitted :: "(Quantity \<Rightarrow> int64) \<Rightarrow> 's AgentDeploymentCustomValidator \<Rightarrow> time \<Rightarrow> bool option option \<Rightarrow> Enforcer \<times> 's \<Rightarrow>
    AgentDeployment option \<Rightarrow> AgentDeployment \<Rightarrow> bool" where
  "admitted qv v now dryRun st old ad = (case old of
     None \<Rightarrow> fst (ValidateCreate qv v now dryRun (Inr ad) st) = Allowed
   | Some prev \<Rightarrow> om_DeletionTimestamp (ad_Meta ad) = None \<and> fst (ValidateUpdate qv v now dryRun (Inr prev) (Inr ad) st) = Allowed)"

lemma admitted_wellFormed: "admitted qv v now dryRun st old ad \<Longrightarrow> wellFormedSpec (ad_Spec ad)"
  using validateSpec_decides(1) [of qv v now dryRun ad _ "fst st" "snd st"]
  by (auto simp: admitted_def ValidateCreate_def ValidateUpdate_def admissible_def split_beta split: option.splits sum.splits if_splits)

lemma wellFormed_breach:
  assumes "wellFormedSteps steps" and "rollout_step steps (Rolling i w p) Failed"
  shows "p \<and> (\<exists>st d. stepAt steps i = Some st \<and> cs_Pause st = Some d \<and> cs_SetWeight st = None)"
  using assms by (auto elim!: rollout_stepE simp: wellFormedSteps_def stepAt_def split: if_splits)

lemma wellFormed_promotion:
  assumes "wellFormedSteps steps" and "rollout_step steps (Rolling i w p) Promoted"
  shows "\<exists>j st. 0 \<le> j \<and> j < i \<and> stepAt steps j = Some st \<and> cs_SetWeight st = Some 100"
proof -
  from assms(1) obtain j where "j < length steps" "cs_SetWeight (steps ! j) = Some 100"
    by (auto simp: wellFormedSteps_def in_set_conv_nth)
  moreover have "int (length steps) \<le> i"
    using assms(2) by (auto elim: rollout_stepE)
  ultimately show ?thesis
    by (intro exI [of _ "int j"] exI [of _ "steps ! j"]) (auto simp: stepAt_def)
qed

text \<open>A rollout that goes to full traffic at once.\<close>

definition sample_full :: AgentDeployment where
  "sample_full = (let ad = sample_canary 0 0 None; spec = ad_Spec ad; ro = spec_Rollout spec
     in ad\<lparr>ad_Spec := spec\<lparr>spec_Rollout := ro\<lparr>ro_Steps := [\<lparr>cs_SetWeight = Some 100, cs_Pause = None\<rparr>]\<rparr>\<rparr>\<rparr>)"

section \<open>Admission and the operator's own writes\<close>

definition sample_validator :: "mem AgentDeploymentCustomValidator" where
  "sample_validator = \<lparr>av_Client = mem_kube\<rparr>"

definition sample_one_agent :: mem where
  "sample_one_agent = empty_mem\<lparr>m_tq := [sample_tenant\<lparr>tq_Spec := sample_quota 1 4 9\<rparr>]\<rparr>"

text \<open>The operator's own first write to a new agent, which adds the finalizer, passes the webhook as an update that changes nothing:
  it replaces the reservation of the create by an empty one. Until the usage is next counted, the quota is open again: the tenant,
  who may run one agent, is admitted a second one that is refused before the finalizer is added.\<close>

lemma finalizer_update_reopens_quota:
  "let a = sample_member ''a'' ''t'' 1; b = sample_member ''b'' ''t'' 1;
       a' = a\<lparr>ad_Meta := k_AddFinalizer mem_kube (ad_Meta a) AgentDeploymentFinalizer\<rparr>;
       (first, st1) = ValidateCreate sample_value sample_validator 0 None (Inr a) (NewEnforcer [], sample_one_agent);
       (second, st2) = ValidateUpdate sample_value sample_validator Second None (Inr a) (Inr a') st1
   in first = Allowed \<and> fst (ValidateCreate sample_value sample_validator Second None (Inr b) st1) \<noteq> Allowed \<and>
      second = Allowed \<and> fst (ValidateCreate sample_value sample_validator Second None (Inr b) st2) = Allowed"
  by code_simp

section \<open>Properties\<close>



end
